(* ===== verification/Prelude.thy ===== *)
theory Prelude
  imports Main "HOL-Library.Multiset" "HOL-Library.Sublist"
begin

text \<open>
  What every component of the development shares.

  Go strings and byte slices are sequences of bytes; both are \<^typ>\<open>string\<close> here (an Isabelle
  \<^typ>\<open>char\<close> is one byte). A byte slice whose nil value matters is a \<open>string option\<close>.
  The theory models what the program uses of the packages \<open>strings\<close>, \<open>bytes\<close>, \<open>unicode\<close> and
  \<open>bufio\<close>, and the two ways a Go call can end: it returns, or it panics.
\<close>

section \<open>Proof collection\<close>

named_theorems frame \<open>what an operation leaves unchanged\<close>

section \<open>Outcomes\<close>

text \<open>
  A handler returns normally or panics. A panic inside an HTTP handler is recovered by
  \<open>net/http\<close>, which drops the connection; the model keeps it as a value of its own so that no
  property can overlook it.
\<close>

datatype 'a outcome = Returns 'a | Panics string

fun obind :: "'a outcome \<Rightarrow> ('a \<Rightarrow> 'b outcome) \<Rightarrow> 'b outcome" where
  "obind (Returns a) f = f a"
| "obind (Panics m) f = Panics m"

fun returns :: "'a outcome \<Rightarrow> bool" where
  "returns (Returns a) = True"
| "returns (Panics m) = False"

lemma obind_eq_Returns: "obind x f = Returns b \<longleftrightarrow> (\<exists>a. x = Returns a \<and> f a = Returns b)"
  by (cases x) auto

lemma obind_assoc: "obind (obind x f) g = obind x (\<lambda>a. obind (f a) g)"
  by (cases x) auto

section \<open>Package strings\<close>

text \<open>\<open>strings.HasPrefix\<close>.\<close>

definition has_prefix :: "string \<Rightarrow> string \<Rightarrow> bool" where
  "has_prefix s p \<longleftrightarrow> length p \<le> length s \<and> take (length p) s = p"

lemma has_prefix_iff: "has_prefix s p \<longleftrightarrow> (\<exists>t. s = p @ t)"
proof
  assume "has_prefix s p"
  then have "s = p @ drop (length p) s"
    unfolding has_prefix_def by (metis append_take_drop_id)
  then show "\<exists>t. s = p @ t" by blast
qed (auto simp: has_prefix_def)

lemma has_prefix_append [simp]: "has_prefix (p @ t) p"
  by (simp add: has_prefix_def)

lemma has_prefix_Cons [simp]: "has_prefix (c # s) (d # p) \<longleftrightarrow> c = d \<and> has_prefix s p"
  by (auto simp: has_prefix_def)

lemma has_prefix_Nil [simp]: "has_prefix s []" "has_prefix [] p \<longleftrightarrow> p = []"
  by (auto simp: has_prefix_def)

lemma has_prefix_refl [simp]: "has_prefix p p"
  by (simp add: has_prefix_def)

lemma has_prefix_trans: "has_prefix s q \<Longrightarrow> has_prefix q p \<Longrightarrow> has_prefix s p"
  by (auto simp: has_prefix_iff)

lemma has_prefix_comparable:
  assumes "has_prefix s p" and "has_prefix s q"
  shows "has_prefix p q \<or> has_prefix q p"
  using assms by (auto simp: has_prefix_iff append_eq_append_conv2)

lemma not_both_prefixes:
  assumes "has_prefix s p" and "\<not> has_prefix p q" and "\<not> has_prefix q p"
  shows "\<not> has_prefix s q"
  using assms has_prefix_comparable by blast

text \<open>\<open>strings.SplitN(s, sep, 2)\<close> for a separator of one byte: one part when the separator
  does not occur, two otherwise.\<close>

definition splitN2 :: "char \<Rightarrow> string \<Rightarrow> string list" where
  "splitN2 c s =
     (case dropWhile (\<lambda>x. x \<noteq> c) s of
        [] \<Rightarrow> [s]
      | _ # r \<Rightarrow> [takeWhile (\<lambda>x. x \<noteq> c) s, r])"

lemma splitN2_cases:
  obtains (one) "c \<notin> set s" "splitN2 c s = [s]"
  | (two) a b where "s = a @ c # b" "c \<notin> set a" "splitN2 c s = [a, b]"
proof (cases "dropWhile (\<lambda>x. x \<noteq> c) s")
  case Nil
  then have "splitN2 c s = [s]" unfolding splitN2_def Nil by simp
  moreover from Nil have "c \<notin> set s" by (auto dest: dropWhile_eq_Nil_conv [THEN iffD1])
  ultimately show ?thesis using one by blast
next
  case (Cons d r)
  then have d: "d = c" using hd_dropWhile [of "\<lambda>x. x \<noteq> c" s] by simp
  have "s = takeWhile (\<lambda>x. x \<noteq> c) s @ c # r"
    using takeWhile_dropWhile_id [of "\<lambda>x. x \<noteq> c" s] Cons d by simp
  moreover have "c \<notin> set (takeWhile (\<lambda>x. x \<noteq> c) s)" by (auto dest: set_takeWhileD)
  moreover have "splitN2 c s = [takeWhile (\<lambda>x. x \<noteq> c) s, r]"
    using Cons by (simp add: splitN2_def)
  ultimately show ?thesis using two by blast
qed

lemma splitN2_absent: "c \<notin> set s \<Longrightarrow> splitN2 c s = [s]"
  by (rule splitN2_cases [of c s]) auto

lemma splitN2_present [simp]: "c \<notin> set a \<Longrightarrow> splitN2 c (a @ c # b) = [a, b]"
  by (simp add: splitN2_def dropWhile_append takeWhile_append)

lemma splitN2_nonempty [simp]: "splitN2 c s \<noteq> []" "0 < length (splitN2 c s)"
  by (rule splitN2_cases [of c s]; simp)+

lemma splitN2_length: "length (splitN2 c s) \<le> 2"
  by (rule splitN2_cases [of c s]) auto

lemma splitN2_hd_prefix: "has_prefix s (splitN2 c s ! 0)"
  by (rule splitN2_cases [of c s]) auto

text \<open>\<open>strings.Split(s, sep)\<close> for a separator of one byte.\<close>

fun split_all :: "char \<Rightarrow> string \<Rightarrow> string list" where
  "split_all c [] = [[]]"
| "split_all c (x # xs) =
     (if x = c then [] # split_all c xs
      else (case split_all c xs of [] \<Rightarrow> [[x]] | w # ws \<Rightarrow> (x # w) # ws))"

lemma split_all_nonempty [simp]: "split_all c s \<noteq> []"
  by (induction s) (auto split: list.splits)

lemma split_all_absent: "c \<notin> set s \<Longrightarrow> split_all c s = [s]"
  by (induction s) auto

lemma split_all_parts: "w \<in> set (split_all c s) \<Longrightarrow> c \<notin> set w"
  by (induction s arbitrary: w) (fastforce split: list.splits if_splits)+

fun join :: "string \<Rightarrow> string list \<Rightarrow> string" where
  "join sep [] = []"
| "join sep [w] = w"
| "join sep (w # ws) = w @ sep @ join sep ws"

lemma join_split_all: "join [c] (split_all c s) = s"
proof (induction s)
  case (Cons x xs)
  obtain w ws where *: "split_all c xs = w # ws" by (cases "split_all c xs") auto
  show ?case using Cons.IH * by (cases ws) auto
qed simp

text \<open>\<open>strings.Replace(s, old, new, 1)\<close> for a non-empty \<open>old\<close>.\<close>

fun replace1 :: "string \<Rightarrow> string \<Rightarrow> string \<Rightarrow> string" where
  "replace1 old new [] = []"
| "replace1 old new (c # cs) =
     (if has_prefix (c # cs) old then new @ drop (length old) (c # cs)
      else c # replace1 old new cs)"

lemma replace1_prefix: "old \<noteq> [] \<Longrightarrow> replace1 old new (old @ t) = new @ t"
  using has_prefix_append [of old t] by (cases old) auto

section \<open>White space: packages unicode, strings and bufio\<close>

text \<open>
  \<open>unicode.IsSpace\<close> on the UTF-8 encoding: \<open>space_len s\<close> is the number of bytes of the white
  space character at the head of \<open>s\<close>, 0 when there is none. The lead byte of a character is never a
  continuation byte, so stepping byte by byte finds the same spaces as decoding rune by rune.
\<close>

definition ascii_spaces :: string where
  "ascii_spaces = [CHR 0x09, CHR 0x0A, CHR 0x0B, CHR 0x0C, CHR 0x0D, CHR 0x20]"

definition wide_spaces :: "string list" where
  "wide_spaces =
     [[CHR 0xC2, CHR 0x85], [CHR 0xC2, CHR 0xA0], [CHR 0xE1, CHR 0x9A, CHR 0x80],
      [CHR 0xE2, CHR 0x80, CHR 0x80], [CHR 0xE2, CHR 0x80, CHR 0x81],
      [CHR 0xE2, CHR 0x80, CHR 0x82], [CHR 0xE2, CHR 0x80, CHR 0x83],
      [CHR 0xE2, CHR 0x80, CHR 0x84], [CHR 0xE2, CHR 0x80, CHR 0x85],
      [CHR 0xE2, CHR 0x80, CHR 0x86], [CHR 0xE2, CHR 0x80, CHR 0x87],
      [CHR 0xE2, CHR 0x80, CHR 0x88], [CHR 0xE2, CHR 0x80, CHR 0x89],
      [CHR 0xE2, CHR 0x80, CHR 0x8A], [CHR 0xE2, CHR 0x80, CHR 0xA8],
      [CHR 0xE2, CHR 0x80, CHR 0xA9], [CHR 0xE2, CHR 0x80, CHR 0xAF],
      [CHR 0xE2, CHR 0x81, CHR 0x9F], [CHR 0xE3, CHR 0x80, CHR 0x80]]"

fun space_len :: "string \<Rightarrow> nat" where
  "space_len [] = 0"
| "space_len (c # cs) =
     (if List.member ascii_spaces c then 1
      else (case List.find (\<lambda>w. has_prefix (c # cs) w) wide_spaces of
              None \<Rightarrow> 0 | Some w \<Rightarrow> length w))"

text \<open>\<open>strings.TrimSpace\<close>: leading spaces, then trailing ones (the head of the reversed string,
  with the encodings reversed).\<close>

fun trim_left :: "string \<Rightarrow> string" where
  "trim_left [] = []"
| "trim_left (c # cs) =
     (case space_len (c # cs) of 0 \<Rightarrow> c # cs | Suc k \<Rightarrow> trim_left (drop k cs))"

fun rspace_len :: "string \<Rightarrow> nat" where
  "rspace_len [] = 0"
| "rspace_len (c # cs) =
     (if List.member ascii_spaces c then 1
      else (case List.find (\<lambda>w. has_prefix (c # cs) (rev w)) wide_spaces of
              None \<Rightarrow> 0 | Some w \<Rightarrow> length w))"

fun rtrim_left :: "string \<Rightarrow> string" where
  "rtrim_left [] = []"
| "rtrim_left (c # cs) =
     (case rspace_len (c # cs) of 0 \<Rightarrow> c # cs | Suc k \<Rightarrow> rtrim_left (drop k cs))"

definition trim_space :: "string \<Rightarrow> string" where
  "trim_space s = rev (rtrim_left (rev (trim_left s)))"

text \<open>\<open>bufio.ScanWords\<close>: the words between runs of white space. The first argument is the word
  read so far, reversed. The scanner's limit of 64 KiB for one word is not modelled.\<close>

function scan_words :: "string \<Rightarrow> string \<Rightarrow> string list" where
  "scan_words acc [] = (if acc = [] then [] else [rev acc])"
| "scan_words acc (c # cs) =
     (case space_len (c # cs) of
        0 \<Rightarrow> scan_words (c # acc) cs
      | Suc k \<Rightarrow> (if acc = [] then [] else [rev acc]) @ scan_words [] (drop k cs))"
  by pat_completeness auto
termination
  by (relation "measure (\<lambda>(acc, s). length s)") auto

lemma scan_words_nonempty: "w \<in> set (scan_words acc s) \<Longrightarrow> w \<noteq> []"
  by (induction acc s rule: scan_words.induct) (auto split: nat.splits if_splits)

text \<open>\<open>bytes.Trim(s, cutset)\<close> for a cutset of one byte.\<close>

definition trim_byte :: "char \<Rightarrow> string \<Rightarrow> string" where
  "trim_byte c s = rev (dropWhile (\<lambda>x. x = c) (rev (dropWhile (\<lambda>x. x = c) s)))"

lemma trim_byte_quoted:
  assumes "c \<notin> set s"
  shows "trim_byte c (c # s @ [c]) = s"
proof (cases "s = []")
  case False
  have keep: "dropWhile (\<lambda>x. x = c) xs = xs" if "c \<notin> set xs" for xs
    using that by (cases xs) auto
  have "dropWhile (\<lambda>x. x = c) (s @ [c]) = s @ [c]"
    using False assms by (cases s) auto
  with assms show ?thesis by (simp add: trim_byte_def keep)
qed (simp add: trim_byte_def)

lemma length_trim_byte: "length (trim_byte c s) \<le> length s"
  unfolding trim_byte_def
  by (metis length_dropWhile_le length_rev le_trans)

section \<open>Letters and hexadecimal digits\<close>

definition byte_of :: "char \<Rightarrow> nat" where
  "byte_of c = of_char c"

definition to_upper :: "char \<Rightarrow> char" where
  "to_upper c = (if 97 \<le> byte_of c \<and> byte_of c \<le> 122 then char_of (byte_of c - 32) else c)"

definition to_lower :: "char \<Rightarrow> char" where
  "to_lower c = (if 65 \<le> byte_of c \<and> byte_of c \<le> 90 then char_of (byte_of c + 32) else c)"

definition hex_val :: "char \<Rightarrow> nat option" where
  "hex_val c =
     (let b = byte_of c in
      if 48 \<le> b \<and> b \<le> 57 then Some (b - 48)
      else if 97 \<le> b \<and> b \<le> 102 then Some (b - 87)
      else if 65 \<le> b \<and> b \<le> 70 then Some (b - 55)
      else None)"

lemma byte_of_lt [simp]: "byte_of c < 256"
  by (simp add: byte_of_def)

lemma char_of_byte_of [simp]: "char_of (byte_of c) = c"
  by (simp add: byte_of_def)

lemma byte_of_char_of: "n < 256 \<Longrightarrow> byte_of (char_of n) = n"
  by (simp add: byte_of_def)

lemma byte_of_inject [simp]: "byte_of c = byte_of d \<longleftrightarrow> c = d"
proof
  assume "byte_of c = byte_of d"
  then have "(char_of (byte_of c) :: char) = char_of (byte_of d)" by (rule arg_cong)
  then show "c = d" by (simp only: char_of_byte_of)
qed (rule arg_cong)

section \<open>Lists and maps\<close>

lemma map_of_filter_neq: "map_of (filter (\<lambda>kv. fst kv \<noteq> k) m) k' = (if k' = k then None else map_of m k')"
  by (induction m) auto

lemma length_le_1_if_pairwise_eq:
  assumes "distinct xs" and "\<And>x y. x \<in> set xs \<Longrightarrow> y \<in> set xs \<Longrightarrow> x = y"
  shows "length xs \<le> 1"
proof (cases xs)
  case (Cons a as)
  have "as = []"
  proof (cases as)
    case (Cons b bs)
    with \<open>xs = a # as\<close> have "a = b" using assms(2) [of a b] by fastforce
    with \<open>xs = a # as\<close> Cons assms(1) show ?thesis by simp
  qed
  with Cons show ?thesis by simp
qed simp

end
