(* ===== verification/Json.thy ===== *)
theory Json
  imports Prelude
begin

text \<open>
  What the program uses of \<open>encoding/json\<close> (Go 1.14): the syntax the scanner accepts, compact and
  indented output, quoting and unquoting of strings, and access to the source text of the parts of a
  value, which is what \<open>json.RawMessage\<close> keeps. A value's strings and numbers are held as they are
  written (\<open>JStr\<close> holds the bytes between the quotes), so printing a parsed value loses nothing
  but white space. The nesting limit of later Go versions is not modelled.
\<close>

section \<open>UTF-8 (unicode/utf8)\<close>

definition is_cont :: "char \<Rightarrow> bool" where
  "is_cont c \<longleftrightarrow> 128 \<le> byte_of c \<and> byte_of c \<le> 191"

text \<open>The length of the valid encoding at the head, 0 when there is none (\<open>utf8.DecodeRune\<close>
  returning \<open>RuneError\<close>).\<close>

fun utf8_len :: "string \<Rightarrow> nat" where
  "utf8_len [] = 0"
| "utf8_len (c # cs) =
     (let b = byte_of c in
      if b < 128 then 1
      else if 194 \<le> b \<and> b \<le> 223 then
        (case cs of x # _ \<Rightarrow> if is_cont x then 2 else 0 | _ \<Rightarrow> 0)
      else if 224 \<le> b \<and> b \<le> 239 then
        (case cs of
           x # y # _ \<Rightarrow>
             if is_cont x \<and> (b = 224 \<longrightarrow> 160 \<le> byte_of x) \<and> (b = 237 \<longrightarrow> byte_of x \<le> 159) \<and> is_cont y
             then 3 else 0
         | _ \<Rightarrow> 0)
      else if 240 \<le> b \<and> b \<le> 244 then
        (case cs of
           x # y # z # _ \<Rightarrow>
             if is_cont x \<and> (b = 240 \<longrightarrow> 144 \<le> byte_of x) \<and> (b = 244 \<longrightarrow> byte_of x \<le> 143)
               \<and> is_cont y \<and> is_cont z
             then 4 else 0
         | _ \<Rightarrow> 0)
      else 0)"

function utf8_valid :: "string \<Rightarrow> bool" where
  "utf8_valid [] = True"
| "utf8_valid (c # cs) =
     (case utf8_len (c # cs) of 0 \<Rightarrow> False | Suc k \<Rightarrow> utf8_valid (drop k cs))"
  by pat_completeness auto
termination by (relation "measure length") auto

definition replacement :: string where
  "replacement = [CHR 0xEF, CHR 0xBF, CHR 0xBD]"

text \<open>\<open>utf8.EncodeRune\<close>.\<close>

definition encode_rune :: "nat \<Rightarrow> string" where
  "encode_rune r =
     (if r < 128 then [char_of r]
      else if r < 2048 then [char_of (192 + r div 64), char_of (128 + r mod 64)]
      else if 55296 \<le> r \<and> r < 57344 \<or> 1114111 < r then replacement
      else if r < 65536 then
        [char_of (224 + r div 4096), char_of (128 + r div 64 mod 64), char_of (128 + r mod 64)]
      else
        [char_of (240 + r div 262144), char_of (128 + r div 4096 mod 64),
         char_of (128 + r div 64 mod 64), char_of (128 + r mod 64)])"

section \<open>Strings\<close>

abbreviation quot :: char where "quot \<equiv> CHR 0x22"
abbreviation bslash :: char where "bslash \<equiv> CHR 0x5C"

definition hex_digit :: "nat \<Rightarrow> char" where
  "hex_digit n = ''0123456789abcdef'' ! n"

definition unicode_escape :: "char \<Rightarrow> string" where
  "unicode_escape c =
     [bslash, CHR ''u'', CHR ''0'', CHR ''0'', hex_digit (byte_of c div 16), hex_digit (byte_of c mod 16)]"

definition escape_byte :: "char \<Rightarrow> string" where
  "escape_byte c =
     (if c = quot \<or> c = bslash then [bslash, c]
      else if c = CHR 0x0A then [bslash, CHR ''n'']
      else if c = CHR 0x0D then [bslash, CHR ''r'']
      else if c = CHR 0x09 then [bslash, CHR ''t'']
      else if byte_of c < 32 \<or> c = CHR ''<'' \<or> c = CHR ''>'' \<or> c = CHR ''&'' then unicode_escape c
      else [c])"

definition line_separators :: "(string \<times> string) list" where
  "line_separators =
     [([CHR 0xE2, CHR 0x80, CHR 0xA8], bslash # ''u2028''),
      ([CHR 0xE2, CHR 0x80, CHR 0xA9], bslash # ''u2029'')]"

definition escape_rune :: "string \<Rightarrow> string" where
  "escape_rune r =
     (case r of
        [c] \<Rightarrow> escape_byte c
      | _ \<Rightarrow> (case map_of line_separators r of Some e \<Rightarrow> e | None \<Rightarrow> r))"

text \<open>\<open>encodeState.string\<close> with HTML escaping, the bytes between the quotes.\<close>

function quote_body :: "string \<Rightarrow> string" where
  "quote_body [] = []"
| "quote_body (c # cs) =
     (case utf8_len (c # cs) of
        0 \<Rightarrow> bslash # ''ufffd'' @ quote_body cs
      | Suc k \<Rightarrow> escape_rune (take (Suc k) (c # cs)) @ quote_body (drop k cs))"
  by pat_completeness auto
termination by (relation "measure length") auto

definition hex4 :: "string \<Rightarrow> nat option" where
  "hex4 s =
     (case s of
        a # b # c # d # _ \<Rightarrow>
          (case (hex_val a, hex_val b, hex_val c, hex_val d) of
             (Some w, Some x, Some y, Some z) \<Rightarrow> Some (((w * 16 + x) * 16 + y) * 16 + z)
           | _ \<Rightarrow> None)
      | _ \<Rightarrow> None)"

definition simple_escape :: "char \<Rightarrow> char option" where
  "simple_escape c =
     map_of [(quot, quot), (bslash, bslash), (CHR ''/'', CHR ''/''), (CHR ''b'', CHR 0x08),
             (CHR ''f'', CHR 0x0C), (CHR ''n'', CHR 0x0A), (CHR ''r'', CHR 0x0D),
             (CHR ''t'', CHR 0x09)] c"

definition is_surrogate :: "nat \<Rightarrow> bool" where
  "is_surrogate r \<longleftrightarrow> 55296 \<le> r \<and> r < 57344"

definition surrogate_pair :: "nat \<Rightarrow> string \<Rightarrow> nat option" where
  "surrogate_pair r s =
     (if has_prefix s [bslash, CHR ''u''] then
        (case hex4 (drop 2 s) of
           Some r2 \<Rightarrow>
             (if r < 56320 \<and> 56320 \<le> r2 \<and> r2 < 57344
              then Some ((r - 55296) * 1024 + (r2 - 56320) + 65536) else None)
         | None \<Rightarrow> None)
      else None)"

text \<open>\<open>unquoteBytes\<close> on the bytes between the quotes.\<close>

function unquote_body :: "string \<Rightarrow> string option" where
  "unquote_body [] = Some []"
| "unquote_body (c # cs) =
     (if c = bslash then
        (case cs of
           [] \<Rightarrow> None
         | d # ds \<Rightarrow>
             (if d = CHR ''u'' then
                (case hex4 ds of
                   None \<Rightarrow> None
                 | Some r \<Rightarrow>
                     (if is_surrogate r then
                        (case surrogate_pair r (drop 4 ds) of
                           Some r' \<Rightarrow> map_option (append (encode_rune r')) (unquote_body (drop 10 ds))
                         | None \<Rightarrow> map_option (append replacement) (unquote_body (drop 4 ds)))
                      else map_option (append (encode_rune r)) (unquote_body (drop 4 ds))))
              else
                (case simple_escape d of
                   None \<Rightarrow> None
                 | Some e \<Rightarrow> map_option (Cons e) (unquote_body ds))))
      else if c = quot \<or> byte_of c < 32 then None
      else
        (case utf8_len (c # cs) of
           0 \<Rightarrow> map_option (append replacement) (unquote_body cs)
         | Suc k \<Rightarrow> map_option (append (take (Suc k) (c # cs))) (unquote_body (drop k cs))))"
  by pat_completeness auto
termination by (relation "measure length") auto

section \<open>Syntax\<close>

datatype jval =
    JNull
  | JBool bool
  | JNum string
  | JStr string
  | JArr "jval list"
  | JObj "(string \<times> jval) list"

definition is_ws :: "char \<Rightarrow> bool" where
  "is_ws c \<longleftrightarrow> c = CHR '' '' \<or> c = CHR 0x09 \<or> c = CHR 0x0A \<or> c = CHR 0x0D"

definition skip_ws :: "string \<Rightarrow> string" where
  "skip_ws = dropWhile is_ws"

definition is_digit :: "char \<Rightarrow> bool" where
  "is_digit c \<longleftrightarrow> 48 \<le> byte_of c \<and> byte_of c \<le> 57"

text \<open>The rest of a string after its opening quote: the bytes up to the closing one, and what
  follows it.\<close>

function scan_str :: "string \<Rightarrow> (string \<times> string) option" where
  "scan_str [] = None"
| "scan_str (c # cs) =
     (if c = quot then Some ([], cs)
      else if c = bslash then
        (case cs of
           [] \<Rightarrow> None
         | d # ds \<Rightarrow>
             (if d = CHR ''u'' then
                (if hex4 ds = None then None
                 else map_option (map_prod (\<lambda>r. c # d # take 4 ds @ r) id) (scan_str (drop 4 ds)))
              else if simple_escape d = None then None
              else map_option (map_prod (\<lambda>r. c # d # r) id) (scan_str ds)))
      else if byte_of c < 32 then None
      else map_option (map_prod (Cons c) id) (scan_str cs))"
  by pat_completeness auto
termination by (relation "measure length") auto

definition scan_int :: "string \<Rightarrow> (string \<times> string) option" where
  "scan_int s =
     (case s of
        [] \<Rightarrow> None
      | c # r \<Rightarrow>
          (if c = CHR ''0'' then Some ([c], r)
           else if is_digit c then Some (c # takeWhile is_digit r, dropWhile is_digit r)
           else None))"

definition scan_digits1 :: "string \<Rightarrow> (string \<times> string) option" where
  "scan_digits1 s =
     (if takeWhile is_digit s = [] then None else Some (takeWhile is_digit s, dropWhile is_digit s))"

definition scan_frac :: "string \<Rightarrow> (string \<times> string) option" where
  "scan_frac s =
     (case s of
        c # r \<Rightarrow>
          (if c = CHR ''.'' then map_option (map_prod (Cons c) id) (scan_digits1 r) else Some ([], s))
      | [] \<Rightarrow> Some ([], s))"

definition scan_exp :: "string \<Rightarrow> (string \<times> string) option" where
  "scan_exp s =
     (case s of
        c # r \<Rightarrow>
          (if c = CHR ''e'' \<or> c = CHR ''E'' then
             (case r of
                d # r' \<Rightarrow>
                  (if d = CHR ''+'' \<or> d = CHR ''-''
                   then map_option (map_prod (\<lambda>t. c # d # t) id) (scan_digits1 r')
                   else map_option (map_prod (Cons c) id) (scan_digits1 r))
              | [] \<Rightarrow> None)
           else Some ([], s))
      | [] \<Rightarrow> Some ([], s))"

definition scan_unsigned :: "string \<Rightarrow> (string \<times> string) option" where
  "scan_unsigned s =
     (case scan_int s of
        None \<Rightarrow> None
      | Some (i, s2) \<Rightarrow>
          (case scan_frac s2 of
             None \<Rightarrow> None
           | Some (f, s3) \<Rightarrow>
               (case scan_exp s3 of
                  None \<Rightarrow> None
                | Some (e, s4) \<Rightarrow> Some (i @ f @ e, s4))))"

definition scan_num :: "string \<Rightarrow> (string \<times> string) option" where
  "scan_num s =
     (case s of
        c # r \<Rightarrow>
          (if c = CHR ''-'' then map_option (map_prod (Cons c) id) (scan_unsigned r)
           else scan_unsigned s)
      | [] \<Rightarrow> None)"

definition scan_scalar :: "string \<Rightarrow> (jval \<times> string) option" where
  "scan_scalar s =
     (if has_prefix s ''null'' then Some (JNull, drop 4 s)
      else if has_prefix s ''true'' then Some (JBool True, drop 4 s)
      else if has_prefix s ''false'' then Some (JBool False, drop 5 s)
      else map_option (map_prod JNum id) (scan_num s))"

text \<open>
  The value at the head of the input, and what follows it. \<open>parse_elems\<close> and \<open>parse_members\<close> read
  the rest of a non-empty array or object. Every call spends one unit of fuel; twice the length of
  the input is enough (\<open>parse_fuel_enough\<close>).
\<close>

fun parse_val :: "nat \<Rightarrow> string \<Rightarrow> (jval \<times> string) option"
  and parse_elems :: "nat \<Rightarrow> string \<Rightarrow> (jval list \<times> string) option"
  and parse_members :: "nat \<Rightarrow> string \<Rightarrow> ((string \<times> jval) list \<times> string) option"
where
  "parse_val 0 s = None"
| "parse_val (Suc n) s =
     (case skip_ws s of
        [] \<Rightarrow> None
      | c # cs \<Rightarrow>
          (if c = CHR ''['' then
             (case skip_ws cs of
                [] \<Rightarrow> None
              | d # ds \<Rightarrow>
                  (if d = CHR '']'' then Some (JArr [], ds)
                   else map_option (map_prod JArr id) (parse_elems n cs)))
           else if c = CHR ''{'' then
             (case skip_ws cs of
                [] \<Rightarrow> None
              | d # ds \<Rightarrow>
                  (if d = CHR ''}'' then Some (JObj [], ds)
                   else map_option (map_prod JObj id) (parse_members n cs)))
           else if c = quot then map_option (map_prod JStr id) (scan_str cs)
           else scan_scalar (c # cs)))"
| "parse_elems 0 s = None"
| "parse_elems (Suc n) s =
     (case parse_val n s of
        None \<Rightarrow> None
      | Some (v, r) \<Rightarrow>
          (case skip_ws r of
             [] \<Rightarrow> None
           | c # cs \<Rightarrow>
               (if c = CHR '']'' then Some ([v], cs)
                else if c = CHR '','' then map_option (map_prod (Cons v) id) (parse_elems n cs)
                else None)))"
| "parse_members 0 s = None"
| "parse_members (Suc n) s =
     (case skip_ws s of
        [] \<Rightarrow> None
      | q # ks \<Rightarrow>
          (if q \<noteq> quot then None
           else
             (case scan_str ks of
                None \<Rightarrow> None
              | Some (k, r1) \<Rightarrow>
                  (case skip_ws r1 of
                     [] \<Rightarrow> None
                   | d # r2 \<Rightarrow>
                       (if d \<noteq> CHR '':'' then None
                        else
                          (case parse_val n r2 of
                             None \<Rightarrow> None
                           | Some (v, r3) \<Rightarrow>
                               (case skip_ws r3 of
                                  [] \<Rightarrow> None
                                | c # cs \<Rightarrow>
                                    (if c = CHR ''}'' then Some ([(k, v)], cs)
                                     else if c = CHR '','' then
                                       map_option (map_prod (Cons (k, v)) id) (parse_members n cs)
                                     else None))))))))"

definition parse_fuel :: "string \<Rightarrow> nat" where
  "parse_fuel s = 2 * length s + 2"

text \<open>The first value of a stream (\<open>Decoder.Decode\<close>), and a text that holds one value and nothing
  else but white space (\<open>checkValid\<close>, the first step of \<open>Unmarshal\<close>).\<close>

definition json_first :: "string \<Rightarrow> (jval \<times> string) option" where
  "json_first s = parse_val (parse_fuel s) s"

definition json_parse :: "string \<Rightarrow> jval option" where
  "json_parse s =
     (case json_first s of
        Some (v, r) \<Rightarrow> (if skip_ws r = [] then Some v else None)
      | None \<Rightarrow> None)"

section \<open>Output\<close>

definition html_escape :: "char \<Rightarrow> string" where
  "html_escape c = (if c = CHR ''<'' \<or> c = CHR ''>'' \<or> c = CHR ''&'' then unicode_escape c else [c])"

text \<open>\<open>compact\<close> with HTML escaping, on the bytes of one string.\<close>

fun html_escape_raw :: "string \<Rightarrow> string" where
  "html_escape_raw [] = []"
| "html_escape_raw (c # cs) =
     (case map_of line_separators (c # take 2 cs) of
        Some e \<Rightarrow> e @ html_escape_raw (drop 2 cs)
      | None \<Rightarrow> html_escape c @ html_escape_raw cs)"

fun html_escape_val :: "jval \<Rightarrow> jval" where
  "html_escape_val (JStr s) = JStr (html_escape_raw s)"
| "html_escape_val (JArr vs) = JArr (map html_escape_val vs)"
| "html_escape_val (JObj ms) = JObj (map (\<lambda>(k, v). (html_escape_raw k, html_escape_val v)) ms)"
| "html_escape_val v = v"

definition newline :: "nat \<Rightarrow> string" where
  "newline d = CHR 0x0A # replicate (2 * d) (CHR '' '')"

text \<open>\<open>json.Indent\<close> with an empty prefix and an indent of two spaces, for a value at depth \<open>d\<close>.\<close>

fun json_indent :: "nat \<Rightarrow> jval \<Rightarrow> string" where
  "json_indent d JNull = ''null''"
| "json_indent d (JBool b) = (if b then ''true'' else ''false'')"
| "json_indent d (JNum t) = t"
| "json_indent d (JStr s) = quot # s @ [quot]"
| "json_indent d (JArr vs) =
     (if vs = [] then ''[]''
      else ''['' @ newline (Suc d)
           @ join (CHR '','' # newline (Suc d)) (map (json_indent (Suc d)) vs)
           @ newline d @ '']'')"
| "json_indent d (JObj ms) =
     (if ms = [] then ''{}''
      else ''{'' @ newline (Suc d)
           @ join (CHR '','' # newline (Suc d))
               (map (\<lambda>(k, v). quot # k @ [quot] @ '': '' @ json_indent (Suc d) v) ms)
           @ newline d @ ''}'')"

text \<open>\<open>Marshal\<close> of a \<open>json.RawMessage\<close>: \<open>null\<close> when nil, an error unless it is one JSON value.\<close>

definition marshal_raw :: "string option \<Rightarrow> jval option" where
  "marshal_raw m =
     (case m of None \<Rightarrow> Some JNull | Some raw \<Rightarrow> map_option html_escape_val (json_parse raw))"

definition marshal_str :: "string \<Rightarrow> jval" where
  "marshal_str s = JStr (quote_body s)"

definition marshal_indent :: "jval \<Rightarrow> string" where
  "marshal_indent v = json_indent 0 v"

section \<open>The parts of a value as text\<close>

text \<open>The value at the head together with its source text, as \<open>json.RawMessage\<close> receives it.\<close>

definition raw_first :: "string \<Rightarrow> (string \<times> jval \<times> string) option" where
  "raw_first s =
     (let s' = skip_ws s in
      case json_first s' of
        None \<Rightarrow> None
      | Some (v, r) \<Rightarrow> Some (take (length s' - length r) s', v, r))"

fun raw_elems :: "nat \<Rightarrow> string \<Rightarrow> (string \<times> jval) list" where
  "raw_elems 0 s = []"
| "raw_elems (Suc n) s =
     (case raw_first s of
        None \<Rightarrow> []
      | Some (t, v, r) \<Rightarrow>
          (t, v) # (case skip_ws r of
                      c # cs \<Rightarrow> (if c = CHR '','' then raw_elems n cs else [])
                    | [] \<Rightarrow> []))"

definition array_elems :: "string \<Rightarrow> (string \<times> jval) list" where
  "array_elems s =
     (case skip_ws s of
        c # cs \<Rightarrow>
          (case skip_ws cs of
             d # ds \<Rightarrow> (if d = CHR '']'' then [] else raw_elems (length cs) cs)
           | [] \<Rightarrow> [])
      | [] \<Rightarrow> [])"

fun raw_members :: "nat \<Rightarrow> string \<Rightarrow> (string \<times> string \<times> jval) list" where
  "raw_members 0 s = []"
| "raw_members (Suc n) s =
     (case skip_ws s of
        q # ks \<Rightarrow>
          (case scan_str ks of
             None \<Rightarrow> []
           | Some (k, r1) \<Rightarrow>
               (case raw_first (drop 1 (skip_ws r1)) of
                  None \<Rightarrow> []
                | Some (t, v, r) \<Rightarrow>
                    (k, t, v) # (case skip_ws r of
                                   c # cs \<Rightarrow> (if c = CHR '','' then raw_members n cs else [])
                                 | [] \<Rightarrow> [])))
      | [] \<Rightarrow> [])"

definition object_members :: "string \<Rightarrow> (string \<times> string \<times> jval) list" where
  "object_members s =
     (case skip_ws s of
        c # cs \<Rightarrow>
          (case skip_ws cs of
             d # ds \<Rightarrow> (if d = CHR ''}'' then [] else raw_members (length cs) cs)
           | [] \<Rightarrow> [])
      | [] \<Rightarrow> [])"

text \<open>A member's name and a struct field's name match up to case folding (\<open>bytes.EqualFold\<close> for
  the names the program uses: ASCII letters, the long s and the Kelvin sign).\<close>

fun fold_key :: "string \<Rightarrow> string" where
  "fold_key [] = []"
| "fold_key (c # cs) =
     (if has_prefix (c # cs) [CHR 0xC5, CHR 0xBF] then CHR ''s'' # fold_key (drop 1 cs)
      else if has_prefix (c # cs) [CHR 0xE2, CHR 0x84, CHR 0xAA] then CHR ''k'' # fold_key (drop 2 cs)
      else to_lower c # fold_key cs)"

definition unquoted :: "string \<Rightarrow> string" where
  "unquoted raw = (case unquote_body raw of Some s \<Rightarrow> s | None \<Rightarrow> [])"

definition field_matches :: "string \<Rightarrow> string \<Rightarrow> bool" where
  "field_matches name rawkey \<longleftrightarrow> fold_key (unquoted rawkey) = fold_key name"

end
