(* ===== verification/Json_Facts.thy ===== *)
theory Json_Facts
  imports Json
begin

text \<open>
  Facts about the JSON model: the parser consumes input and its fuel is enough; what \<open>json.Indent\<close>
  prints parses back to the same value; quoting a string gives a well-formed JSON string that
  unquotes to it.
\<close>

section \<open>Consumption\<close>

lemma skip_ws_simps [simp]:
  "skip_ws [] = []"
  "is_ws c \<Longrightarrow> skip_ws (c # s) = skip_ws s"
  "\<not> is_ws c \<Longrightarrow> skip_ws (c # s) = c # s"
  by (simp_all add: skip_ws_def)

lemma length_skip_ws: "length (skip_ws s) \<le> length s"
  by (simp add: skip_ws_def length_dropWhile_le)

lemma skip_ws_Cons_length: "skip_ws s = c # cs \<Longrightarrow> length cs < length s"
  using length_skip_ws [of s] by simp

lemma skip_ws_idem [simp]: "skip_ws (skip_ws s) = skip_ws s"
  by (simp add: skip_ws_def)

lemma scan_str_split:
  "scan_str s = Some (raw, r) \<Longrightarrow> s = raw @ quot # r"
proof (induction s arbitrary: raw r rule: scan_str.induct)
  case (2 c cs)
  show ?case
  proof (cases "c = bslash")
    case True
    with "2.prems" obtain d ds where cs: "cs = d # ds" by (cases cs) auto
    show ?thesis
    proof (cases "d = CHR ''u''")
      case u: True
      with True cs "2.prems" obtain r0 where "scan_str (drop 4 ds) = Some (r0, r)" "raw = c # d # take 4 ds @ r0"
        by (auto split: if_splits)
      with "2.IH"(1) [of d ds] True cs u "2.prems" show ?thesis
        by (auto split: if_splits) (metis append_assoc append_take_drop_id)
    next
      case False
      with True cs "2.prems" "2.IH"(2) [of d ds] show ?thesis by (auto split: if_splits)
    qed
  next
    case False
    with "2.prems" "2.IH"(3) show ?thesis by (auto split: if_splits)
  qed
qed simp

lemma scan_str_length: "scan_str s = Some (raw, r) \<Longrightarrow> length r < length s"
  by (drule scan_str_split) simp

lemma scan_int_length: "scan_int s = Some (i, r) \<Longrightarrow> length r < length s"
  by (auto simp: scan_int_def length_dropWhile_le le_imp_less_Suc split: list.splits if_splits)

lemma scan_digits1_length: "scan_digits1 s = Some (i, r) \<Longrightarrow> length r \<le> length s"
  by (auto simp: scan_digits1_def length_dropWhile_le split: if_splits)

lemma scan_frac_length: "scan_frac s = Some (i, r) \<Longrightarrow> length r \<le> length s"
  by (auto simp: scan_frac_def split: list.splits if_splits dest!: scan_digits1_length)

lemma scan_exp_length: "scan_exp s = Some (i, r) \<Longrightarrow> length r \<le> length s"
  by (auto simp: scan_exp_def split: list.splits if_splits dest!: scan_digits1_length)

lemma scan_unsigned_length: "scan_unsigned s = Some (i, r) \<Longrightarrow> length r < length s"
  by (fastforce simp: scan_unsigned_def split: option.splits
      dest!: scan_int_length scan_frac_length scan_exp_length)

lemma scan_num_length: "scan_num s = Some (i, r) \<Longrightarrow> length r < length s"
  by (fastforce simp: scan_num_def split: list.splits if_splits dest!: scan_unsigned_length)

lemma scan_scalar_length: "scan_scalar s = Some (v, r) \<Longrightarrow> length r < length s"
  by (auto simp: scan_scalar_def has_prefix_def split: if_splits dest!: scan_num_length)

lemma parse_consumes:
  "parse_val n s = Some (v, r) \<Longrightarrow> length r < length s"
  "parse_elems n s = Some (vs, r) \<Longrightarrow> length r < length s"
  "parse_members n s = Some (ms, r) \<Longrightarrow> length r < length s"
proof (induction n s and n s and n s arbitrary: v r and vs r and ms r
    rule: parse_val_parse_elems_parse_members.induct)
  case (2 n s)
  from "2.prems" obtain c cs where s: "skip_ws s = c # cs" by (cases "skip_ws s") auto
  with "2.prems" "2.IH" show ?case
    using skip_ws_Cons_length [OF s]
    by (fastforce split: list.splits if_splits dest!: scan_str_length scan_scalar_length
        skip_ws_Cons_length)
next
  case (4 n s)
  from "4.prems" "4.IH" show ?case
    by (fastforce split: list.splits if_splits option.splits dest!: skip_ws_Cons_length)
next
  case (6 n s)
  from "6.prems" "6.IH" show ?case
    by (fastforce split: list.splits if_splits option.splits dest!: skip_ws_Cons_length scan_str_length)
qed simp_all

section \<open>Fuel\<close>

text \<open>What an object depends on, at the positions where the parser calls itself.\<close>

lemma parse_members_cong:
  assumes "\<And>q ks k r1 r2. skip_ws s = q # ks \<Longrightarrow> q = quot \<Longrightarrow> scan_str ks = Some (k, r1) \<Longrightarrow> skip_ws r1 = CHR '':'' # r2 \<Longrightarrow>
      parse_val n r2 = parse_val m r2 \<and> (\<forall>x r cs. parse_val n r2 = Some (x, r) \<longrightarrow> skip_ws r = CHR '','' # cs \<longrightarrow>
        parse_members n cs = parse_members m cs)"
  shows "parse_members (Suc n) s = parse_members (Suc m) s"
proof (cases "skip_ws s")
  case s: (Cons q ks)
  show ?thesis
  proof (cases "\<exists>k r1 r2. q = quot \<and> scan_str ks = Some (k, r1) \<and> skip_ws r1 = CHR '':'' # r2")
    case True
    then obtain k r1 r2 where k: "q = quot" "scan_str ks = Some (k, r1)" "skip_ws r1 = CHR '':'' # r2" by blast
    then show ?thesis using assms [OF s k] s by (auto split: option.splits list.splits)
  next
    case False
    then show ?thesis using s by (auto split: option.splits list.splits)
  qed
qed simp

lemma parse_fuel_irrelevant:
  "2 * length s < n \<Longrightarrow> 2 * length s < m \<Longrightarrow> parse_val n s = parse_val m s"
  "2 * length s + 1 < n \<Longrightarrow> 2 * length s + 1 < m \<Longrightarrow> parse_elems n s = parse_elems m s"
  "2 * length s + 1 < n \<Longrightarrow> 2 * length s + 1 < m \<Longrightarrow> parse_members n s = parse_members m s"
proof (induction n s and n s and n s arbitrary: m and m and m
    rule: parse_val_parse_elems_parse_members.induct)
  case (2 n s)
  obtain m' where m: "m = Suc m'" using "2.prems" by (cases m) auto
  show ?case
  proof (cases "skip_ws s")
    case (Cons c cs)
    then have "length cs < length s" by (rule skip_ws_Cons_length)
    then have l: "2 * length cs + 1 < n" "2 * length cs + 1 < m'" using "2.prems" m by auto
    have a: "parse_elems n cs = parse_elems m' cs"
      if "c = CHR ''[''" "skip_ws cs = d # ds" "d \<noteq> CHR '']''" for d ds
      by (rule "2.IH"(1) [OF Cons that l])
    have o: "parse_members n cs = parse_members m' cs"
      if "c \<noteq> CHR ''[''" "c = CHR ''{''" "skip_ws cs = d # ds" "d \<noteq> CHR ''}''" for d ds
      by (rule "2.IH"(2) [OF Cons that l])
    show ?thesis unfolding m using Cons 
      by (auto split: list.splits intro: a o intro!: arg_cong [where f = "map_option h" for h])
  qed (simp add: m)
next
  case (4 n s)
  obtain m' where m: "m = Suc m'" using "4.prems" by (cases m) auto
  have v: "parse_val n s = parse_val m' s" 
    by (rule "4.IH"(1)) (use "4.prems" m in simp_all)
  have e: "parse_elems n cs = parse_elems m' cs"
    if "parse_val n s = Some (x, r)" "skip_ws r = CHR '','' # cs" for x r cs
  proof -
    have "length cs < length r" using that(2) by (rule skip_ws_Cons_length)
    moreover have "length r < length s" using that(1) by (rule parse_consumes)
    ultimately show ?thesis
      by (intro "4.IH"(2) [OF that(1) refl that(2)]) (use "4.prems" m in simp_all)
  qed
  show ?case unfolding m using e by (simp add: v [symmetric] split: option.splits list.splits)
next
  case (6 n s)
  obtain m' where m: "m = Suc m'" using "6.prems" by (cases m) auto
  show ?case unfolding m
  proof (rule parse_members_cong, intro conjI allI impI)
    fix q ks k r1 r2
    assume s: "skip_ws s = q # ks" "q = quot" and k: "scan_str ks = Some (k, r1)" and r2: "skip_ws r1 = CHR '':'' # r2"
    have l: "length r2 < length r1" "length r1 < length s"
      using skip_ws_Cons_length [OF r2] scan_str_length [OF k] skip_ws_Cons_length [OF s(1)] by simp_all
    show "parse_val n r2 = parse_val m' r2"
      by (intro "6.IH"(1) [OF s(1) _ k refl r2]) (use s l "6.prems" m in simp_all)
    fix x r cs
    assume x: "parse_val n r2 = Some (x, r)" and r: "skip_ws r = CHR '','' # cs"
    show "parse_members n cs = parse_members m' cs"
      by (intro "6.IH"(2) [OF s(1) _ k refl r2 _ x refl r])
        (use s l parse_consumes(1) [OF x] skip_ws_Cons_length [OF r] "6.prems" m in simp_all)
  qed
qed simp_all

text \<open>The fuel that \<^const>\<open>json_first\<close> takes is enough: no larger amount gives another result.\<close>

lemma parse_fuel_enough: "parse_fuel s \<le> m \<Longrightarrow> parse_val m s = json_first s"
  unfolding json_first_def parse_fuel_def by (rule parse_fuel_irrelevant) auto

lemma json_first_consumes: "json_first s = Some (v, r) \<Longrightarrow> length r < length s"
  unfolding json_first_def by (rule parse_consumes)

section \<open>Well-formed values\<close>

definition wf_str :: "string \<Rightarrow> bool" where
  "wf_str raw \<longleftrightarrow> scan_str (raw @ [quot]) = Some (raw, [])"

definition wf_num :: "string \<Rightarrow> bool" where
  "wf_num t \<longleftrightarrow> scan_num t = Some (t, [])"

fun wf_val :: "jval \<Rightarrow> bool" where
  "wf_val (JNum t) \<longleftrightarrow> wf_num t"
| "wf_val (JStr s) \<longleftrightarrow> wf_str s"
| "wf_val (JArr vs) \<longleftrightarrow> list_all wf_val vs"
| "wf_val (JObj ms) \<longleftrightarrow> list_all (\<lambda>(k, v). wf_str k \<and> wf_val v) ms"
| "wf_val v \<longleftrightarrow> True"

lemma hex4_take: "hex4 ds = Some x \<Longrightarrow> hex4 (take 4 ds @ t) = Some x \<and> length (take 4 ds) = 4"
  by (auto simp: hex4_def split: list.splits option.splits)

lemma scan_str_extend: "scan_str s = Some (raw, r) \<Longrightarrow> scan_str (raw @ quot # t) = Some (raw, t)"
proof (induction s arbitrary: raw r rule: scan_str.induct)
  case (2 c cs)
  show ?case
  proof (cases "c = bslash")
    case True
    with "2.prems" obtain d ds where cs: "cs = d # ds" by (cases cs) auto
    show ?thesis
    proof (cases "d = CHR ''u''")
      case u: True
      with True cs "2.prems" obtain x r0 where x: "hex4 ds = Some x"
        and r0: "scan_str (drop 4 ds) = Some (r0, r)" "raw = c # d # take 4 ds @ r0"
        by (auto split: if_splits)
      have "scan_str (r0 @ quot # t) = Some (r0, t)"
        using "2.IH"(1) [OF _ True cs u] r0 x cs True by simp
      then show ?thesis using hex4_take [OF x, of "r0 @ quot # t"] r0 True u by simp
    next
      case False
      with True cs "2.prems" "2.IH"(2) [of d ds] show ?thesis by (auto split: if_splits)
    qed
  next
    case False
    with "2.prems" "2.IH"(3) show ?thesis by (auto split: if_splits)
  qed
qed simp

lemma wf_str_scan: "wf_str raw \<Longrightarrow> scan_str (raw @ quot # t) = Some (raw, t)"
  unfolding wf_str_def by (rule scan_str_extend)

lemma scan_str_wf: "scan_str s = Some (raw, r) \<Longrightarrow> wf_str raw"
  unfolding wf_str_def by (rule scan_str_extend)

section \<open>Numbers\<close>

definition num_stop :: "string \<Rightarrow> bool" where
  "num_stop r \<longleftrightarrow>
     (case r of [] \<Rightarrow> True
      | c # _ \<Rightarrow> \<not> is_digit c \<and> c \<noteq> CHR ''.'' \<and> c \<noteq> CHR ''e'' \<and> c \<noteq> CHR ''E'')"

lemma num_stop_simps [simp]:
  "num_stop []"
  "num_stop (c # r) \<longleftrightarrow> \<not> is_digit c \<and> c \<noteq> CHR ''.'' \<and> c \<noteq> CHR ''e'' \<and> c \<noteq> CHR ''E''"
  by (simp_all add: num_stop_def)

lemma digits_extend:
  assumes "num_stop r"
  shows "takeWhile is_digit (x @ r) = takeWhile is_digit x"
    "dropWhile is_digit (x @ r) = dropWhile is_digit x @ r"
  using assms by (induction x) (cases r; simp)+

lemma scan_int_extend: "scan_int x = Some (a, b) \<Longrightarrow> num_stop r \<Longrightarrow> scan_int (x @ r) = Some (a, b @ r)"
  by (auto simp: scan_int_def digits_extend split: list.splits if_splits)

lemma scan_digits1_extend:
  "scan_digits1 x = Some (a, b) \<Longrightarrow> num_stop r \<Longrightarrow> scan_digits1 (x @ r) = Some (a, b @ r)"
  by (auto simp: scan_digits1_def digits_extend split: if_splits)

lemma scan_frac_extend:
  "scan_frac x = Some (a, b) \<Longrightarrow> num_stop r \<Longrightarrow> scan_frac (x @ r) = Some (a, b @ r)"
  by (cases x; cases r) (auto simp: scan_frac_def scan_digits1_extend split: if_splits)

lemma scan_exp_extend:
  assumes "scan_exp x = Some (a, b)" and "num_stop r"
  shows "scan_exp (x @ r) = Some (a, b @ r)"
proof (cases x)
  case Nil
  with assms show ?thesis by (cases r) (auto simp: scan_exp_def)
next
  case (Cons c y)
  show ?thesis
  proof (cases "c = CHR ''e'' \<or> c = CHR ''E''")
    case e: True
    with Cons assms(1) obtain d z where y: "y = d # z" by (cases y) (auto simp: scan_exp_def)
    show ?thesis
    proof (cases "d = CHR ''+'' \<or> d = CHR ''-''")
      case True
      with assms(1) Cons e y obtain u where "scan_digits1 z = Some (u, b)" "a = c # d # u"
        by (auto simp: scan_exp_def)
      with True Cons e y scan_digits1_extend [OF _ assms(2)] show ?thesis
        by (auto simp: scan_exp_def)
    next
      case False
      with assms(1) Cons e y obtain u where "scan_digits1 y = Some (u, b)" "a = c # u"
        by (auto simp: scan_exp_def)
      with False Cons e y scan_digits1_extend [OF _ assms(2), of y] show ?thesis
        by (auto simp: scan_exp_def)
    qed
  next
    case False
    with assms(1) Cons show ?thesis by (auto simp: scan_exp_def)
  qed
qed

lemma scan_unsigned_extend:
  assumes "scan_unsigned x = Some (a, b)" and "num_stop r"
  shows "scan_unsigned (x @ r) = Some (a, b @ r)"
proof -
  obtain i s2 f s3 e where "scan_int x = Some (i, s2)" "scan_frac s2 = Some (f, s3)"
    "scan_exp s3 = Some (e, b)" "a = i @ f @ e"
    using assms(1) by (auto simp: scan_unsigned_def split: option.splits)
  then show ?thesis
    using assms(2) by (simp add: scan_unsigned_def scan_int_extend scan_frac_extend scan_exp_extend)
qed

lemma scan_num_extend:
  assumes "scan_num x = Some (a, b)" and "num_stop r"
  shows "scan_num (x @ r) = Some (a, b @ r)"
  using assms scan_unsigned_extend [of x _ _ r]
  by (cases x) (auto simp: scan_num_def scan_unsigned_extend split: if_splits)

lemma wf_num_scan: "wf_num t \<Longrightarrow> num_stop r \<Longrightarrow> scan_num (t @ r) = Some (t, r)"
  unfolding wf_num_def by (drule scan_num_extend) auto

lemma scan_unsigned_head: "scan_unsigned (c # t) = Some x \<Longrightarrow> is_digit c"
  by (auto simp: scan_unsigned_def scan_int_def is_digit_def byte_of_def split: option.splits if_splits)

lemma wf_num_head:
  assumes "wf_num t"
  obtains c t' where "t = c # t'" "is_digit c \<or> c = CHR ''-''"
  using assms
  by (cases t) (auto simp: wf_num_def scan_num_def split: if_splits dest: scan_unsigned_head)

lemma number_heads:
  "is_digit c \<or> c = CHR ''-'' \<Longrightarrow>
     \<not> is_ws c \<and> c \<noteq> CHR ''['' \<and> c \<noteq> CHR ''{'' \<and> c \<noteq> quot \<and> c \<noteq> CHR ''n'' \<and> c \<noteq> CHR ''t'' \<and> c \<noteq> CHR ''f''
     \<and> c \<noteq> CHR '']'' \<and> c \<noteq> CHR ''}''"
  by (auto simp: is_digit_def is_ws_def byte_of_def)

section \<open>Parsing with enough fuel\<close>

definition parses :: "string \<Rightarrow> jval \<Rightarrow> string \<Rightarrow> bool" where
  "parses s v r \<longleftrightarrow> (\<exists>n. \<forall>m \<ge> n. parse_val m s = Some (v, r))"

definition parses_elems :: "string \<Rightarrow> jval list \<Rightarrow> string \<Rightarrow> bool" where
  "parses_elems s vs r \<longleftrightarrow> (\<exists>n. \<forall>m \<ge> n. parse_elems m s = Some (vs, r))"

definition parses_members :: "string \<Rightarrow> (string \<times> jval) list \<Rightarrow> string \<Rightarrow> bool" where
  "parses_members s ms r \<longleftrightarrow> (\<exists>n. \<forall>m \<ge> n. parse_members m s = Some (ms, r))"

lemma parses_json_first: "parses s v r \<longleftrightarrow> json_first s = Some (v, r)"
proof
  assume "parses s v r"
  then obtain n where "\<forall>m \<ge> n. parse_val m s = Some (v, r)" by (auto simp: parses_def)
  then have "parse_val (max n (parse_fuel s)) s = Some (v, r)" by simp
  then show "json_first s = Some (v, r)" by (simp add: parse_fuel_enough)
next
  assume "json_first s = Some (v, r)"
  then show "parses s v r"
    unfolding parses_def by (metis parse_fuel_enough)
qed

lemma SucI: "(\<And>m. n \<le> m \<Longrightarrow> P (Suc m)) \<Longrightarrow> \<exists>k. \<forall>m \<ge> k. P m" for n :: nat
  by (rule exI [of _ "Suc n"]) (metis Suc_le_D Suc_le_mono)

lemma parse_val_skip_ws: "parse_val n (skip_ws s) = parse_val n s"
  by (cases n) simp_all

lemma parses_ws: "skip_ws s = skip_ws s' \<Longrightarrow> parses s v r \<longleftrightarrow> parses s' v r"
  unfolding parses_def by (metis parse_val_skip_ws)

lemma parses_newline:
  assumes "parses s v r"
  shows "parses (newline d @ s) v r"
proof -
  have "skip_ws (newline d @ s) = skip_ws s"
  proof -
    have "skip_ws (replicate n (CHR '' '') @ s) = skip_ws s" for n
      by (induction n) (simp_all add: is_ws_def)
    then show ?thesis by (simp add: newline_def is_ws_def)
  qed
  with assms show ?thesis using parses_ws by blast
qed

lemma parses_space:
  assumes "parses s v r"
  shows "parses (CHR '' '' # s) v r"
proof -
  have "skip_ws (CHR '' '' # s) = skip_ws s" by (simp add: is_ws_def)
  with assms show ?thesis using parses_ws by blast
qed

lemma parses_arr_nil: "parses (''[]'' @ r) (JArr []) r"
  unfolding parses_def by (rule SucI [of 0]) (simp add: is_ws_def)

lemma parses_obj_nil: "parses (''{}'' @ r) (JObj []) r"
  unfolding parses_def by (rule SucI [of 0]) (simp add: is_ws_def)

lemma parses_str: "wf_str s \<Longrightarrow> parses (quot # s @ quot # r) (JStr s) r"
  unfolding parses_def by (rule SucI [of 0]) (simp add: is_ws_def wf_str_scan)

lemma parses_literals:
  "parses (''null'' @ r) JNull r" "parses (''true'' @ r) (JBool True) r"
  "parses (''false'' @ r) (JBool False) r"
  unfolding parses_def
  by (rule SucI [of 0], simp add: is_ws_def scan_scalar_def)+

lemma parses_num:
  assumes "wf_num t" and "num_stop r"
  shows "parses (t @ r) (JNum t) r"
proof -
  obtain c t' where t: "t = c # t'" and c: "is_digit c \<or> c = CHR ''-''"
    using assms(1) by (rule wf_num_head)
  show ?thesis
    unfolding parses_def
    by (rule SucI [of 0])
      (use number_heads [OF c] t wf_num_scan [OF assms] in \<open>simp add: scan_scalar_def\<close>)
qed

lemma parses_arr:
  assumes "parses_elems s vs r" and "skip_ws s = d # ds" and "d \<noteq> CHR '']''"
  shows "parses (CHR ''['' # s) (JArr vs) r"
proof -
  from assms(1) obtain n where "\<And>m. n \<le> m \<Longrightarrow> parse_elems m s = Some (vs, r)"
    by (auto simp: parses_elems_def)
  then show ?thesis
    unfolding parses_def by (intro SucI [of n]) (simp add: is_ws_def assms(2,3))
qed

lemma parses_obj:
  assumes "parses_members s ms r" and "skip_ws s = d # ds" and "d \<noteq> CHR ''}''"
  shows "parses (CHR ''{'' # s) (JObj ms) r"
proof -
  from assms(1) obtain n where "\<And>m. n \<le> m \<Longrightarrow> parse_members m s = Some (ms, r)"
    by (auto simp: parses_members_def)
  then show ?thesis
    unfolding parses_def by (intro SucI [of n]) (simp add: is_ws_def assms(2,3))
qed

lemma parses_elems_one:
  assumes "parses s v ra" and "skip_ws ra = CHR '']'' # r"
  shows "parses_elems s [v] r"
proof -
  from assms(1) obtain n where "\<And>m. n \<le> m \<Longrightarrow> parse_val m s = Some (v, ra)"
    by (auto simp: parses_def)
  then show ?thesis
    unfolding parses_elems_def by (intro SucI [of n]) (simp add: assms(2))
qed

lemma parses_elems_cons:
  assumes "parses s v ra" and "skip_ws ra = CHR '','' # rb" and "parses_elems rb vs r"
  shows "parses_elems s (v # vs) r"
proof -
  from assms(1) obtain n where n: "\<And>m. n \<le> m \<Longrightarrow> parse_val m s = Some (v, ra)"
    by (auto simp: parses_def)
  from assms(3) obtain n' where n': "\<And>m. n' \<le> m \<Longrightarrow> parse_elems m rb = Some (vs, r)"
    by (auto simp: parses_elems_def)
  show ?thesis
    unfolding parses_elems_def by (rule SucI [of "max n n'"]) (simp add: n n' assms(2))
qed

lemma parses_members_one:
  assumes "skip_ws s = quot # k @ quot # CHR '':'' # t" and "wf_str k"
    and "parses t v ra" and "skip_ws ra = CHR ''}'' # r"
  shows "parses_members s [(k, v)] r"
proof -
  from assms(3) obtain n where n: "\<And>m. n \<le> m \<Longrightarrow> parse_val m t = Some (v, ra)"
    by (auto simp: parses_def)
  show ?thesis
    unfolding parses_members_def
    by (rule SucI [of n]) (simp add: n assms wf_str_scan is_ws_def)
qed

lemma parses_members_cons:
  assumes "skip_ws s = quot # k @ quot # CHR '':'' # t" and "wf_str k"
    and "parses t v ra" and "skip_ws ra = CHR '','' # rb" and "parses_members rb ms r"
  shows "parses_members s ((k, v) # ms) r"
proof -
  from assms(3) obtain n where n: "\<And>m. n \<le> m \<Longrightarrow> parse_val m t = Some (v, ra)"
    by (auto simp: parses_def)
  from assms(5) obtain n' where n': "\<And>m. n' \<le> m \<Longrightarrow> parse_members m rb = Some (ms, r)"
    by (auto simp: parses_members_def)
  show ?thesis
    unfolding parses_members_def
    by (rule SucI [of "max n n'"]) (simp add: n n' assms wf_str_scan is_ws_def)
qed

section \<open>Printing then parsing\<close>

lemma skip_ws_newline [simp]: "skip_ws (newline d @ t) = skip_ws t"
proof -
  have "skip_ws (replicate n (CHR '' '') @ t) = skip_ws t" for n
    by (induction n) (simp_all add: is_ws_def)
  then show ?thesis by (simp add: newline_def is_ws_def)
qed

lemma num_stop_newline [simp]: "num_stop (newline d @ t)"
  by (simp add: newline_def is_digit_def byte_of_def)

lemma comma_not_digit [simp]: "\<not> is_digit (CHR '','')"
  by (simp add: is_digit_def byte_of_def)

text \<open>The first character of a printed value.\<close>

lemma json_indent_head_ex:
  assumes "wf_val v"
  shows "\<exists>c t. json_indent d v = c # t \<and> \<not> is_ws c \<and> c \<noteq> CHR '']'' \<and> c \<noteq> CHR ''}''"
proof (cases v)
  case (JNum t)
  with assms obtain c t' where "t = c # t'" and "is_digit c \<or> c = CHR ''-''"
    by (auto elim: wf_num_head)
  with JNum show ?thesis using number_heads by auto
qed (auto simp: is_ws_def)

lemma json_indent_head:
  assumes "wf_val v"
  obtains c t where "json_indent d v = c # t" "\<not> is_ws c" "c \<noteq> CHR '']''" "c \<noteq> CHR ''}''"
  using json_indent_head_ex [OF assms] by blast

lemma skip_ws_indent:
  assumes "wf_val v"
  shows "skip_ws (json_indent d v @ t) = json_indent d v @ t"
  using assms by (rule json_indent_head [of v d]) simp

lemma parses_elems_print:
  assumes "vs \<noteq> []"
    and "\<And>v t. v \<in> set vs \<Longrightarrow> num_stop t \<Longrightarrow> parses (pr v @ t) v t"
  shows "parses_elems (newline d @ join (CHR '','' # newline d) (map pr vs) @ newline e @ CHR '']'' # r) vs r"
  using assms
proof (induction vs rule: list_nonempty_induct)
  case (single v)
  let ?fin = "newline e @ CHR '']'' # r"
  have "parses (pr v @ ?fin) v ?fin" by (rule single) simp_all
  then have "parses (newline d @ pr v @ ?fin) v ?fin" by (rule parses_newline)
  moreover have "skip_ws ?fin = CHR '']'' # r" by (simp add: is_ws_def)
  ultimately have "parses_elems (newline d @ pr v @ ?fin) [v] r" by (rule parses_elems_one)
  then show ?case by simp
next
  case (cons v vs)
  let ?rest = "newline d @ join (CHR '','' # newline d) (map pr vs) @ newline e @ CHR '']'' # r"
  have v: "parses (pr v @ CHR '','' # ?rest) v (CHR '','' # ?rest)"
    by (rule cons.prems) simp_all
  have "parses_elems ?rest vs r" by (rule cons.IH) (use cons.prems in simp)
  moreover have "skip_ws (CHR '','' # ?rest) = CHR '','' # ?rest" by (simp add: is_ws_def)
  ultimately have "parses_elems (newline d @ pr v @ CHR '','' # ?rest) (v # vs) r"
    using parses_elems_cons [OF parses_newline [OF v]] by blast
  then show ?case using cons.hyps by (cases vs) simp_all
qed

lemma parses_members_print:
  assumes "ms \<noteq> []"
    and "\<And>k v. (k, v) \<in> set ms \<Longrightarrow> wf_str k"
    and "\<And>k v t. (k, v) \<in> set ms \<Longrightarrow> num_stop t \<Longrightarrow> parses (pr v @ t) v t"
  shows "parses_members
    (newline d @ join (CHR '','' # newline d) (map (\<lambda>(k, v). quot # k @ [quot] @ '': '' @ pr v) ms)
       @ newline e @ CHR ''}'' # r) ms r"
  using assms
proof (induction ms rule: list_nonempty_induct)
  case (single kv)
  obtain k v where kv: "kv = (k, v)" by fastforce
  let ?fin = "newline e @ CHR ''}'' # r"
  have "parses (pr v @ ?fin) v ?fin" by (rule single) (simp_all add: kv)
  then have v: "parses (CHR '' '' # pr v @ ?fin) v ?fin" by (rule parses_space)
  have wk: "wf_str k" using single kv by simp
  have "parses_members (newline d @ quot # k @ [quot] @ '': '' @ pr v @ ?fin) [(k, v)] r"
    by (rule parses_members_one [OF _ wk v]) (simp_all add: is_ws_def)
  then show ?case by (simp add: kv)
next
  case (cons kv ms)
  obtain k v where kv: "kv = (k, v)" by fastforce
  let ?rest = "newline d @ join (CHR '','' # newline d)
    (map (\<lambda>(k, v). quot # k @ [quot] @ '': '' @ pr v) ms) @ newline e @ CHR ''}'' # r"
  have "parses (pr v @ CHR '','' # ?rest) v (CHR '','' # ?rest)"
    by (rule cons.prems(2) [of k]) (simp_all add: kv)
  then have v: "parses (CHR '' '' # pr v @ CHR '','' # ?rest) v (CHR '','' # ?rest)"
    by (rule parses_space)
  have wk: "wf_str k" using cons.prems(1) [of k v] kv by simp
  have rest: "parses_members ?rest ms r"
  proof (rule cons.IH)
    show "wf_str k'" if "(k', v') \<in> set ms" for k' v' using that cons.prems(1) [of k' v'] by simp
    show "parses (pr v' @ t) v' t" if "(k', v') \<in> set ms" "num_stop t" for k' v' t
      using that cons.prems(2) [of k' v' t] by simp
  qed
  have "parses_members (newline d @ quot # k @ [quot] @ '': '' @ pr v @ CHR '','' # ?rest) ((k, v) # ms) r"
    by (rule parses_members_cons [OF _ wk v _ rest]) (simp_all add: is_ws_def)
  then show ?case using cons.hyps kv by (cases ms) simp_all
qed

lemma parses_indent:
  "wf_val v \<Longrightarrow> num_stop t \<Longrightarrow> parses (json_indent d v @ t) v t"
proof (induction d v arbitrary: t rule: json_indent.induct)
  case (5 d vs)
  show ?case
  proof (cases "vs = []")
    case False
    then obtain v vs' where vs: "vs = v # vs'" by (cases vs) auto
    obtain c u where head: "json_indent (Suc d) v = c # u" "\<not> is_ws c" "c \<noteq> CHR '']''"
      using "5.prems"(1) vs by (auto elim: json_indent_head [of v "Suc d"])
    let ?s = "newline (Suc d) @ join (CHR '','' # newline (Suc d)) (map (json_indent (Suc d)) vs)
      @ newline d @ CHR '']'' # t"
    have "parses_elems ?s vs t"
      by (rule parses_elems_print) (use False "5.IH" "5.prems" in \<open>auto simp: list_all_iff\<close>)
    moreover have "\<exists>ds. skip_ws ?s = c # ds"
      using head vs by (cases vs') auto
    ultimately show ?thesis
      using False head parses_arr by auto
  qed (simp add: parses_arr_nil [simplified])
next
  case (6 d ms)
  show ?case
  proof (cases "ms = []")
    case False
    then obtain k v ms' where ms: "ms = (k, v) # ms'" by (cases ms) auto
    let ?s = "newline (Suc d) @ join (CHR '','' # newline (Suc d))
      (map (\<lambda>(k, v). quot # k @ [quot] @ '': '' @ json_indent (Suc d) v) ms)
      @ newline d @ CHR ''}'' # t"
    have "parses_members ?s ms t"
      by (rule parses_members_print) (use False "6.IH" "6.prems" in \<open>auto simp: list_all_iff\<close>)
    moreover have "\<exists>ds. skip_ws ?s = quot # ds"
      using ms by (cases ms') (auto simp: is_ws_def)
    ultimately show ?thesis
      using False parses_obj by fastforce
  qed (simp add: parses_obj_nil [simplified])
qed (auto simp: parses_literals [simplified] parses_num parses_str)

lemma json_parse_indent:
  assumes "wf_val v"
  shows "json_parse (json_indent d v) = Some v"
  using parses_indent [OF assms, of "[]" d]
  by (simp add: parses_json_first json_parse_def)

end
