(* ===== verification/Json_Quote.thy ===== *)
theory Json_Quote
  imports Json_Facts
begin

text \<open>
  Quoting: \<open>encodeState.string\<close> always writes a well-formed JSON string, and unquoting it gives the
  original back when that was valid UTF-8. Escaping for HTML keeps a value well formed, and whatever
  the parser accepts is well formed.
\<close>

section \<open>Pieces of a string the scanner passes over\<close>

definition piece :: "string \<Rightarrow> bool" where
  "piece x \<longleftrightarrow> (\<forall>t. scan_str (x @ t) = map_option (map_prod (append x) id) (scan_str t))"

lemma piece_Nil [simp]: "piece []"
  by (auto simp: piece_def map_option_case map_prod_def split: option.splits)

lemma piece_append: "piece x \<Longrightarrow> piece y \<Longrightarrow> piece (x @ y)"
  by (auto simp: piece_def option.map_comp comp_def map_prod_def case_prod_unfold)

lemma piece_wf: "piece x \<Longrightarrow> wf_str x"
  by (simp add: piece_def wf_str_def)

lemma append_eta:
  "(@) [a] = (#) a" "(@) [a, b] = (\<lambda>r. a # b # r)"
  "(@) [a, b, c, d, e, f] = (\<lambda>r. a # b # c # d # e # f # r)"
  by (simp_all add: fun_eq_iff)

lemma piece_plain: "c \<noteq> quot \<Longrightarrow> c \<noteq> bslash \<Longrightarrow> 32 \<le> byte_of c \<Longrightarrow> piece [c]"
  by (auto simp: piece_def append_eta)

lemma piece_escape: "simple_escape d \<noteq> None \<Longrightarrow> d \<noteq> CHR ''u'' \<Longrightarrow> piece [bslash, d]"
  by (auto simp: piece_def append_eta)

lemma piece_unicode:
  assumes "hex4 [h1, h2, h3, h4] \<noteq> None"
  shows "piece [bslash, CHR ''u'', h1, h2, h3, h4]"
proof -
  have "hex4 (h1 # h2 # h3 # h4 # t) \<noteq> None" for t
    using assms by (simp add: hex4_def)
  then show ?thesis by (simp add: piece_def append_eta del: not_None_eq)
qed

lemma piece_bytes:
  assumes "\<forall>c \<in> set x. 128 \<le> byte_of c"
  shows "piece x"
  using assms
proof (induction x)
  case (Cons c x)
  have "c \<noteq> quot" "c \<noteq> bslash" using Cons.prems by (auto simp: byte_of_def)
  then have "piece [c]" by (rule piece_plain) (use Cons.prems in simp)
  then have "piece ([c] @ x)" by (rule piece_append) (use Cons in simp)
  then show ?case by simp
qed simp

lemma hex_digit_val: "n < 16 \<Longrightarrow> hex_val (hex_digit n) = Some n"
proof -
  have "\<forall>n \<in> set [0..<16]. hex_val (hex_digit n) = Some n" by code_simp
  then show "n < 16 \<Longrightarrow> hex_val (hex_digit n) = Some n" by simp
qed

lemma hex_vals:
  "hex_val (CHR ''0'') = Some 0" "hex_val (CHR ''2'') = Some 2" "hex_val (CHR ''8'') = Some 8"
  "hex_val (CHR ''9'') = Some 9" "hex_val (CHR ''d'') = Some 13" "hex_val (CHR ''f'') = Some 15"
  by code_simp+

lemma hex4_unicode:
  assumes "byte_of c < 128"
  shows "hex4 (CHR ''0'' # CHR ''0'' # hex_digit (byte_of c div 16) # hex_digit (byte_of c mod 16) # t)
    = Some (byte_of c)"
  using assms by (simp add: hex4_def hex_vals hex_digit_val)

lemma special_escapes:
  "simple_escape quot = Some quot" "simple_escape bslash = Some bslash"
  "simple_escape (CHR ''n'') = Some (CHR 0x0A)" "simple_escape (CHR ''r'') = Some (CHR 0x0D)"
  "simple_escape (CHR ''t'') = Some (CHR 0x09)" "simple_escape (CHR ''u'') = None"
  by code_simp+

lemma html_bytes: "byte_of (CHR ''<'') < 128" "byte_of (CHR ''>'') < 128" "byte_of (CHR ''&'') < 128"
  by (simp_all add: byte_of_def)

lemma piece_unicode_escape: "byte_of c < 128 \<Longrightarrow> piece (unicode_escape c)"
  unfolding unicode_escape_def by (rule piece_unicode) (simp add: hex4_unicode)

lemma piece_special:
  "piece [bslash, quot]" "piece [bslash, bslash]" "piece [bslash, CHR ''n'']"
  "piece [bslash, CHR ''r'']" "piece [bslash, CHR ''t'']"
  by (rule piece_escape; simp add: special_escapes)+

lemma piece_escape_byte: "byte_of c < 128 \<Longrightarrow> piece (escape_byte c)"
  unfolding escape_byte_def
  using piece_special piece_unicode_escape [of c] piece_plain [of c] by (simp del: not_less)

section \<open>Runes\<close>

lemma utf8_len_le: "utf8_len s \<le> length s"
  by (cases s) (auto simp: Let_def split: list.splits)

lemma utf8_len_ascii: "utf8_len (c # cs) = 1 \<longleftrightarrow> byte_of c < 128"
  by (auto simp: Let_def split: list.splits)

lemma utf8_len_prefix:
  assumes "utf8_len s = Suc k"
  shows "utf8_len (take (Suc k) s @ t) = Suc k"
proof (cases s)
  case (Cons c cs)
  with assms show ?thesis
    by (auto simp: Let_def split: if_splits list.splits)
qed (use assms in simp)

lemma utf8_len_wide:
  assumes "utf8_len s = Suc (Suc k)" and "c \<in> set (take (Suc (Suc k)) s)"
  shows "128 \<le> byte_of c"
  using assms by (cases s) (auto simp: Let_def is_cont_def split: if_splits list.splits)

lemma escape_rune_wide: "length r \<noteq> 1 \<Longrightarrow>
    escape_rune r = (case map_of line_separators r of Some e \<Rightarrow> e | None \<Rightarrow> r)"
  by (auto simp: escape_rune_def split: list.splits)

lemma piece_line_separator: "(r, e) \<in> set line_separators \<Longrightarrow> piece e"
proof -
  have "hex4 ''2028'' \<noteq> None" "hex4 ''2029'' \<noteq> None" by (simp_all add: hex4_def hex_vals)
  then have "piece (bslash # ''u2028'')" "piece (bslash # ''u2029'')"
    by (blast intro: piece_unicode)+
  then show "(r, e) \<in> set line_separators \<Longrightarrow> piece e" by (auto simp: line_separators_def)
qed

lemma piece_escape_rune:
  assumes "utf8_len s = Suc k"
  shows "piece (escape_rune (take (Suc k) s))"
proof (cases k)
  case 0
  with assms obtain c cs where s: "s = c # cs" by (cases s) auto
  with assms 0 have "byte_of c < 128" using utf8_len_ascii by simp
  then show ?thesis using s 0 by (simp add: escape_rune_def piece_escape_byte)
next
  case (Suc k')
  have l: "length (take (Suc k) s) \<noteq> 1" using utf8_len_le [of s] assms Suc by simp
  show ?thesis
  proof (cases "map_of line_separators (take (Suc k) s)")
    case None
    then have "escape_rune (take (Suc k) s) = take (Suc k) s" using l by (simp add: escape_rune_wide)
    then show ?thesis using utf8_len_wide [of s k'] assms Suc by (auto intro: piece_bytes)
  next
    case (Some e)
    then show ?thesis using l by (auto simp: escape_rune_wide dest: map_of_SomeD intro: piece_line_separator)
  qed
qed

lemma quote_body_piece: "piece (quote_body s)"
proof (induction s rule: quote_body.induct)
  case (2 c cs)
  show ?case
  proof (cases "utf8_len (c # cs)")
    case 0
    have "hex4 ''fffd'' \<noteq> None" by (simp add: hex4_def hex_vals)
    then have "piece (bslash # ''ufffd'')" by (rule piece_unicode)
    from piece_append [OF this "2.IH"(1) [OF 0]] 0 show ?thesis by (simp del: utf8_len.simps)
  next
    case (Suc k)
    from piece_append [OF piece_escape_rune [OF Suc] "2.IH"(2) [OF Suc]] Suc
    show ?thesis by (simp del: utf8_len.simps)
  qed
qed simp

lemma wf_quote_body: "wf_str (quote_body s)"
  by (rule piece_wf) (rule quote_body_piece)

section \<open>Unquoting what was quoted\<close>

lemma unquote_unicode_escape:
  assumes "byte_of c < 128"
  shows "unquote_body (unicode_escape c @ t) = map_option (Cons c) (unquote_body t)"
  using assms
  by (simp add: unicode_escape_def hex4_unicode is_surrogate_def encode_rune_def)
    (simp add: append_eta)

lemma unquote_escape_byte:
  assumes "byte_of c < 128"
  shows "unquote_body (escape_byte c @ t) = map_option (Cons c) (unquote_body t)"
proof -
  have "utf8_len (c # t) = Suc 0" using assms by simp
  then show ?thesis
    using assms unquote_unicode_escape [OF assms]
    by (auto simp: escape_byte_def special_escapes append_eta simp del: utf8_len.simps)
qed

lemma unquote_bytes:
  assumes "utf8_len s = Suc (Suc k)"
  shows "unquote_body (take (Suc (Suc k)) s @ t) = map_option (append (take (Suc (Suc k)) s)) (unquote_body t)"
proof (cases s)
  case (Cons c cs)
  have "128 \<le> byte_of c" using utf8_len_wide [OF assms, of c] Cons by simp
  then have c: "c \<noteq> bslash" "c \<noteq> quot" "\<not> byte_of c < 32" by (auto simp: byte_of_def)
  have l: "length (take (Suc k) cs) = Suc k" using utf8_len_le [of s] assms Cons by simp
  have "utf8_len (c # take (Suc k) cs @ t) = Suc (Suc k)"
    using utf8_len_prefix [OF assms, of t] Cons by simp
  then show ?thesis using Cons c l by (simp del: utf8_len.simps)
qed (use assms in simp)

lemma unquote_separator:
  "unquote_body (bslash # ''u2028'' @ t) = map_option (append [CHR 0xE2, CHR 0x80, CHR 0xA8]) (unquote_body t)"
  "unquote_body (bslash # ''u2029'' @ t) = map_option (append [CHR 0xE2, CHR 0x80, CHR 0xA9]) (unquote_body t)"
proof -
  have c: "char_of (226 :: nat) = CHR 0xE2" "char_of (128 :: nat) = CHR 0x80"
    "char_of (168 :: nat) = CHR 0xA8" "char_of (169 :: nat) = CHR 0xA9" by code_simp+
  show "unquote_body (bslash # ''u2028'' @ t) = map_option (append [CHR 0xE2, CHR 0x80, CHR 0xA8]) (unquote_body t)"
    "unquote_body (bslash # ''u2029'' @ t) = map_option (append [CHR 0xE2, CHR 0x80, CHR 0xA9]) (unquote_body t)"
    by (simp_all add: hex4_def hex_vals is_surrogate_def encode_rune_def c)
qed

lemma unquote_escape_rune:
  assumes "utf8_len s = Suc k"
  shows "unquote_body (escape_rune (take (Suc k) s) @ t)
    = map_option (append (take (Suc k) s)) (unquote_body t)"
proof (cases k)
  case 0
  with assms obtain c cs where s: "s = c # cs" by (cases s) auto
  with assms 0 have "byte_of c < 128" using utf8_len_ascii by simp
  then show ?thesis using s 0 by (simp add: escape_rune_def unquote_escape_byte append_eta)
next
  case (Suc k')
  have l: "length (take (Suc k) s) \<noteq> 1" using utf8_len_le [of s] assms Suc by simp
  show ?thesis
  proof (cases "map_of line_separators (take (Suc k) s)")
    case None
    then have "escape_rune (take (Suc k) s) = take (Suc k) s" using l by (simp add: escape_rune_wide)
    then show ?thesis using unquote_bytes [of s k'] assms Suc by simp
  next
    case (Some e)
    then have "(take (Suc k) s, e) \<in> set line_separators" by (rule map_of_SomeD)
    then show ?thesis
      using l Some unquote_separator [of t] by (auto simp: line_separators_def escape_rune_wide)
  qed
qed

lemma unquote_quote:
  "utf8_valid s \<Longrightarrow> unquote_body (quote_body s) = Some s"
proof (induction s rule: quote_body.induct)
  case (2 c cs)
  then obtain k where k: "utf8_len (c # cs) = Suc k"
    by (cases "utf8_len (c # cs)") (auto simp del: utf8_len.simps)
  have "unquote_body (quote_body (drop k cs)) = Some (drop k cs)"
    using "2.IH"(2) [OF k] "2.prems" k by (simp del: utf8_len.simps)
  then show ?case
    using k unquote_escape_rune [OF k] by (simp del: utf8_len.simps)
qed simp

lemma unquoted_quote: "utf8_valid s \<Longrightarrow> unquoted (quote_body s) = s"
  by (simp add: unquoted_def unquote_quote)

lemma ascii_utf8_valid: "list_all (\<lambda>c. byte_of c < 128) s \<Longrightarrow> utf8_valid s"
  by (induction s rule: utf8_valid.induct) (auto simp: Let_def)

section \<open>What the parser accepts is well formed\<close>

definition digit_stop :: "string \<Rightarrow> bool" where
  "digit_stop r \<longleftrightarrow> (case r of [] \<Rightarrow> True | c # _ \<Rightarrow> \<not> is_digit c)"

lemma digit_stop_extend:
  assumes "digit_stop r"
  shows "takeWhile is_digit (x @ r) = takeWhile is_digit x"
    "dropWhile is_digit (x @ r) = dropWhile is_digit x @ r"
  using assms by (induction x) (cases r; simp add: digit_stop_def)+

lemma not_digits [simp]: "\<not> is_digit (CHR ''.'')" "\<not> is_digit (CHR ''e'')" "\<not> is_digit (CHR ''E'')"
  by (simp_all add: is_digit_def byte_of_def)

lemma scan_digits1_self:
  assumes "scan_digits1 s = Some (a, b)" and "digit_stop r"
  shows "s = a @ b \<and> a \<noteq> [] \<and> scan_digits1 (a @ r) = Some (a, r)"
proof -
  have a: "a = takeWhile is_digit s" "a \<noteq> []" "b = dropWhile is_digit s"
    using assms(1) by (auto simp: scan_digits1_def split: if_splits)
  have "takeWhile is_digit a = a" "dropWhile is_digit a = []"
    using a(1) by (auto simp: takeWhile_eq_all_conv dest: set_takeWhileD)
  then show ?thesis using a digit_stop_extend [OF assms(2), of a] by (simp add: scan_digits1_def)
qed

lemma scan_int_self:
  assumes "scan_int s = Some (a, b)" and "digit_stop r"
  shows "s = a @ b \<and> scan_int (a @ r) = Some (a, r)"
proof -
  obtain c t where s: "s = c # t" using assms(1) by (cases s) (auto simp: scan_int_def)
  show ?thesis
  proof (cases "c = CHR ''0''")
    case False
    then have a: "is_digit c" "a = c # takeWhile is_digit t" "b = dropWhile is_digit t"
      using assms(1) s by (auto simp: scan_int_def split: if_splits)
    have "takeWhile is_digit (takeWhile is_digit t) = takeWhile is_digit t"
      "dropWhile is_digit (takeWhile is_digit t) = []"
      by (auto simp: takeWhile_eq_all_conv dest: set_takeWhileD)
    then show ?thesis
      using a s False digit_stop_extend [OF assms(2), of "takeWhile is_digit t"]
      by (simp add: scan_int_def)
  qed (use assms s in \<open>auto simp: scan_int_def\<close>)
qed

lemma scan_frac_self:
  assumes "scan_frac s = Some (a, b)" and "digit_stop r" and "\<forall>t. r \<noteq> CHR ''.'' # t"
  shows "s = a @ b \<and> (a = [] \<or> hd a = CHR ''.'') \<and> scan_frac (a @ r) = Some (a, r)"
proof (cases "\<exists>t. s = CHR ''.'' # t")
  case True
  then obtain t d where t: "s = CHR ''.'' # t" "scan_digits1 t = Some (d, b)" "a = CHR ''.'' # d"
    using assms(1) by (auto simp: scan_frac_def)
  then show ?thesis using scan_digits1_self [OF t(2) assms(2)] by (simp add: scan_frac_def)
next
  case False
  then have "a = []" "b = s" using assms(1) by (auto simp: scan_frac_def split: list.splits if_splits)
  then show ?thesis using assms(3) by (cases r) (auto simp: scan_frac_def)
qed

lemma scan_exp_self:
  assumes "scan_exp s = Some (a, b)"
  shows "s = a @ b \<and> (a = [] \<or> hd a = CHR ''e'' \<or> hd a = CHR ''E'') \<and> scan_exp a = Some (a, [])"
proof (cases "\<exists>c t. s = c # t \<and> (c = CHR ''e'' \<or> c = CHR ''E'')")
  case True
  then obtain c t where c: "s = c # t" "c = CHR ''e'' \<or> c = CHR ''E''" by blast
  with assms obtain d z where t: "t = d # z" by (cases t) (auto simp: scan_exp_def)
  have stop: "digit_stop []" by (simp add: digit_stop_def)
  show ?thesis
  proof (cases "d = CHR ''+'' \<or> d = CHR ''-''")
    case True
    with assms c t obtain u where u: "scan_digits1 z = Some (u, b)" "a = c # d # u"
      by (auto simp: scan_exp_def)
    then show ?thesis using scan_digits1_self [OF u(1) stop] c t True by (auto simp: scan_exp_def)
  next
    case False
    with assms c t obtain u where u: "scan_digits1 t = Some (u, b)" "a = c # u"
      by (auto simp: scan_exp_def)
    have "t = u @ b \<and> u \<noteq> [] \<and> scan_digits1 u = Some (u, [])"
      using scan_digits1_self [OF u(1) stop] by simp
    then show ?thesis using c t u False by (cases u) (auto simp: scan_exp_def)
  qed
next
  case False
  then show ?thesis using assms by (auto simp: scan_exp_def split: list.splits if_splits)
qed

lemma scan_unsigned_self:
  assumes "scan_unsigned s = Some (a, b)"
  shows "scan_unsigned a = Some (a, [])"
proof -
  obtain i s2 f s3 e where *: "scan_int s = Some (i, s2)" "scan_frac s2 = Some (f, s3)"
    "scan_exp s3 = Some (e, b)" "a = i @ f @ e"
    using assms by (auto simp: scan_unsigned_def split: option.splits)
  have e: "scan_exp e = Some (e, [])" "e = [] \<or> hd e = CHR ''e'' \<or> hd e = CHR ''E''"
    using scan_exp_self [OF *(3)] by auto
  have stop: "digit_stop e" "\<forall>t. e \<noteq> CHR ''.'' # t"
    using e(2) by (cases e; auto simp: digit_stop_def)+
  have f: "scan_frac (f @ e) = Some (f, e)" "f = [] \<or> hd f = CHR ''.''"
    using scan_frac_self [OF *(2) stop] by auto
  have "digit_stop (f @ e)" using f(2) stop(1) by (cases f) (auto simp: digit_stop_def)
  then have "scan_int (i @ f @ e) = Some (i, f @ e)" using scan_int_self [OF *(1)] by blast
  then show ?thesis using f e * by (simp add: scan_unsigned_def)
qed

lemma scan_num_wf:
  assumes "scan_num s = Some (a, b)"
  shows "wf_num a"
proof -
  obtain c t where s: "s = c # t" using assms by (cases s) (auto simp: scan_num_def)
  show ?thesis
  proof (cases "c = CHR ''-''")
    case True
    with assms s obtain u where "scan_unsigned t = Some (u, b)" "a = c # u"
      by (auto simp: scan_num_def)
    then show ?thesis using True scan_unsigned_self by (simp add: wf_num_def scan_num_def)
  next
    case False
    with assms s have "scan_unsigned s = Some (a, b)" by (simp add: scan_num_def)
    then have a: "scan_unsigned a = Some (a, [])" by (rule scan_unsigned_self)
    then obtain d u where d: "a = d # u" by (cases a) (auto simp: scan_unsigned_def scan_int_def)
    with a have "is_digit d" by (auto dest: scan_unsigned_head)
    then have "d \<noteq> CHR ''-''" by (auto simp: is_digit_def byte_of_def)
    then show ?thesis using a d by (simp add: wf_num_def scan_num_def)
  qed
qed

lemma hex4_length: "hex4 s = Some x \<Longrightarrow> 4 \<le> length s"
  by (auto simp: hex4_def split: list.splits)

lemma scan_scalar_wf: "scan_scalar s = Some (v, r) \<Longrightarrow> wf_val v"
  by (auto simp: scan_scalar_def split: if_splits dest: scan_num_wf)

lemma parse_wf:
  "parse_val n s = Some (v, r) \<Longrightarrow> wf_val v"
  "parse_elems n s = Some (vs, r) \<Longrightarrow> list_all wf_val vs"
  "parse_members n s = Some (ms, r) \<Longrightarrow> list_all (\<lambda>(k, v). wf_str k \<and> wf_val v) ms"
proof (induction n s and n s and n s arbitrary: v r and vs r and ms r
    rule: parse_val_parse_elems_parse_members.induct)
  case (2 n s)
  then show ?case by (fastforce split: list.splits if_splits dest: scan_scalar_wf scan_str_wf)
next
  case (4 n s)
  then show ?case by (fastforce split: list.splits if_splits option.splits)
next
  case (6 n s)
  then show ?case by (fastforce split: list.splits if_splits option.splits dest: scan_str_wf)
qed simp_all

lemma json_parse_wf: "json_parse s = Some v \<Longrightarrow> wf_val v"
  by (auto simp: json_parse_def json_first_def split: option.splits if_splits dest: parse_wf(1))

section \<open>HTML escaping keeps values well formed\<close>

lemma wf_str_tail:
  assumes "wf_str (c # cs)" and "c \<noteq> bslash"
  shows "wf_str cs" "c \<noteq> quot" "32 \<le> byte_of c"
  using assms by (auto simp: wf_str_def split: if_splits)

lemma piece_html_escape:
  "wf_str [c] \<or> c \<noteq> bslash \<and> c \<noteq> quot \<and> 32 \<le> byte_of c \<Longrightarrow> piece (html_escape c)"
  by (auto simp: html_escape_def wf_str_def html_bytes split: if_splits
      intro: piece_plain piece_unicode_escape)

lemma wf_str_escape:
  assumes "wf_str (bslash # cs)"
  obtains (simple) d ds where "cs = d # ds" "d \<noteq> CHR ''u''" "simple_escape d \<noteq> None" "wf_str ds"
  | (unicode) h1 h2 h3 h4 ds where "cs = CHR ''u'' # h1 # h2 # h3 # h4 # ds"
    "hex4 [h1, h2, h3, h4] \<noteq> None" "wf_str ds"
proof (cases cs)
  case Nil
  with assms show ?thesis by (simp add: wf_str_def split: if_splits)
next
  case (Cons d ds)
  show ?thesis
  proof (cases "d = CHR ''u''")
    case False
    with assms Cons have "simple_escape d \<noteq> None" "wf_str ds"
      by (auto simp: wf_str_def split: if_splits)
    with Cons False show ?thesis using simple by blast
  next
    case True
    with assms Cons obtain x where x: "hex4 (ds @ [quot]) = Some x" by (auto simp: wf_str_def split: if_splits)
    then have "length ds \<ge> 4 \<or> length ds = 3" using hex4_length [OF x] by auto
    moreover have "length ds \<noteq> 3"
    proof
      assume "length ds = 3"
      then obtain a b c where "ds = [a, b, c]" by (auto simp: length_Suc_conv numeral_3_eq_3)
      moreover have "hex_val quot = None" by code_simp
      ultimately show False using x by (simp add: hex4_def split: option.splits)
    qed
    ultimately obtain h1 h2 h3 h4 ds' where ds: "ds = h1 # h2 # h3 # h4 # ds'"
      by (cases ds; cases "tl ds"; cases "tl (tl ds)"; cases "tl (tl (tl ds))") auto
    have "hex4 [h1, h2, h3, h4] \<noteq> None" using x ds by (simp add: hex4_def)
    moreover have "wf_str ds'" using assms Cons True x ds by (auto simp: wf_str_def split: if_splits)
    ultimately show ?thesis using unicode Cons True ds by blast
  qed
qed

text \<open>Bytes that HTML escaping does not touch.\<close>

definition html_inert :: "char \<Rightarrow> bool" where
  "html_inert c \<longleftrightarrow> byte_of c < 128 \<and> c \<noteq> CHR ''<'' \<and> c \<noteq> CHR ''>'' \<and> c \<noteq> CHR ''&''"

lemma html_escape_raw_inert:
  assumes "html_inert c"
  shows "html_escape_raw (c # cs) = c # html_escape_raw cs"
proof -
  have "c \<noteq> CHR 0xE2" using assms by (auto simp: html_inert_def byte_of_def)
  then have "map_of line_separators (c # take 2 cs) = None" by (simp add: line_separators_def)
  then show ?thesis using assms by (simp add: html_inert_def html_escape_def)
qed

lemma inert_escapes:
  "html_inert bslash" "html_inert (CHR ''u'')" "hex_val c \<noteq> None \<Longrightarrow> html_inert c"
  "simple_escape c \<noteq> None \<Longrightarrow> html_inert c"
  by (auto simp: html_inert_def hex_val_def simple_escape_def byte_of_def Let_def split: if_splits)

lemma piece_html_escape_raw: "wf_str raw \<Longrightarrow> piece (html_escape_raw raw)"
proof (induction raw rule: length_induct)
  case (1 raw)
  show ?case
  proof (cases raw)
    case (Cons c cs)
    show ?thesis
    proof (cases "c = bslash")
      case True
      with "1.prems" Cons have "wf_str (bslash # cs)" by simp
      then show ?thesis
      proof (cases rule: wf_str_escape)
        case (simple d ds)
        have "piece (html_escape_raw ds)" using "1.IH" simple Cons by simp
        with piece_append [OF piece_escape [OF simple(3,2)]] simple Cons True inert_escapes
        show ?thesis by (simp add: html_escape_raw_inert del: html_escape_raw.simps)
      next
        case (unicode h1 h2 h3 h4 ds)
        have h: "hex_val h1 \<noteq> None" "hex_val h2 \<noteq> None" "hex_val h3 \<noteq> None" "hex_val h4 \<noteq> None"
          using unicode(2) by (auto simp: hex4_def split: option.splits)
        have "piece (html_escape_raw ds)" using "1.IH" unicode Cons by simp
        with piece_append [OF piece_unicode [OF unicode(2)]] unicode Cons True inert_escapes h
        show ?thesis by (simp add: html_escape_raw_inert del: html_escape_raw.simps)
      qed
    next
      case False
      note tail = wf_str_tail [OF "1.prems" [unfolded Cons] False]
      show ?thesis
      proof (cases "map_of line_separators (c # take 2 cs)")
        case None
        have "piece (html_escape_raw cs)" using "1.IH" tail Cons by simp
        with None Cons tail False show ?thesis by (simp add: piece_append piece_html_escape)
      next
        case (Some e)
        then have "c # take 2 cs = [CHR 0xE2, CHR 0x80, CHR 0xA8] \<or> c # take 2 cs = [CHR 0xE2, CHR 0x80, CHR 0xA9]"
          by (auto simp: line_separators_def split: if_splits)
        then obtain x y ds where cs: "cs = x # y # ds" "x \<noteq> bslash" "y \<noteq> bslash"
          by (cases cs; cases "tl cs") auto
        have "wf_str ds" using tail(1) cs wf_str_tail(1) by metis
        then have "piece (html_escape_raw ds)" using "1.IH" Cons cs by simp
        moreover have "piece e" using Some by (auto dest: map_of_SomeD intro: piece_line_separator)
        ultimately show ?thesis using Some Cons cs by (simp add: piece_append)
      qed
    qed
  qed simp
qed

lemma wf_html_escape_val: "wf_val v \<Longrightarrow> wf_val (html_escape_val v)"
proof (induction v rule: html_escape_val.induct)
  case (1 s)
  then show ?case by (simp add: piece_wf piece_html_escape_raw)
next
  case (2 vs)
  then show ?case by (simp add: list_all_iff)
next
  case (3 ms)
  then show ?case by (fastforce simp: list_all_iff intro: piece_wf piece_html_escape_raw)
qed simp_all

lemma marshal_raw_wf: "marshal_raw m = Some v \<Longrightarrow> wf_val v"
  by (auto simp: marshal_raw_def split: option.splits dest: json_parse_wf wf_html_escape_val)

lemma marshal_str_wf: "wf_val (marshal_str s)"
  by (simp add: marshal_str_def wf_quote_body)

end
