(* ===== verification/Base64.thy ===== *)
theory Base64
  imports Prelude
begin

text \<open>
  \<open>encoding/base64\<close>, the standard encoding with padding, as the key value store uses it: the
  encoder of \<open>Record.EncodeToJSON\<close> and the decoder of the batch handler.
\<close>

definition b64_alphabet :: string where
  "b64_alphabet = ''ABCDEFGHIJKLMNOPQRSTUVWXYZabcdefghijklmnopqrstuvwxyz0123456789+/''"

definition b64_char :: "nat \<Rightarrow> char" where
  "b64_char n = b64_alphabet ! n"

definition b64_val :: "char \<Rightarrow> nat option" where
  "b64_val c =
     (let b = byte_of c in
      if 65 \<le> b \<and> b \<le> 90 then Some (b - 65)
      else if 97 \<le> b \<and> b \<le> 122 then Some (b - 71)
      else if 48 \<le> b \<and> b \<le> 57 then Some (b + 4)
      else if b = 43 then Some 62
      else if b = 47 then Some 63
      else None)"

abbreviation pad :: char where "pad \<equiv> CHR ''=''"

fun b64_encode :: "string \<Rightarrow> string" where
  "b64_encode [] = []"
| "b64_encode [a] =
     [b64_char (byte_of a div 4), b64_char (byte_of a mod 4 * 16), pad, pad]"
| "b64_encode [a, b] =
     [b64_char (byte_of a div 4), b64_char (byte_of a mod 4 * 16 + byte_of b div 16),
      b64_char (byte_of b mod 16 * 4), pad]"
| "b64_encode (a # b # c # r) =
     [b64_char (byte_of a div 4), b64_char (byte_of a mod 4 * 16 + byte_of b div 16),
      b64_char (byte_of b mod 16 * 4 + byte_of c div 64), b64_char (byte_of c mod 64)]
     @ b64_encode r"

text \<open>The decoder works on groups of four characters once line breaks are left out. Padding is
  accepted in the last group only, and the unused bits of a padded group are not checked.\<close>

fun b64_groups :: "string \<Rightarrow> string option" where
  "b64_groups [] = Some []"
| "b64_groups (a # b # c # d # r) =
     (case (b64_val a, b64_val b) of
        (Some x, Some y) \<Rightarrow>
          (if c = pad then
             (if d = pad \<and> r = [] then Some [char_of (x * 4 + y div 16)] else None)
           else
             (case b64_val c of
                None \<Rightarrow> None
              | Some z \<Rightarrow>
                  (if d = pad then
                     (if r = []
                      then Some [char_of (x * 4 + y div 16), char_of (y mod 16 * 16 + z div 4)]
                      else None)
                   else
                     (case b64_val d of
                        None \<Rightarrow> None
                      | Some w \<Rightarrow>
                          map_option
                            (\<lambda>t. char_of (x * 4 + y div 16) # char_of (y mod 16 * 16 + z div 4)
                                 # char_of (z mod 4 * 64 + w) # t)
                            (b64_groups r)))))
      | _ \<Rightarrow> None)"
| "b64_groups _ = None"

definition is_newline :: "char \<Rightarrow> bool" where
  "is_newline c \<longleftrightarrow> c = CHR 0x0A \<or> c = CHR 0x0D"

definition b64_decode :: "string \<Rightarrow> string option" where
  "b64_decode s = b64_groups (filter (\<lambda>c. \<not> is_newline c) s)"

definition DecodedLen :: "nat \<Rightarrow> nat" where
  "DecodedLen n = n div 4 * 3"

section \<open>The alphabet\<close>

lemma b64_alphabet_vals: "map b64_val b64_alphabet = map Some [0..<64]"
  by code_simp

lemma b64_plain_chars:
  "list_all (\<lambda>c. \<not> is_newline c \<and> c \<noteq> CHR 0x22 \<and> c \<noteq> CHR 0x5C \<and> 32 \<le> byte_of c
     \<and> byte_of c < 128) (pad # b64_alphabet)"
  by code_simp

lemma b64_alphabet_facts: "length b64_alphabet = 64" "pad \<notin> set b64_alphabet"
  by code_simp+

lemma b64_char_props:
  assumes "n < 64"
  shows "b64_val (b64_char n) = Some n" "b64_char n \<noteq> pad" "\<not> is_newline (b64_char n)"
    "b64_char n \<noteq> CHR 0x22" "b64_char n \<noteq> CHR 0x5C" "b64_char n \<in> set b64_alphabet"
proof -
  have n: "n < length b64_alphabet" using assms by (simp add: b64_alphabet_facts)
  then have "map b64_val b64_alphabet ! n = b64_val (b64_char n)"
    by (simp add: b64_char_def)
  then show "b64_val (b64_char n) = Some n"
    using assms by (simp add: b64_alphabet_vals)
  show in_set: "b64_char n \<in> set b64_alphabet" using n by (simp add: b64_char_def)
  then show "b64_char n \<noteq> pad" using b64_alphabet_facts by auto
  show "\<not> is_newline (b64_char n)" "b64_char n \<noteq> CHR 0x22" "b64_char n \<noteq> CHR 0x5C"
    using b64_plain_chars in_set by (auto simp: list_all_iff)
qed

lemma pad_props: "\<not> is_newline pad" "b64_val pad = None"
  by code_simp+

lemma b64_val_lt: "b64_val c = Some n \<Longrightarrow> n < 64"
  by (auto simp: b64_val_def Let_def split: if_splits)

section \<open>Encoding then decoding\<close>

lemma sextets:
  fixes x y z :: nat
  assumes "x < 256" "y < 256" "z < 256"
  shows "x mod 4 * 16 + y div 16 < 64" "y mod 16 * 4 + z div 64 < 64"
    "x mod 4 * 16 < 64" "y mod 16 * 4 < 64" "x div 4 < 64" "z mod 64 < 64"
    "x div 4 * 4 + (x mod 4 * 16 + y div 16) div 16 = x"
    "x div 4 * 4 + x mod 4 * 16 div 16 = x"
    "(x mod 4 * 16 + y div 16) mod 16 * 16 + (y mod 16 * 4 + z div 64) div 4 = y"
    "(x mod 4 * 16 + y div 16) mod 16 * 16 + y mod 16 * 4 div 4 = y"
    "(y mod 16 * 4 + z div 64) mod 4 * 64 + z mod 64 = z"
proof -
  have d: "y div 16 < 16" "z div 64 < 4" using assms by auto
  then have q: "(x mod 4 * 16 + y div 16) div 16 = x mod 4"
    "(y mod 16 * 4 + z div 64) div 4 = y mod 16"
    "(x mod 4 * 16 + y div 16) mod 16 = y div 16"
    "(y mod 16 * 4 + z div 64) mod 4 = z div 64" by auto
  show "x mod 4 * 16 + y div 16 < 64" "y mod 16 * 4 + z div 64 < 64"
    "x mod 4 * 16 < 64" "y mod 16 * 4 < 64" "x div 4 < 64" "z mod 64 < 64"
    using assms d mod_less_divisor [of 4 x] mod_less_divisor [of 16 y] mod_less_divisor [of 64 z]
    by (auto simp del: mod_less_divisor)
  show "x div 4 * 4 + (x mod 4 * 16 + y div 16) div 16 = x"
    "x div 4 * 4 + x mod 4 * 16 div 16 = x"
    "(x mod 4 * 16 + y div 16) mod 16 * 16 + (y mod 16 * 4 + z div 64) div 4 = y"
    "(x mod 4 * 16 + y div 16) mod 16 * 16 + y mod 16 * 4 div 4 = y"
    "(y mod 16 * 4 + z div 64) mod 4 * 64 + z mod 64 = z"
    unfolding q by simp_all
qed

lemma b64_groups_encode: "b64_groups (b64_encode s) = Some s"
proof (induction s rule: b64_encode.induct)
  case (2 a)
  then show ?case
    using sextets [of "byte_of a" 0 0] by (simp add: b64_char_props)
next
  case (3 a b)
  then show ?case
    using sextets [of "byte_of a" "byte_of b" 0] by (simp add: b64_char_props)
next
  case (4 a b c r)
  then show ?case
    using sextets [of "byte_of a" "byte_of b" "byte_of c"] by (simp add: b64_char_props)
qed simp

lemma b64_encode_chars: "set (b64_encode s) \<subseteq> insert pad (set b64_alphabet)"
proof (induction s rule: b64_encode.induct)
  case (2 a)
  then show ?case using sextets [of "byte_of a" 0 0] by (simp add: b64_char_props)
next
  case (3 a b)
  then show ?case using sextets [of "byte_of a" "byte_of b" 0] by (simp add: b64_char_props)
next
  case (4 a b c r)
  then show ?case
    using sextets [of "byte_of a" "byte_of b" "byte_of c"] by (simp add: b64_char_props)
qed simp

lemma b64_encode_plain:
  assumes "c \<in> set (b64_encode s)"
  shows "\<not> is_newline c" "c \<noteq> CHR 0x22" "c \<noteq> CHR 0x5C" "32 \<le> byte_of c" "byte_of c < 128"
  using b64_encode_chars [of s] assms b64_plain_chars by (auto simp: list_all_iff)

lemma b64_decode_encode: "b64_decode (b64_encode s) = Some s"
proof -
  have "filter (\<lambda>c. \<not> is_newline c) (b64_encode s) = b64_encode s"
    by (rule filter_True) (auto dest: b64_encode_plain)
  then show ?thesis by (simp add: b64_decode_def b64_groups_encode)
qed

lemma length_b64_encode: "length (b64_encode s) = (length s + 2) div 3 * 4"
proof (induction s rule: b64_encode.induct)
  case (4 a b c r)
  have "(length (a # b # c # r) + 2) div 3 = Suc ((length r + 2) div 3)" by simp
  then show ?case using 4 by simp
qed auto

text \<open>The buffer of \<open>DecodedLen\<close> bytes that the callers allocate always has room.\<close>

lemma b64_groups_length: "b64_groups s = Some d \<Longrightarrow> length d \<le> DecodedLen (length s)"
proof (induction s arbitrary: d rule: b64_groups.induct)
  case (2 a b c d' r)
  have step: "DecodedLen (length (a # b # c # d' # r)) = 3 + DecodedLen (length r)"
    using div_add_self1 [of 4 "length r"] by (simp add: DecodedLen_def)
  from "2.prems" "2.IH" show ?case
    unfolding step by (auto split: option.splits if_splits)
qed (auto simp: DecodedLen_def)

lemma DecodedLen_mono: "m \<le> n \<Longrightarrow> DecodedLen m \<le> DecodedLen n"
  by (simp add: DecodedLen_def div_le_mono)

lemma b64_decode_length: "b64_decode s = Some d \<Longrightarrow> length d \<le> DecodedLen (length s)"
  unfolding b64_decode_def
  by (metis DecodedLen_mono b64_groups_length length_filter_le le_trans)

lemma DecodedLen_encode:
  "DecodedLen (length (b64_encode s)) = (length s + 2) div 3 * 3"
  by (simp add: DecodedLen_def length_b64_encode)

end
