(* ===== verification/KV_Record.thy ===== *)
theory KV_Record
  imports Json_Quote Base64
begin

text \<open>
  \<open>src/plugins/kvs/kv/record.go\<close>: the record a KV holds, its public JSON form, and
  \<open>EncodeToJSON\<close>; and what \<open>encoding/json\<close> does to decode a \<open>RecordJSON\<close>, for the batch handler.
  A nil byte slice or pointer is \<^const>\<open>None\<close>.
\<close>

section \<open>The record types\<close>

record kv_record =
  Collection :: "string option"
  Key :: string
  Value :: "string option"
  ContentType :: string
  OwnerID :: string
  ClientID :: string
  RequiredScopes :: string

record record_json =
  JKey :: "string option"
  JValue :: "string option"
  JContentType :: string

definition empty_record :: kv_record where
  "empty_record = \<lparr>Collection = None, Key = [], Value = None, ContentType = [], OwnerID = [],
     ClientID = [], RequiredScopes = []\<rparr>"

definition empty_record_json :: record_json where
  "empty_record_json = \<lparr>JKey = None, JValue = None, JContentType = []\<rparr>"

text \<open>The bytes of a slice, a nil slice being empty.\<close>

definition bytes :: "string option \<Rightarrow> string" where
  "bytes v = (case v of None \<Rightarrow> [] | Some b \<Rightarrow> b)"

lemma bytes_simps [simp]: "bytes None = []" "bytes (Some b) = b"
  by (simp_all add: bytes_def)

definition json_prefix :: string where
  "json_prefix = ''application/json''"

definition is_json_type :: "string \<Rightarrow> bool" where
  "is_json_type ct = has_prefix ct json_prefix"

section \<open>Encoding\<close>

datatype encode_error = InvalidJSON

text \<open>\<open>json.MarshalIndent\<close> of a \<open>RecordJSON\<close>: the fields in order, \<open>content_type\<close> left out when
  empty, the value a raw message that must be JSON.\<close>

definition record_json_members :: "record_json \<Rightarrow> jval \<Rightarrow> (string \<times> jval) list" where
  "record_json_members j v =
     [(''key'', case JKey j of None \<Rightarrow> JNull | Some k \<Rightarrow> marshal_str k), (''value'', v)]
     @ (if JContentType j = [] then [] else [(''content_type'', marshal_str (JContentType j))])"

definition marshal_record_json :: "record_json \<Rightarrow> encode_error + string" where
  "marshal_record_json j =
     (case marshal_raw (JValue j) of
        None \<Rightarrow> Inl InvalidJSON
      | Some v \<Rightarrow> Inr (marshal_indent (JObj (record_json_members j v))))"

definition EncodeToJSON :: "kv_record \<Rightarrow> encode_error + string" where
  "EncodeToJSON r =
     (let j = empty_record_json\<lparr>JKey := Some (Key r)\<rparr> in
      marshal_record_json
        (if has_prefix (ContentType r) json_prefix then j\<lparr>JValue := Value r\<rparr>
         else j\<lparr>JValue := Some (quot # b64_encode (bytes (Value r)) @ [quot]),
                JContentType := ContentType r\<rparr>))"

section \<open>Decoding\<close>

text \<open>
  \<open>Unmarshal\<close> into a \<open>RecordJSON\<close>, one member at a time: a member sets the field whose name it
  matches, unknown members are ignored, and a value of the wrong type is remembered as an error
  while decoding goes on (the flag turns false).
\<close>

definition set_record_json_field ::
  "string \<times> string \<times> jval \<Rightarrow> record_json \<times> bool \<Rightarrow> record_json \<times> bool" where
  "set_record_json_field m st =
     (case (m, st) of ((k, t, v), (j, ok)) \<Rightarrow>
        (if field_matches ''key'' k then
           (case v of
              JStr s \<Rightarrow> (j\<lparr>JKey := Some (unquoted s)\<rparr>, ok)
            | JNull \<Rightarrow> (j\<lparr>JKey := None\<rparr>, ok)
            | _ \<Rightarrow> (j, False))
         else if field_matches ''value'' k then (j\<lparr>JValue := Some t\<rparr>, ok)
         else if field_matches ''content_type'' k then
           (case v of
              JStr s \<Rightarrow> (j\<lparr>JContentType := unquoted s\<rparr>, ok)
            | JNull \<Rightarrow> (j, ok)
            | _ \<Rightarrow> (j, False))
         else (j, ok)))"

definition decode_record_json :: "string \<Rightarrow> record_json \<times> bool" where
  "decode_record_json text =
     fold set_record_json_field (object_members text) (empty_record_json, True)"

text \<open>An element of \<open>[]*RecordJSON\<close>: null gives a nil pointer, a value that is not an object a type
  error.\<close>

definition decode_record_elem :: "string \<times> jval \<Rightarrow> record_json option \<times> bool" where
  "decode_record_elem e =
     (case snd e of
        JNull \<Rightarrow> (None, True)
      | JObj ms \<Rightarrow> map_prod Some id (decode_record_json (fst e))
      | _ \<Rightarrow> (Some empty_record_json, False))"

definition decode_record_list :: "string \<Rightarrow> jval \<Rightarrow> record_json option list option" where
  "decode_record_list text v =
     (case v of
        JNull \<Rightarrow> Some []
      | JArr vs \<Rightarrow>
          (let es = map decode_record_elem (array_elems text)
           in if list_all snd es then Some (map fst es) else None)
      | _ \<Rightarrow> None)"

section \<open>Facts: what EncodeToJSON writes\<close>

lemma b64_piece: "piece (b64_encode s)"
proof -
  have "piece x" if "\<forall>c \<in> set x. c \<noteq> quot \<and> c \<noteq> bslash \<and> 32 \<le> byte_of c" for x
    using that
  proof (induction x)
    case (Cons c x)
    then show ?case using piece_append [OF piece_plain, of c x] by simp
  qed simp
  then show ?thesis using b64_encode_plain by blast
qed

lemma b64_no_html: "html_escape_raw (b64_encode s) = b64_encode s"
proof -
  have inert: "\<forall>c \<in> set (pad # b64_alphabet). html_inert c"
    unfolding html_inert_def b64_alphabet_def byte_of_def by simp
  have "html_escape_raw x = x" if "\<forall>c \<in> set x. html_inert c" for x
    using that by (induction x) (simp_all add: html_escape_raw_inert del: html_escape_raw.simps(2))
  moreover have "\<forall>c \<in> set (b64_encode s). html_inert c"
    using b64_encode_chars [of s] inert by auto
  ultimately show ?thesis by blast
qed

lemma marshal_raw_b64:
  "marshal_raw (Some (quot # b64_encode b @ [quot])) = Some (JStr (b64_encode b))"
proof -
  have "wf_val (JStr (b64_encode b))" using b64_piece piece_wf by simp
  then have "json_parse (json_indent 0 (JStr (b64_encode b))) = Some (JStr (b64_encode b))"
    by (rule json_parse_indent)
  then show ?thesis by (simp add: marshal_raw_def b64_no_html)
qed

text \<open>The value member: the stored JSON for a JSON content type, the Base64 string otherwise.\<close>

definition encoded_value :: "kv_record \<Rightarrow> jval option" where
  "encoded_value r =
     (if is_json_type (ContentType r) then marshal_raw (Value r)
      else Some (JStr (b64_encode (bytes (Value r)))))"

definition encoded_members :: "kv_record \<Rightarrow> jval \<Rightarrow> (string \<times> jval) list" where
  "encoded_members r v =
     [(''key'', JStr (quote_body (Key r))), (''value'', v)]
     @ (if is_json_type (ContentType r) \<or> ContentType r = [] then []
        else [(''content_type'', JStr (quote_body (ContentType r)))])"

lemma EncodeToJSON_eq:
  "EncodeToJSON r =
     (case encoded_value r of
        None \<Rightarrow> Inl InvalidJSON
      | Some v \<Rightarrow> Inr (marshal_indent (JObj (encoded_members r v))))"
  by (simp add: EncodeToJSON_def Let_def marshal_record_json_def record_json_members_def
      encoded_value_def encoded_members_def is_json_type_def empty_record_json_def marshal_raw_b64
      marshal_str_def split: option.splits)

lemma wf_names: "wf_str ''key''" "wf_str ''value''" "wf_str ''content_type''"
  by code_simp+

lemma encoded_value_wf: "encoded_value r = Some v \<Longrightarrow> wf_val v"
  by (auto simp: encoded_value_def piece_wf b64_piece dest: marshal_raw_wf split: if_splits)

lemma encoded_members_wf: "encoded_value r = Some v \<Longrightarrow> wf_val (JObj (encoded_members r v))"
  by (auto simp: encoded_members_def wf_names wf_quote_body encoded_value_wf)

lemma EncodeToJSON_parses:
  assumes "EncodeToJSON r = Inr d"
  shows "\<exists>v. encoded_value r = Some v \<and> json_parse d = Some (JObj (encoded_members r v))"
proof -
  obtain v where v: "encoded_value r = Some v" and d: "d = marshal_indent (JObj (encoded_members r v))"
    using assms by (auto simp only: EncodeToJSON_eq split: option.splits)
  show ?thesis using v json_parse_indent [OF encoded_members_wf [OF v], of 0]
    by (simp only: d marshal_indent_def) blast
qed

lemma EncodeToJSON_error:
  "EncodeToJSON r = Inl e \<longleftrightarrow>
     is_json_type (ContentType r) \<and> (\<exists>raw. Value r = Some raw \<and> json_parse raw = None)"
  by (cases e)
    (auto simp: EncodeToJSON_eq encoded_value_def marshal_raw_def split: option.splits if_splits)

section \<open>Facts: the parts of a printed object\<close>

lemma raw_first_print:
  assumes "wf_val v" and "num_stop t" and "skip_ws s = json_indent d v @ t"
  shows "raw_first s = Some (json_indent d v, v, t)"
  using parses_indent [OF assms(1,2)] assms(3)
  by (simp add: raw_first_def Let_def parses_json_first)

lemma raw_members_print:
  assumes "ms \<noteq> []" and "list_all (\<lambda>(k, v). wf_str k \<and> wf_val v) ms" and "length ms \<le> n"
  shows "raw_members n (newline d @ join (CHR '','' # newline d)
      (map (\<lambda>(k, v). quot # k @ [quot] @ '': '' @ json_indent d v) ms) @ newline e @ CHR ''}'' # r)
    = map (\<lambda>(k, v). (k, json_indent d v, v)) ms"
  using assms
proof (induction ms arbitrary: n rule: list_nonempty_induct)
  case (single kv)
  obtain k v where kv: "kv = (k, v)" by fastforce
  from single obtain m where n: "n = Suc m" by (cases n) auto
  let ?fin = "newline e @ CHR ''}'' # r"
  have sv: "skip_ws (json_indent d v @ ?fin) = json_indent d v @ ?fin"
    by (rule skip_ws_indent) (use single kv in simp)
  have "raw_first (CHR '' '' # json_indent d v @ ?fin) = Some (json_indent d v, v, ?fin)"
    by (rule raw_first_print) (use single kv sv in \<open>simp_all add: is_ws_def\<close>)
  then show ?case
    using single kv n by (simp add: is_ws_def wf_str_scan)
next
  case (cons kv ms)
  obtain k v where kv: "kv = (k, v)" by fastforce
  from cons.prems obtain m where n: "n = Suc m" by (cases n) auto
  let ?rest = "newline d @ join (CHR '','' # newline d)
    (map (\<lambda>(k, v). quot # k @ [quot] @ '': '' @ json_indent d v) ms) @ newline e @ CHR ''}'' # r"
  have sv: "skip_ws (json_indent d v @ CHR '','' # ?rest) = json_indent d v @ CHR '','' # ?rest"
    by (rule skip_ws_indent) (use cons.prems kv in simp)
  have f: "raw_first (CHR '' '' # json_indent d v @ CHR '','' # ?rest)
      = Some (json_indent d v, v, CHR '','' # ?rest)"
    by (rule raw_first_print) (use cons.prems kv sv in \<open>simp_all add: is_ws_def\<close>)
  have "raw_members m ?rest = map (\<lambda>(k, v). (k, json_indent d v, v)) ms"
    by (rule cons.IH) (use cons.prems n in simp_all)
  then have "raw_members (Suc m) (newline d @ quot # k @ [quot] @ '': '' @ json_indent d v @ CHR '','' # ?rest)
      = (k, json_indent d v, v) # map (\<lambda>(k, v). (k, json_indent d v, v)) ms"
    using cons.prems kv f by (simp add: is_ws_def wf_str_scan)
  then show ?case using cons.hyps kv n by (cases ms) simp_all
qed

lemma length_join: "length ws \<le> Suc (length (join (c # sep) ws))"
proof (induction ws rule: induct_list012)
  case (3 x y zs)
  then show ?case by simp
qed simp_all

lemma object_members_open:
  "skip_ws y = quot # x \<Longrightarrow> object_members (CHR ''{'' # y) = raw_members (length y) y"
  by (simp add: object_members_def is_ws_def)

lemma object_members_print:
  assumes "wf_val (JObj ms)" and "ms \<noteq> []"
  shows "object_members (json_indent d (JObj ms) @ t) = map (\<lambda>(k, v). (k, json_indent (Suc d) v, v)) ms"
proof -
  obtain k v ms' where ms: "ms = (k, v) # ms'" using assms(2) by (cases ms) auto
  let ?body = "newline (Suc d) @ join (CHR '','' # newline (Suc d))
    (map (\<lambda>(k, v). quot # k @ [quot] @ '': '' @ json_indent (Suc d) v) ms) @ newline d @ CHR ''}'' # t"
  have "length ms \<le> length ?body"
    using length_join [of "map (\<lambda>(k, v). quot # k @ [quot] @ '': '' @ json_indent (Suc d) v) ms" "CHR '',''"
        "newline (Suc d)"] by (simp add: newline_def)
  then have m: "raw_members (length ?body) ?body = map (\<lambda>(k, v). (k, json_indent (Suc d) v, v)) ms"
    by (intro raw_members_print) (use assms in simp_all)
  obtain x where h: "skip_ws ?body = quot # x" using ms by (cases ms') (auto simp: is_ws_def)
  have e: "json_indent d (JObj ms) @ t = CHR ''{'' # ?body" using assms(2) by simp
  show ?thesis unfolding e object_members_open [OF h] by (rule m)
qed

section \<open>Facts: decoding what was encoded\<close>

lemma field_names:
  "field_matches ''key'' ''key''" "\<not> field_matches ''key'' ''value''"
  "field_matches ''value'' ''value''" "\<not> field_matches ''key'' ''content_type''"
  "\<not> field_matches ''value'' ''content_type''" "field_matches ''content_type'' ''content_type''"
  by code_simp+

lemma decode_encoded:
  assumes "EncodeToJSON r = Inr d" and "utf8_valid (Key r)" and "utf8_valid (ContentType r)"
  shows "\<exists>v. encoded_value r = Some v \<and>
    decode_record_json (d @ t) =
      (\<lparr>JKey = Some (Key r), JValue = Some (json_indent 1 v),
        JContentType = (if is_json_type (ContentType r) then [] else ContentType r)\<rparr>, True)"
proof -
  obtain v where v: "encoded_value r = Some v" and d: "d = marshal_indent (JObj (encoded_members r v))"
    using assms(1) by (auto simp: EncodeToJSON_eq split: option.splits)
  have "object_members (d @ t)
      = map (\<lambda>(k, v). (k, json_indent (Suc 0) v, v)) (encoded_members r v)"
    unfolding d marshal_indent_def
    by (rule object_members_print [OF encoded_members_wf [OF v]]) (simp add: encoded_members_def)
  then have "decode_record_json (d @ t) =
      (\<lparr>JKey = Some (Key r), JValue = Some (json_indent 1 v),
        JContentType = (if is_json_type (ContentType r) then [] else ContentType r)\<rparr>, True)"
    using unquoted_quote [OF assms(2)] unquoted_quote [OF assms(3)]
    by (auto simp: decode_record_json_def encoded_members_def set_record_json_field_def field_names
        empty_record_json_def)
  with v show ?thesis by blast
qed

end
