(* ===== verification/KV_Table.thy ===== *)
theory KV_Table
  imports KV_Record
begin

text \<open>
  The SQL table of \<open>src/plugins/kvs/kv/statements.go\<close>: the prepared statements as terms, the table
  of the migrations with its unique index \<open>idx_no_dup\<close>, and the effect of each statement on it.

  The SQL engine is not part of the sources. What a statement means is written out here; what is
  the engine's own (the collation, the order of the rows of a result, failures, the counts that a
  driver reports) is a parameter, the record \<open>engine\<close>, and \<open>engine_ok\<close> states what both drivers
  document of it. The column \<open>id\<close> is never read by a statement and is left out.
\<close>

section \<open>Interface: a store of rows under a key\<close>

text \<open>What a client may rely on in a table with one row per key, and what follows for runs of
  updates.\<close>

locale keyed_store =
  fixes inv :: "'t \<Rightarrow> bool"
    and get :: "'t \<Rightarrow> 'k \<Rightarrow> 'r option"
    and put :: "'r \<Rightarrow> 't \<Rightarrow> 't"
    and del :: "'k \<Rightarrow> ('r \<Rightarrow> bool) \<Rightarrow> 't \<Rightarrow> 't"
    and keyof :: "'r \<Rightarrow> 'k option"
  assumes inv_put: "inv t \<Longrightarrow> inv (put r t)"
    and inv_del: "inv t \<Longrightarrow> inv (del k p t)"
    and get_put: "inv t \<Longrightarrow> keyof r = Some k \<Longrightarrow> get (put r t) k' = (if k' = k then Some r else get t k')"
    and get_del: "inv t \<Longrightarrow> get (del k p t) k' =
      (if k' = k then (case get t k of Some r \<Rightarrow> if p r then None else Some r | None \<Rightarrow> None)
       else get t k')"
begin

lemma inv_fold: "inv t \<Longrightarrow> inv (fold put rs t)"
  by (induction rs arbitrary: t) (simp_all add: inv_put)

lemma get_put_same: "inv t \<Longrightarrow> keyof r = Some k \<Longrightarrow> get (put r t) k = Some r"
  by (simp add: get_put)

lemma get_put_other: "inv t \<Longrightarrow> keyof r = Some k \<Longrightarrow> k' \<noteq> k \<Longrightarrow> get (put r t) k' = get t k'"
  by (simp add: get_put)

lemma get_del_put: "inv t \<Longrightarrow> keyof r = Some k \<Longrightarrow> p r \<Longrightarrow> get (del k p (put r t)) k = None"
  by (simp add: get_del inv_put get_put)

text \<open>A run of puts leaves under each key the last row put there.\<close>

lemma get_fold:
  assumes "inv t" and "\<forall>r \<in> set rs. keyof r \<noteq> None"
  shows "get (fold put rs t) k =
    (case List.find (\<lambda>r. keyof r = Some k) (rev rs) of Some r \<Rightarrow> Some r | None \<Rightarrow> get t k)"
  using assms
proof (induction rs rule: rev_induct)
  case (snoc r rs)
  obtain k' where k': "keyof r = Some k'" using snoc.prems by auto
  have "inv (fold put rs t)" using snoc.prems by (simp add: inv_fold)
  then show ?case using snoc k' by (simp add: get_put)
qed simp

lemma get_fold_other:
  assumes "inv t" and "\<forall>r \<in> set rs. keyof r \<noteq> None \<and> keyof r \<noteq> Some k"
  shows "get (fold put rs t) k = get t k"
proof -
  have "List.find (\<lambda>r. keyof r = Some k) (rev rs) = None"
    using assms(2) by (auto simp: find_None_iff)
  then show ?thesis using get_fold [of t rs k] assms by auto
qed

end

section \<open>Columns, values, rows\<close>

datatype column = CCollection | CKey | CValue | CContentType | COwner | CClient | CRealm | CScopes

datatype sqlval = SNull | SVal string

type_synonym row = "column \<Rightarrow> sqlval"
type_synonym table = "row list"

text \<open>The columns can be enumerated, in the order in which the migrations declare them.\<close>

instantiation column :: enum
begin

definition "enum_column = [CCollection, CKey, CValue, CContentType, COwner, CClient, CRealm, CScopes]"

definition "enum_all_column P \<longleftrightarrow> P CCollection \<and> P CKey \<and> P CValue \<and> P CContentType \<and> P COwner \<and> P CClient \<and> P CRealm \<and> P CScopes"

definition "enum_ex_column P \<longleftrightarrow> P CCollection \<or> P CKey \<or> P CValue \<or> P CContentType \<or> P COwner \<or> P CClient \<or> P CRealm \<or> P CScopes"

instance
proof
  show univ: "(UNIV :: column set) = set enum_class.enum"
    by (auto simp: enum_column_def) (metis column.exhaust)
qed (auto simp: enum_column_def enum_all_column_def enum_ex_column_def, (metis column.exhaust)+)

end

text \<open>The table of the migrations: three columns are NOT NULL, and one unique index.\<close>

definition not_null_columns :: "column list" where
  "not_null_columns = [CKey, CValue, CRealm]"

definition idx_no_dup :: "column list" where
  "idx_no_dup = [CKey, COwner, CRealm]"

section \<open>The prepared statements\<close>

datatype stmtID = stmtIDGet | stmtIDGetCollection | stmtIDCreateOrUpdate | stmtIDDelete

instantiation stmtID :: enum
begin

definition "enum_stmtID = [stmtIDGet, stmtIDGetCollection, stmtIDCreateOrUpdate, stmtIDDelete]"

definition "enum_all_stmtID P \<longleftrightarrow> P stmtIDGet \<and> P stmtIDGetCollection \<and> P stmtIDCreateOrUpdate \<and> P stmtIDDelete"

definition "enum_ex_stmtID P \<longleftrightarrow> P stmtIDGet \<or> P stmtIDGetCollection \<or> P stmtIDCreateOrUpdate \<or> P stmtIDDelete"

instance
proof
  show "(UNIV :: stmtID set) = set enum_class.enum"
    by (auto simp: enum_stmtID_def) (metis stmtID.exhaust)
qed (auto simp: enum_stmtID_def enum_all_stmtID_def enum_ex_stmtID_def, (metis stmtID.exhaust)+)

end

text \<open>\<open>Select cols where limit\<close>, \<open>Replace cols\<close>, \<open>Delete where\<close>; each column of \<open>where\<close> is compared
  with a placeholder, and each column of \<open>Replace\<close> filled by one, in order.\<close>

datatype sql_stmt =
    Select "column list" "column list" nat
  | Replace "column list"
  | Delete "column list"

fun preparedStmts :: "stmtID \<Rightarrow> sql_stmt" where
  "preparedStmts stmtIDGet =
     Select [CKey, CValue, CContentType, CScopes] [CKey, COwner, CClient, CRealm] 500"
| "preparedStmts stmtIDGetCollection =
     Select [CKey, CValue, CContentType, CScopes] [CCollection, COwner, CClient, CRealm] 500"
| "preparedStmts stmtIDCreateOrUpdate =
     Replace [CCollection, CKey, CValue, CContentType, COwner, CClient, CRealm, CScopes]"
| "preparedStmts stmtIDDelete = Delete [CKey, COwner, CClient, CRealm]"

section \<open>The engine\<close>

text \<open>
  \<open>eng_norm\<close> is the collation: two strings are equal for the engine when their normal forms are.
  \<open>eng_order\<close> is the order in which the rows of a result come, and \<open>eng_fault\<close>/\<open>eng_rows_fault\<close> say
  whether a call, or reading its rows, fails; each depends on the number of calls made before it.
  \<open>eng_affected\<close> is what \<open>RowsAffected\<close> reports for so many rows deleted and inserted, \<open>eng_last_id\<close>
  whether \<open>LastInsertId\<close> is supported. \<open>eng_bind_blob\<close> and \<open>eng_scan_blob\<close> are the driver's
  conversions of a byte slice.
\<close>

record engine =
  eng_norm :: "string \<Rightarrow> string"
  eng_order :: "nat \<Rightarrow> row list \<Rightarrow> row list"
  eng_fault :: "nat \<Rightarrow> bool"
  eng_rows_fault :: "nat \<Rightarrow> bool"
  eng_affected :: "nat \<Rightarrow> nat \<Rightarrow> nat option"
  eng_last_id :: bool
  eng_bind_blob :: "string \<Rightarrow> sqlval"
  eng_scan_blob :: "string \<Rightarrow> string option"

text \<open>
  SQLite3 and MySQL: a result has the selected rows, once each; the affected count is known and is
  zero exactly when nothing was deleted or inserted; a byte slice that is not empty is stored and
  read back as it is.
\<close>

definition engine_ok :: "engine \<Rightarrow> bool" where
  "engine_ok e \<longleftrightarrow>
     (\<forall>n rs. mset (eng_order e n rs) = mset rs) \<and>
     (\<forall>d i. \<exists>k. eng_affected e d i = Some k \<and> (k = 0 \<longleftrightarrow> d + i = 0)) \<and>
     (\<forall>b. b \<noteq> [] \<longrightarrow> eng_bind_blob e b = SVal b \<and> eng_scan_blob e b = Some b)"

text \<open>A concrete engine: SQLite3 with its binary collation, rows in the order of insertion.\<close>

definition sqlite_engine :: engine where
  "sqlite_engine = \<lparr>eng_norm = id, eng_order = (\<lambda>n rs. rs), eng_fault = (\<lambda>n. False),
     eng_rows_fault = (\<lambda>n. False), eng_affected = (\<lambda>d i. Some (if i = 0 then d else i)),
     eng_last_id = True, eng_bind_blob = SVal, eng_scan_blob = Some\<rparr>"

lemma sqlite_engine_ok: "engine_ok sqlite_engine"
  by (simp add: engine_ok_def sqlite_engine_def)

lemma eng_affected_Some: "engine_ok e \<Longrightarrow> \<exists>k. eng_affected e d i = Some k \<and> (k = 0 \<longleftrightarrow> d + i = 0)"
  by (simp add: engine_ok_def)

lemma set_eng_order: "engine_ok e \<Longrightarrow> set (eng_order e n rs) = set rs"
  unfolding engine_ok_def by (metis set_mset_mset)

lemma length_eng_order: "engine_ok e \<Longrightarrow> length (eng_order e n rs) = length rs"
  unfolding engine_ok_def by (metis size_mset)

lemma eng_order_short: "engine_ok e \<Longrightarrow> length rs \<le> 1 \<Longrightarrow> eng_order e n rs = rs"
  using length_eng_order [of e n rs] set_eng_order [of e n rs]
  by (cases rs; cases "eng_order e n rs") auto

text \<open>The database: the rows in storage order, and the number of calls so far.\<close>

record db =
  db_rows :: table
  db_calls :: nat

definition db_tick :: "db \<Rightarrow> db" where
  "db_tick d = d\<lparr>db_calls := Suc (db_calls d)\<rparr>"

lemma db_tick_simps [simp]: "db_rows (db_tick d) = db_rows d" "db_calls (db_tick d) = Suc (db_calls d)"
  by (simp_all add: db_tick_def)

section \<open>What the statements do\<close>

text \<open>Comparison: NULL equals nothing.\<close>

fun sql_eq :: "engine \<Rightarrow> sqlval \<Rightarrow> sqlval \<Rightarrow> bool" where
  "sql_eq e (SVal a) (SVal b) \<longleftrightarrow> eng_norm e a = eng_norm e b"
| "sql_eq e _ _ \<longleftrightarrow> False"

definition where_holds :: "engine \<Rightarrow> column list \<Rightarrow> sqlval list \<Rightarrow> row \<Rightarrow> bool" where
  "where_holds e cs args r = list_all2 (\<lambda>c a. sql_eq e (r c) a) cs args"

definition conflicts :: "engine \<Rightarrow> row \<Rightarrow> row \<Rightarrow> bool" where
  "conflicts e r s = list_all (\<lambda>c. sql_eq e (r c) (s c)) idx_no_dup"

definition new_row :: "column list \<Rightarrow> sqlval list \<Rightarrow> row" where
  "new_row cs args c = (case map_of (zip cs args) c of None \<Rightarrow> SNull | Some v \<Rightarrow> v)"

definition replace_row :: "engine \<Rightarrow> row \<Rightarrow> table \<Rightarrow> table" where
  "replace_row e r t = filter (\<lambda>s. \<not> conflicts e s r) t @ [r]"

definition delete_where :: "engine \<Rightarrow> column list \<Rightarrow> sqlval list \<Rightarrow> table \<Rightarrow> table" where
  "delete_where e cs args t = filter (\<lambda>r. \<not> where_holds e cs args r) t"

definition select_where :: "engine \<Rightarrow> nat \<Rightarrow> column list \<Rightarrow> sqlval list \<Rightarrow> nat \<Rightarrow> table \<Rightarrow> row list" where
  "select_where e n cs args lim t = take lim (eng_order e n (filter (where_holds e cs args) t))"

datatype sql_error = EngineFault | NotNull column

datatype sql_result =
    Rows "sqlval list list" bool
  | Result bool "nat option"

text \<open>One call: it may fail without effect; otherwise a select gives its rows (and whether reading
  them to the end succeeds), a change what the driver reports of it.\<close>

definition sql_exec ::
  "engine \<Rightarrow> sql_stmt \<Rightarrow> sqlval list \<Rightarrow> db \<Rightarrow> (sql_error + sql_result) \<times> db" where
  "sql_exec e s args d =
     (let n = db_calls d; t = db_rows d; d' = db_tick d in
      if eng_fault e n then (Inl EngineFault, d')
      else (case s of
              Select cols cs lim \<Rightarrow>
                (Inr (Rows (map (\<lambda>r. map r cols) (select_where e n cs args lim t))
                        (\<not> eng_rows_fault e n)), d')
            | Replace cols \<Rightarrow>
                (let r = new_row cols args in
                 case filter (\<lambda>c. r c = SNull) not_null_columns of
                   c # _ \<Rightarrow> (Inl (NotNull c), d')
                 | [] \<Rightarrow>
                     (Inr (Result (eng_last_id e)
                        (eng_affected e (length (filter (\<lambda>s. conflicts e s r) t)) 1)),
                      d'\<lparr>db_rows := replace_row e r t\<rparr>))
            | Delete cs \<Rightarrow>
                (Inr (Result (eng_last_id e)
                   (eng_affected e (length (filter (where_holds e cs args) t)) 0)),
                 d'\<lparr>db_rows := delete_where e cs args t\<rparr>)))"

section \<open>The invariant of the table\<close>

definition table_ok :: "engine \<Rightarrow> table \<Rightarrow> bool" where
  "table_ok e t \<longleftrightarrow>
     sorted_wrt (\<lambda>r s. \<not> conflicts e r s) t \<and>
     list_all (\<lambda>r. list_all (\<lambda>c. r c \<noteq> SNull) not_null_columns) t"

lemma sql_eq_sym: "sql_eq e a b \<longleftrightarrow> sql_eq e b a"
  by (cases a; cases b) auto

lemma sql_eq_trans: "sql_eq e a b \<Longrightarrow> sql_eq e b c \<Longrightarrow> sql_eq e a c"
  by (cases a; cases b; cases c) auto

lemma conflicts_sym: "conflicts e r s \<longleftrightarrow> conflicts e s r"
  unfolding conflicts_def by (simp add: sql_eq_sym)

lemma table_ok_Nil [simp]: "table_ok e []"
  by (simp add: table_ok_def)

lemma table_ok_filter: "table_ok e t \<Longrightarrow> table_ok e (filter p t)"
  by (auto simp: table_ok_def list_all_iff intro: sorted_wrt_filter)

lemma table_ok_replace:
  assumes "table_ok e t" and "list_all (\<lambda>c. r c \<noteq> SNull) not_null_columns"
  shows "table_ok e (replace_row e r t)"
  using assms table_ok_filter [OF assms(1), of "\<lambda>s. \<not> conflicts e s r"]
  by (auto simp: table_ok_def replace_row_def sorted_wrt_append)

lemma sql_exec_table_ok:
  assumes "table_ok e (db_rows d)"
  shows "table_ok e (db_rows (snd (sql_exec e s args d)))"
proof (cases s)
  case (Replace cols)
  have "list_all (\<lambda>c. r c \<noteq> SNull) not_null_columns"
    if "filter (\<lambda>c. r c = SNull) not_null_columns = []" for r :: row
    using that by (simp add: filter_empty_conv list_all_iff)
  then show ?thesis
    using assms Replace by (simp add: sql_exec_def Let_def table_ok_replace split: list.split)
qed (use assms in \<open>simp_all add: sql_exec_def Let_def delete_where_def table_ok_filter\<close>)

lemma sql_exec_calls: "db_calls (snd (sql_exec e s args d)) = Suc (db_calls d)"
  by (simp add: sql_exec_def Let_def split: sql_stmt.split list.split)

lemma sql_exec_error_unchanged:
  "fst (sql_exec e s args d) = Inl x \<Longrightarrow> db_rows (snd (sql_exec e s args d)) = db_rows d"
  by (auto simp: sql_exec_def Let_def split: if_splits sql_stmt.splits list.splits)

section \<open>The table as a map\<close>

text \<open>A row is indexed under its key, owner and realm, up to the collation, when none is NULL; the
  table is the map from these to rows.\<close>

type_synonym row_index = "string \<times> string \<times> string"

definition row_index :: "engine \<Rightarrow> row \<Rightarrow> row_index option" where
  "row_index e r =
     (case (r CKey, r COwner, r CRealm) of
        (SVal k, SVal u, SVal m) \<Rightarrow> Some (eng_norm e k, eng_norm e u, eng_norm e m)
      | _ \<Rightarrow> None)"

definition table_get :: "engine \<Rightarrow> table \<Rightarrow> row_index \<Rightarrow> row option" where
  "table_get e t i = List.find (\<lambda>r. row_index e r = Some i) t"

definition table_del :: "engine \<Rightarrow> row_index \<Rightarrow> (row \<Rightarrow> bool) \<Rightarrow> table \<Rightarrow> table" where
  "table_del e i p t = filter (\<lambda>r. \<not> (row_index e r = Some i \<and> p r)) t"

lemma conflicts_iff: "conflicts e r s \<longleftrightarrow> row_index e r \<noteq> None \<and> row_index e r = row_index e s"
  by (cases "r CKey"; cases "s CKey"; cases "r COwner"; cases "s COwner"; cases "r CRealm";
      cases "s CRealm") (simp_all add: conflicts_def row_index_def idx_no_dup_def)

lemma conflicts_index: "conflicts e r s \<longleftrightarrow> (\<exists>i. row_index e r = Some i \<and> row_index e s = Some i)"
  by (metis conflicts_iff not_None_eq)

lemma table_get_Some: "table_get e t i = Some r \<Longrightarrow> r \<in> set t \<and> row_index e r = Some i"
  by (auto simp: table_get_def find_Some_iff)

lemma find_filter: "List.find p (filter q t) = List.find (\<lambda>x. q x \<and> p x) t"
  by (induction t) auto

lemma find_append: "List.find p (s @ t) = (case List.find p s of None \<Rightarrow> List.find p t | Some x \<Rightarrow> Some x)"
  by (induction s) auto

text \<open>The rows of one index: at most one, and it is what the map has.\<close>

lemma filter_index:
  assumes "sorted_wrt (\<lambda>r s. \<not> conflicts e r s) t"
  shows "filter (\<lambda>r. row_index e r = Some i) t = (case table_get e t i of None \<Rightarrow> [] | Some r \<Rightarrow> [r])"
  using assms
proof (induction t)
  case (Cons r t)
  show ?case
  proof (cases "row_index e r = Some i")
    case True
    then have "\<forall>s \<in> set t. row_index e s \<noteq> Some i"
      using Cons.prems unfolding sorted_wrt.simps conflicts_index by blast
    then show ?thesis using True by (simp add: table_get_def filter_empty_conv)
  next
    case False
    then show ?thesis using Cons by (simp add: table_get_def)
  qed
qed (simp add: table_get_def)

lemma filter_index_and:
  assumes "sorted_wrt (\<lambda>r s. \<not> conflicts e r s) t"
  shows "filter (\<lambda>r. row_index e r = Some i \<and> p r) t =
    (case table_get e t i of None \<Rightarrow> [] | Some r \<Rightarrow> if p r then [r] else [])"
proof -
  have "filter (\<lambda>r. row_index e r = Some i \<and> p r) t = filter p (filter (\<lambda>r. row_index e r = Some i) t)"
    by (simp add: conj_commute)
  then show ?thesis using filter_index [OF assms, of i] by (simp split: option.split)
qed

lemma table_get_replace:
  assumes "row_index e r = Some i"
  shows "table_get e (replace_row e r t) j = (if j = i then Some r else table_get e t j)"
proof (cases "j = i")
  case True
  have "List.find (\<lambda>s. \<not> conflicts e s r \<and> row_index e s = Some i) t = None"
    unfolding find_None_iff conflicts_index using assms by blast
  then show ?thesis
    using True assms by (simp add: table_get_def replace_row_def find_append find_filter)
next
  case False
  have eq: "(\<not> conflicts e s r \<and> row_index e s = Some j) = (row_index e s = Some j)" for s
    using False assms by (auto simp: conflicts_iff)
  show ?thesis
    using False assms
    by (simp add: table_get_def replace_row_def find_append find_filter eq split: option.split)
qed

lemma table_get_del:
  assumes "sorted_wrt (\<lambda>r s. \<not> conflicts e r s) t"
  shows "table_get e (table_del e i p t) j =
    (if j = i then (case table_get e t i of Some r \<Rightarrow> if p r then None else Some r | None \<Rightarrow> None)
     else table_get e t j)"
proof (cases "j = i")
  case True
  have "filter (\<lambda>r. row_index e r = Some i) (table_del e i p t)
      = filter (\<lambda>r. row_index e r = Some i \<and> \<not> p r) t"
    unfolding table_del_def filter_filter by (rule filter_cong) auto
  moreover have "table_get e u i = (case filter (\<lambda>r. row_index e r = Some i) u of [] \<Rightarrow> None | x # _ \<Rightarrow> Some x)"
    for u unfolding table_get_def by (induction u) auto
  ultimately show ?thesis
    using True filter_index_and [OF assms, of i "\<lambda>r. \<not> p r"] by (simp split: option.split)
next
  case False
  have "(\<lambda>s. \<not> (row_index e s = Some i \<and> p s) \<and> row_index e s = Some j) = (\<lambda>s. row_index e s = Some j)"
    using False by auto
  then show ?thesis using False by (simp only: table_get_def table_del_def find_filter if_False)
qed

text \<open>A row that REPLACE accepts and that is indexed; anything else leaves the table alone.\<close>

definition row_ok :: "row \<Rightarrow> bool" where
  "row_ok r \<longleftrightarrow> list_all (\<lambda>c. r c \<noteq> SNull) not_null_columns"

definition table_put :: "engine \<Rightarrow> row \<Rightarrow> table \<Rightarrow> table" where
  "table_put e r t = (if row_ok r then replace_row e r t else t)"

definition stored_index :: "engine \<Rightarrow> row \<Rightarrow> row_index option" where
  "stored_index e r = (if row_ok r then row_index e r else None)"

interpretation kvt: keyed_store "table_ok e" "table_get e" "table_put e" "table_del e" "stored_index e"
  for e :: engine
proof
  fix t r k p k'
  assume ok: "table_ok e t"
  show "table_ok e (table_put e r t)"
    using ok by (simp add: table_put_def row_ok_def table_ok_replace)
  show "table_ok e (table_del e k p t)"
    using ok by (simp add: table_del_def table_ok_filter)
  show "table_get e (table_del e k p t) k' =
      (if k' = k then (case table_get e t k of Some r \<Rightarrow> if p r then None else Some r | None \<Rightarrow> None)
       else table_get e t k')"
    using ok by (intro table_get_del) (simp add: table_ok_def)
  assume "stored_index e r = Some k"
  then show "table_get e (table_put e r t) k' = (if k' = k then Some r else table_get e t k')"
    by (simp add: table_put_def stored_index_def table_get_replace split: if_splits)
qed

end
