(* ===== verification/KV_Store.thy ===== *)
theory KV_Store
  imports KV_Table
begin

text \<open>
  \<open>src/plugins/kvs/kv/kv.go\<close>: the \<open>KV\<close> handle with its channels, its creation, its initialisation,
  closing, and the operations \<open>Get\<close>, \<open>CreateOrUpdate\<close>, \<open>BatchCreateOrUpdate\<close> and \<open>Delete\<close> on the
  database.

  A channel that is only ever closed is a flag. \<open>kv_cancel\<close> is \<^const>\<open>None\<close> for a nil function
  and otherwise says whether it was called; \<open>kv_migrate\<close> and \<open>kv_db\<close> say whether the pointers are
  set; \<open>kv_stop\<close> whether the running migration was asked to stop.
\<close>

section \<open>The handle\<close>

record kv_state =
  kv_driver :: string
  kv_datasource :: string
  kv_migrations :: string
  kv_quit :: bool
  kv_initializing :: bool
  kv_cancel :: "bool option"
  kv_migrate :: bool
  kv_stop :: bool
  kv_db :: bool
  kv_stmts :: "stmtID \<rightharpoonup> sql_stmt"

datatype kv_error =
    DatasourceEmpty
  | UnsupportedDatabase
  | OpenFailed
  | DatabaseNotAvailable
  | MigrationDriverFailed
  | MigrationsFailed
  | VersionFailed
  | PrepareFailed
  | ContextDone
  | Timeout
  | NoSuchStatement
  | SqlError sql_error
  | RowsError
  | LastInsertIdUnknown
  | RowsAffectedUnknown

definition driverNameSQLite3 :: string where
  "driverNameSQLite3 = ''sqlite3''"

definition driverNameMySQL :: string where
  "driverNameMySQL = ''mysql''"

definition New :: "string \<Rightarrow> string \<Rightarrow> string \<Rightarrow> kv_error + kv_state" where
  "New driver datasource base =
     (if datasource = [] then Inl DatasourceEmpty
      else
        (let driver' = (if driver = [] then driverNameSQLite3 else driver);
             base' = (if base = [] then ''./plugins/kvs/kv/migrations'' else base)
         in Inr \<lparr>kv_driver = driver', kv_datasource = datasource,
                 kv_migrations = ''file://'' @ base' @ ''/'' @ driver',
                 kv_quit = False, kv_initializing = False, kv_cancel = None, kv_migrate = False,
                 kv_stop = False, kv_db = False, kv_stmts = Map.empty\<rparr>))"

section \<open>Initialisation\<close>

text \<open>
  \<open>Initialize\<close> and \<open>initialize\<close> run in a goroutine beside \<open>Close\<close>. The code is cut where another
  goroutine can come in between: each \<open>init_pc\<close> is one call to the outside, or one region under
  the lock. The flag of a step says whether the outside call succeeds.
\<close>

datatype init_pc =
    Starting
  | Opening
  | Pinging
  | MakingDriver
  | LoadingMigrations
  | Installing
  | ReadingVersion
  | Migrating
  | Finishing
  | Returned "kv_error option"

text \<open>The loop over the statements; \<open>prepare\<close> says which of them \<open>db.Prepare\<close> accepts. The order in which
  a Go map is visited does not matter (\<open>prepareStmts_eq\<close>).\<close>

fun prepare_loop :: "(sql_stmt \<Rightarrow> bool) \<Rightarrow> stmtID list \<Rightarrow> (stmtID \<rightharpoonup> sql_stmt) \<Rightarrow> (stmtID \<rightharpoonup> sql_stmt) option" where
  "prepare_loop prepare [] stmts = Some stmts"
| "prepare_loop prepare (sid # ids) stmts =
     (if prepare (preparedStmts sid) then prepare_loop prepare ids (stmts(sid \<mapsto> preparedStmts sid)) else None)"

definition prepareStmts :: "(sql_stmt \<Rightarrow> bool) \<Rightarrow> (stmtID \<rightharpoonup> sql_stmt) option" where
  "prepareStmts prepare = prepare_loop prepare Enum.enum Map.empty"

lemma prepare_loop_eq:
  "prepare_loop prepare ids stmts =
    (if \<forall>sid \<in> set ids. prepare (preparedStmts sid)
     then Some (\<lambda>sid. if sid \<in> set ids then Some (preparedStmts sid) else stmts sid) else None)"
  by (induction ids arbitrary: stmts) (auto simp: fun_eq_iff)

lemma prepareStmts_eq:
  "set ids = UNIV \<Longrightarrow> prepare_loop prepare ids Map.empty = prepareStmts prepare"
  "prepareStmts prepare = (if \<forall>sid. prepare (preparedStmts sid) then Some (\<lambda>sid. Some (preparedStmts sid)) else None)"
  by (simp_all add: prepareStmts_def prepare_loop_eq enum_UNIV)

text \<open>The last region of \<open>initialize\<close>: closing a channel a second time would panic.\<close>

definition finish_initialize :: "bool \<Rightarrow> kv_state \<Rightarrow> (kv_state \<times> init_pc) outcome" where
  "finish_initialize ok kv =
     (let kv = kv\<lparr>kv_migrate := False\<rparr> in
      if kv_quit kv then Returns (kv, Returned None)
      else (case prepareStmts (\<lambda>s. ok) of
              None \<Rightarrow> Returns (kv, Returned (Some PrepareFailed))
            | Some stmts \<Rightarrow>
                if kv_initializing kv then Panics ''close of closed channel''
                else Returns (kv\<lparr>kv_db := True, kv_stmts := stmts, kv_initializing := True\<rparr>,
                              Returned None)))"

fun init_step :: "bool \<Rightarrow> kv_state \<times> init_pc \<Rightarrow> (kv_state \<times> init_pc) outcome" where
  "init_step ok (kv, Starting) =
     (if kv_quit kv then Returns (kv, Returned None)
      else Returns (kv\<lparr>kv_cancel := Some False\<rparr>, Opening))"
| "init_step ok (kv, Opening) =
     (if kv_driver kv \<noteq> driverNameSQLite3 \<and> kv_driver kv \<noteq> driverNameMySQL
      then Returns (kv, Returned (Some UnsupportedDatabase))
      else Returns (kv, if ok then Pinging else Returned (Some OpenFailed)))"
| "init_step ok (kv, Pinging) =
     Returns (kv, if ok then MakingDriver else Returned (Some DatabaseNotAvailable))"
| "init_step ok (kv, MakingDriver) =
     Returns (kv, if ok then LoadingMigrations else Returned (Some MigrationDriverFailed))"
| "init_step ok (kv, LoadingMigrations) =
     Returns (kv, if ok then Installing else Returned (Some MigrationsFailed))"
| "init_step ok (kv, Installing) =
     (if kv_quit kv then Returns (kv, Returned None)
      else Returns (kv\<lparr>kv_migrate := True\<rparr>, ReadingVersion))"
| "init_step ok (kv, ReadingVersion) =
     Returns (kv, if ok then Migrating else Returned (Some VersionFailed))"
| "init_step ok (kv, Migrating) = Returns (kv, Finishing)"
| "init_step ok (kv, Finishing) = finish_initialize ok kv"
| "init_step ok (kv, Returned e) = Returns (kv, Returned e)"

text \<open>A run of \<open>Initialize\<close> with no other goroutine in between: its outside calls succeed as
  the list says, in order.\<close>

fun run_init :: "bool list \<Rightarrow> kv_state \<times> init_pc \<Rightarrow> (kv_state \<times> init_pc) outcome" where
  "run_init [] s = Returns s"
| "run_init (ok # oks) s = obind (init_step ok s) (run_init oks)"

section \<open>Closing\<close>

definition KV_Close :: "kv_state \<Rightarrow> kv_state outcome" where
  "KV_Close kv =
     (let kv = (if kv_migrate kv then kv\<lparr>kv_stop := True\<rparr> else kv);
          kv = (case kv_cancel kv of None \<Rightarrow> kv | Some _ \<Rightarrow> kv\<lparr>kv_cancel := Some True\<rparr>)
      in if kv_quit kv then Panics ''close of closed channel''
         else Returns (kv\<lparr>kv_quit := True, kv_db := False, kv_stmts := Map.empty\<rparr>))"

section \<open>Statements\<close>

text \<open>
  How the wait of \<open>Stmt\<close> ends: the handle is initialised, the context of the request is done, or
  five seconds have passed. The first can only be when the channel is closed by then.
\<close>

datatype wait = WReady | WDone | WTimeout

definition Stmt :: "kv_state \<Rightarrow> wait \<Rightarrow> stmtID \<Rightarrow> kv_error + sql_stmt" where
  "Stmt kv w sid =
     (case (if w = WReady \<and> \<not> kv_initializing kv then WTimeout else w) of
        WDone \<Rightarrow> Inl ContextDone
      | WTimeout \<Rightarrow> Inl Timeout
      | WReady \<Rightarrow> (case kv_stmts kv sid of None \<Rightarrow> Inl NoSuchStatement | Some s \<Rightarrow> Inr s))"

section \<open>Operations\<close>

text \<open>Arguments as \<open>database/sql\<close> binds them: a nil pointer or slice is NULL.\<close>

definition bind_opt :: "string option \<Rightarrow> sqlval" where
  "bind_opt s = (case s of None \<Rightarrow> SNull | Some x \<Rightarrow> SVal x)"

definition bind_blob :: "engine \<Rightarrow> string option \<Rightarrow> sqlval" where
  "bind_blob e b = (case b of None \<Rightarrow> SNull | Some x \<Rightarrow> eng_bind_blob e x)"

definition record_args :: "engine \<Rightarrow> string \<Rightarrow> kv_record \<Rightarrow> sqlval list" where
  "record_args e realm r =
     [bind_opt (Collection r), SVal (Key r), bind_blob e (Value r), SVal (ContentType r),
      SVal (OwnerID r), SVal (ClientID r), SVal realm, SVal (RequiredScopes r)]"

text \<open>\<open>rows.Scan\<close> into a fresh record: scanning stops with an error at a NULL that goes into a
  string, and \<open>Get\<close> keeps what was scanned before it.\<close>

definition scan_blob :: "engine \<Rightarrow> sqlval \<Rightarrow> string option" where
  "scan_blob e v = (case v of SNull \<Rightarrow> None | SVal b \<Rightarrow> eng_scan_blob e b)"

definition scan_row :: "engine \<Rightarrow> sqlval list \<Rightarrow> kv_record" where
  "scan_row e vs =
     (case vs of
        [k, v, c, s] \<Rightarrow>
          (case k of
             SNull \<Rightarrow> empty_record
           | SVal k' \<Rightarrow>
               (let r = empty_record\<lparr>Key := k', Value := scan_blob e v\<rparr> in
                case c of
                  SNull \<Rightarrow> r
                | SVal c' \<Rightarrow>
                    (let r = r\<lparr>ContentType := c'\<rparr> in
                     case s of SNull \<Rightarrow> r | SVal s' \<Rightarrow> r\<lparr>RequiredScopes := s'\<rparr>)))
      | _ \<Rightarrow> empty_record)"

definition Get ::
  "engine \<Rightarrow> wait \<Rightarrow> kv_state \<Rightarrow> string \<Rightarrow> kv_record \<Rightarrow> db \<Rightarrow> (kv_error + kv_record list) \<times> db" where
  "Get e w kv realm r d =
     (let q = (case Collection r of
                 None \<Rightarrow> (stmtIDGet, [SVal (Key r), SVal (OwnerID r), SVal (ClientID r), SVal realm])
               | Some c \<Rightarrow>
                   (stmtIDGetCollection, [SVal c, SVal (OwnerID r), SVal (ClientID r), SVal realm]))
      in case Stmt kv w (fst q) of
           Inl x \<Rightarrow> (Inl x, d)
         | Inr s \<Rightarrow>
             (case sql_exec e s (snd q) d of
                (Inl x, d') \<Rightarrow> (Inl (SqlError x), d')
              | (Inr (Rows vs ok), d') \<Rightarrow> (if ok then Inr (map (scan_row e) vs) else Inl RowsError, d')
              | (Inr (Result _ _), d') \<Rightarrow> (Inr [], d')))"

definition CreateOrUpdate ::
  "engine \<Rightarrow> wait \<Rightarrow> kv_state \<Rightarrow> string \<Rightarrow> kv_record \<Rightarrow> db \<Rightarrow> (kv_error + unit) \<times> db" where
  "CreateOrUpdate e w kv realm r d =
     (case Stmt kv w stmtIDCreateOrUpdate of
        Inl x \<Rightarrow> (Inl x, d)
      | Inr s \<Rightarrow>
          (case sql_exec e s (record_args e realm r) d of
             (Inl x, d') \<Rightarrow> (Inl (SqlError x), d')
           | (Inr (Rows _ _), d') \<Rightarrow> (Inl LastInsertIdUnknown, d')
           | (Inr (Result last_id n), d') \<Rightarrow>
               (if \<not> last_id then Inl LastInsertIdUnknown
                else if n = None then Inl RowsAffectedUnknown
                else Inr (), d')))"

text \<open>The loop of the batch, inside its transaction: the rows affected so far, or the error of the
  first statement that fails.\<close>

fun batch_loop ::
  "engine \<Rightarrow> string \<Rightarrow> kv_record list \<Rightarrow> nat \<Rightarrow> db \<Rightarrow> (sql_error + nat) \<times> db" where
  "batch_loop e realm [] acc d = (Inr acc, d)"
| "batch_loop e realm (r # rs) acc d =
     (case sql_exec e (preparedStmts stmtIDCreateOrUpdate) (record_args e realm r) d of
        (Inl x, d') \<Rightarrow> (Inl x, d')
      | (Inr (Result _ (Some n)), d') \<Rightarrow> batch_loop e realm rs (acc + n) d'
      | (Inr _, d') \<Rightarrow> batch_loop e realm rs acc d')"

definition rollback :: "db \<Rightarrow> db \<Rightarrow> db" where
  "rollback d0 d = (db_tick d)\<lparr>db_rows := db_rows d0\<rparr>"

text \<open>\<open>BeginTx\<close>, \<open>PrepareContext\<close> and \<open>Commit\<close> are calls that can fail as well; \<open>kv.db\<close> is used as it
  is, and calling a method of a nil \<open>*sql.DB\<close> panics.\<close>

definition BatchCreateOrUpdate ::
  "engine \<Rightarrow> kv_state \<Rightarrow> string \<Rightarrow> kv_record list \<Rightarrow> db \<Rightarrow> ((kv_error + unit) \<times> db) outcome" where
  "BatchCreateOrUpdate e kv realm rs d =
     (if \<not> kv_db kv then Panics ''nil *sql.DB''
      else if eng_fault e (db_calls d) then Returns (Inl (SqlError EngineFault), db_tick d)
      else if eng_fault e (db_calls (db_tick d))
      then Returns (Inl (SqlError EngineFault), db_tick (db_tick d))
      else Returns
        (case batch_loop e realm rs 0 (db_tick (db_tick d)) of
           (Inl x, d') \<Rightarrow> (Inl (SqlError x), rollback d d')
         | (Inr acc, d') \<Rightarrow>
             (if acc = 0 then (Inr (), rollback d d')
              else if eng_fault e (db_calls d') then (Inl (SqlError EngineFault), rollback d d')
              else (Inr (), db_tick d'))))"

definition KV_Delete ::
  "engine \<Rightarrow> wait \<Rightarrow> kv_state \<Rightarrow> string \<Rightarrow> kv_record \<Rightarrow> db \<Rightarrow> (kv_error + bool) \<times> db" where
  "KV_Delete e w kv realm r d =
     (case Stmt kv w stmtIDDelete of
        Inl x \<Rightarrow> (Inl x, d)
      | Inr s \<Rightarrow>
          (case sql_exec e s [SVal (Key r), SVal (OwnerID r), SVal (ClientID r), SVal realm] d of
             (Inl x, d') \<Rightarrow> (Inl (SqlError x), d')
           | (Inr (Rows _ _), d') \<Rightarrow> (Inl RowsAffectedUnknown, d')
           | (Inr (Result _ n), d') \<Rightarrow>
               (case n of None \<Rightarrow> Inl RowsAffectedUnknown | Some k \<Rightarrow> Inr (0 < k), d')))"

end
