(* ===== verification/KV_Store_Facts.thy ===== *)
theory KV_Store_Facts
  imports KV_Store
begin

text \<open>
  What the operations of \<open>src/plugins/kvs/kv/kv.go\<close> guarantee: the life of the handle as a step
  relation beside \<open>Close\<close>, each operation as an update of the map that the table stands for, and the
  properties of sequences of operations.
\<close>

section \<open>The handle when it is ready\<close>

definition kv_ready :: "kv_state \<Rightarrow> bool" where
  "kv_ready kv \<longleftrightarrow> kv_initializing kv \<and> kv_db kv \<and> list_all (\<lambda>i. kv_stmts kv i = Some (preparedStmts i))
     [stmtIDGet, stmtIDGetCollection, stmtIDCreateOrUpdate, stmtIDDelete]"

lemma Stmt_ready: "kv_ready kv \<Longrightarrow> Stmt kv WReady i = Inr (preparedStmts i)"
  by (cases i) (simp_all add: Stmt_def kv_ready_def)

lemma Stmt_not_initialized: "\<not> kv_initializing kv \<Longrightarrow> \<exists>x. Stmt kv w i = Inl x \<and> x \<in> {ContextDone, Timeout}"
  by (cases w) (auto simp: Stmt_def)

lemma Stmt_error_unchanged:
  assumes "Stmt kv w stmtIDCreateOrUpdate = Inl x"
  shows "CreateOrUpdate e w kv realm r d = (Inl x, d)"
  using assms by (simp add: CreateOrUpdate_def)

section \<open>Rows of records\<close>

definition record_row :: "engine \<Rightarrow> string \<Rightarrow> kv_record \<Rightarrow> row" where
  "record_row e realm r =
     new_row [CCollection, CKey, CValue, CContentType, COwner, CClient, CRealm, CScopes]
       (record_args e realm r)"

lemma record_row_simps [simp]:
  "record_row e realm r CCollection = bind_opt (Collection r)"
  "record_row e realm r CKey = SVal (Key r)"
  "record_row e realm r CValue = bind_blob e (Value r)"
  "record_row e realm r CContentType = SVal (ContentType r)"
  "record_row e realm r COwner = SVal (OwnerID r)"
  "record_row e realm r CClient = SVal (ClientID r)"
  "record_row e realm r CRealm = SVal realm"
  "record_row e realm r CScopes = SVal (RequiredScopes r)"
  by (simp_all add: record_row_def new_row_def record_args_def)

definition record_index :: "engine \<Rightarrow> string \<Rightarrow> kv_record \<Rightarrow> row_index" where
  "record_index e realm r = (eng_norm e (Key r), eng_norm e (OwnerID r), eng_norm e realm)"

definition client_is :: "engine \<Rightarrow> string \<Rightarrow> row \<Rightarrow> bool" where
  "client_is e c row = sql_eq e (row CClient) (SVal c)"

definition storable :: "engine \<Rightarrow> kv_record \<Rightarrow> bool" where
  "storable e r \<longleftrightarrow> bind_blob e (Value r) \<noteq> SNull"

lemma storable_value: "engine_ok e \<Longrightarrow> Value r = Some b \<Longrightarrow> b \<noteq> [] \<Longrightarrow> storable e r"
  by (simp add: storable_def bind_blob_def engine_ok_def)

lemma row_ok_record [simp]: "row_ok (record_row e realm r) \<longleftrightarrow> storable e r"
  by (simp add: row_ok_def not_null_columns_def storable_def)

lemma row_index_record [simp]: "row_index e (record_row e realm r) = Some (record_index e realm r)"
  by (simp add: row_index_def record_index_def)

lemma stored_index_record [simp]:
  "stored_index e (record_row e realm r) = (if storable e r then Some (record_index e realm r) else None)"
  by (simp add: stored_index_def)

lemma client_is_record [simp]:
  "client_is e c (record_row e realm r) \<longleftrightarrow> eng_norm e (ClientID r) = eng_norm e c"
  by (simp add: client_is_def)

lemma where_key:
  "where_holds e [CKey, COwner, CClient, CRealm]
     [SVal (Key r), SVal (OwnerID r), SVal (ClientID r), SVal realm] row \<longleftrightarrow>
   row_index e row = Some (record_index e realm r) \<and> client_is e (ClientID r) row"
  by (cases "row CKey"; cases "row COwner"; cases "row CRealm"; cases "row CClient")
    (auto simp: where_holds_def row_index_def record_index_def client_is_def)

lemma filter_where_key:
  assumes "table_ok e t"
  shows "filter (where_holds e [CKey, COwner, CClient, CRealm]
      [SVal (Key r), SVal (OwnerID r), SVal (ClientID r), SVal realm]) t =
    (case table_get e t (record_index e realm r) of
       None \<Rightarrow> [] | Some row \<Rightarrow> if client_is e (ClientID r) row then [row] else [])"
proof -
  have w: "where_holds e [CKey, COwner, CClient, CRealm]
      [SVal (Key r), SVal (OwnerID r), SVal (ClientID r), SVal realm] =
    (\<lambda>row. row_index e row = Some (record_index e realm r) \<and> client_is e (ClientID r) row)"
    by (rule ext) (rule where_key)
  show ?thesis unfolding w by (rule filter_index_and) (use assms in \<open>simp add: table_ok_def\<close>)
qed

section \<open>Each operation on the table\<close>

definition selected_columns :: "column list" where
  "selected_columns = [CKey, CValue, CContentType, CScopes]"

definition view_row :: "engine \<Rightarrow> row \<Rightarrow> kv_record" where
  "view_row e row = scan_row e (map row selected_columns)"

lemma view_row_record:
  assumes "engine_ok e" and "Value r = Some b" and "b \<noteq> []"
  shows "view_row e (record_row e realm r) =
    empty_record\<lparr>Key := Key r, Value := Some b, ContentType := ContentType r,
      RequiredScopes := RequiredScopes r\<rparr>"
  using assms by (simp add: view_row_def selected_columns_def scan_row_def Let_def scan_blob_def
      bind_blob_def engine_ok_def)

lemma Get_key_ready:
  assumes "engine_ok e" and "table_ok e (db_rows d)" and "kv_ready kv" and "Collection r = None"
    and "\<not> eng_fault e (db_calls d)" and "\<not> eng_rows_fault e (db_calls d)"
  shows "Get e WReady kv realm r d =
    (Inr (case table_get e (db_rows d) (record_index e realm r) of
        None \<Rightarrow> []
      | Some row \<Rightarrow> if client_is e (ClientID r) row then [view_row e row] else []), db_tick d)"
  using assms(4-6) Stmt_ready [OF assms(3)] filter_where_key [OF assms(2), of r realm]
  by (simp add: Get_def sql_exec_def Let_def select_where_def eng_order_short [OF assms(1)]
      view_row_def selected_columns_def split: option.split)

lemma sql_exec_replace:
  assumes "\<not> eng_fault e (db_calls d)"
  shows "sql_exec e (preparedStmts stmtIDCreateOrUpdate) (record_args e realm r) d =
    (if storable e r then
       (Inr (Result (eng_last_id e)
          (eng_affected e (length (filter (\<lambda>s. conflicts e s (record_row e realm r)) (db_rows d))) 1)),
        (db_tick d)\<lparr>db_rows := table_put e (record_row e realm r) (db_rows d)\<rparr>)
     else (Inl (NotNull CValue), db_tick d))"
  using assms
  by (simp add: sql_exec_def Let_def not_null_columns_def table_put_def row_ok_def storable_def
      flip: record_row_def)

lemma table_put_not_storable: "\<not> storable e r \<Longrightarrow> table_put e (record_row e realm r) t = t"
  by (simp add: table_put_def)

lemma CreateOrUpdate_ready:
  assumes "engine_ok e" and "kv_ready kv" and "\<not> eng_fault e (db_calls d)"
  shows "CreateOrUpdate e WReady kv realm r d =
    (if \<not> storable e r then Inl (SqlError (NotNull CValue))
     else if eng_last_id e then Inr () else Inl LastInsertIdUnknown,
     (db_tick d)\<lparr>db_rows := table_put e (record_row e realm r) (db_rows d)\<rparr>)"
proof -
  obtain k where "eng_affected e (length (filter (\<lambda>s. conflicts e s (record_row e realm r)) (db_rows d))) 1 = Some k"
    using eng_affected_Some [OF assms(1)] by blast
  then show ?thesis
    using sql_exec_replace [OF assms(3), of realm r] Stmt_ready [OF assms(2)]
    by (simp add: CreateOrUpdate_def table_put_not_storable)
qed

lemma KV_Delete_ready:
  assumes "engine_ok e" and "table_ok e (db_rows d)" and "kv_ready kv"
    and "\<not> eng_fault e (db_calls d)"
  shows "KV_Delete e WReady kv realm r d =
    (Inr (case table_get e (db_rows d) (record_index e realm r) of
        None \<Rightarrow> False | Some row \<Rightarrow> client_is e (ClientID r) row),
     (db_tick d)\<lparr>db_rows := table_del e (record_index e realm r) (client_is e (ClientID r)) (db_rows d)\<rparr>)"
proof -
  let ?n = "length (filter (where_holds e [CKey, COwner, CClient, CRealm]
    [SVal (Key r), SVal (OwnerID r), SVal (ClientID r), SVal realm]) (db_rows d))"
  obtain k where k: "eng_affected e ?n 0 = Some k" and k0: "k = 0 \<longleftrightarrow> ?n + 0 = 0"
    using eng_affected_Some [OF assms(1)] by blast
  have "0 < k \<longleftrightarrow> (case table_get e (db_rows d) (record_index e realm r) of
      None \<Rightarrow> False | Some row \<Rightarrow> client_is e (ClientID r) row)"
    using k0 by (auto simp: filter_where_key [OF assms(2)] split: option.splits if_splits)
  then show ?thesis
    using assms(4) Stmt_ready [OF assms(3)] k
    by (simp add: KV_Delete_def sql_exec_def Let_def table_del_def delete_where_def where_key)
qed

section \<open>The batch loop\<close>

definition faultless :: "engine \<Rightarrow> nat \<Rightarrow> nat \<Rightarrow> bool" where
  "faultless e n k \<longleftrightarrow> list_all (\<lambda>i. \<not> eng_fault e i) [n ..< n + k]"

lemma faultless_Suc: "faultless e n (Suc k) \<longleftrightarrow> \<not> eng_fault e n \<and> faultless e (Suc n) k"
  by (simp add: faultless_def upt_conv_Cons del: upt_Suc)

lemma faultless_add: "faultless e n (i + k) \<longleftrightarrow> faultless e n i \<and> faultless e (n + i) k"
  by (induction i arbitrary: n) (simp_all add: faultless_Suc faultless_def [of _ _ 0])

text \<open>Without faults the loop puts every record, and counts at least one row for each.\<close>

lemma batch_loop_ready:
  assumes "engine_ok e" and "list_all (storable e) rs" and "faultless e (db_calls d) (length rs)"
  shows "\<exists>n \<ge> acc + length rs. batch_loop e realm rs acc d =
    (Inr n, d\<lparr>db_rows := fold (table_put e) (map (record_row e realm) rs) (db_rows d),
       db_calls := db_calls d + length rs\<rparr>)"
  using assms(2,3)
proof (induction rs arbitrary: acc d)
  case Nil
  then show ?case by simp
next
  case (Cons r rs)
  let ?d = "(db_tick d)\<lparr>db_rows := table_put e (record_row e realm r) (db_rows d)\<rparr>"
  let ?c = "length (filter (\<lambda>s. conflicts e s (record_row e realm r)) (db_rows d))"
  obtain k where k: "eng_affected e ?c 1 = Some k" and k0: "k = 0 \<longleftrightarrow> ?c + 1 = 0"
    using eng_affected_Some [OF assms(1), of ?c 1] by (elim exE conjE) (rule that)
  have "faultless e (db_calls ?d) (length rs)" using Cons.prems by (simp add: faultless_Suc)
  moreover have "list_all (storable e) rs" using Cons.prems by simp
  ultimately obtain n where
    n: "acc + k + length rs \<le> n" "batch_loop e realm rs (acc + k) ?d =
      (Inr n, ?d\<lparr>db_rows := fold (table_put e) (map (record_row e realm) rs) (db_rows ?d),
       db_calls := db_calls ?d + length rs\<rparr>)" using Cons.IH [of ?d "acc + k"] by blast
  have "sql_exec e (preparedStmts stmtIDCreateOrUpdate) (record_args e realm r) d =
      (Inr (Result (eng_last_id e) (Some k)), ?d)"
    using sql_exec_replace [of e d realm r] Cons.prems k by (simp add: faultless_Suc)
  then show ?case using n k0 by (intro exI [of _ n]) (simp add: db_tick_def)
qed

lemma batch_loop_error:
  "fst (batch_loop e realm rs acc d) = Inl x \<Longrightarrow>
     \<exists>i < length rs. eng_fault e (db_calls d + i) \<or> \<not> storable e (rs ! i)"
proof (induction rs arbitrary: acc d)
  case (Cons r rs)
  show ?case
  proof (cases "eng_fault e (db_calls d) \<or> \<not> storable e r")
    case True
    then show ?thesis by (intro exI [of _ 0]) auto
  next
    case False
    let ?d = "snd (sql_exec e (preparedStmts stmtIDCreateOrUpdate) (record_args e realm r) d)"
    have "\<exists>a. fst (batch_loop e realm rs a ?d) = Inl x"
      using Cons.prems False sql_exec_replace [of e d realm r]
      by (auto split: option.splits)
    then obtain i where "i < length rs" "eng_fault e (db_calls ?d + i) \<or> \<not> storable e (rs ! i)"
      using Cons.IH by blast
    then show ?thesis by (intro exI [of _ "Suc i"]) (simp add: sql_exec_calls)
  qed
qed simp

lemma BatchCreateOrUpdate_ready:
  assumes "engine_ok e" and "kv_db kv" and "rs \<noteq> []" and "list_all (storable e) rs"
    and "faultless e (db_calls d) (length rs + 3)"
  shows "BatchCreateOrUpdate e kv realm rs d = Returns (Inr (),
    d\<lparr>db_rows := fold (table_put e) (map (record_row e realm) rs) (db_rows d),
      db_calls := db_calls d + length rs + 3\<rparr>)"
proof -
  let ?d = "db_tick (db_tick d)"
  have f: "\<not> eng_fault e (db_calls d)" "\<not> eng_fault e (Suc (db_calls d))"
    "faultless e (db_calls ?d) (length rs)" "\<not> eng_fault e (db_calls ?d + length rs)"
    using assms(5) faultless_add [of e "db_calls ?d" "length rs" 1]
    by (simp_all add: faultless_Suc numeral_3_eq_3)
  obtain n where "length rs \<le> n" and "batch_loop e realm rs 0 ?d =
    (Inr n, ?d\<lparr>db_rows := fold (table_put e) (map (record_row e realm) rs) (db_rows ?d),
       db_calls := db_calls ?d + length rs\<rparr>)"
    using batch_loop_ready [OF assms(1,4) f(3), of 0 realm] by auto
  then show ?thesis
    using assms(2,3) f by (cases n) (simp_all add: BatchCreateOrUpdate_def db_tick_def)
qed

lemma BatchCreateOrUpdate_error_unchanged:
  assumes "BatchCreateOrUpdate e kv realm rs d = Returns (Inl x, d')"
  shows "db_rows d' = db_rows d"
  using assms
  by (auto simp: BatchCreateOrUpdate_def rollback_def split: if_splits prod.splits sum.splits)

end
