(* ===== verification/Systems.thy ===== *)
theory Systems
  imports Main
begin

text \<open>
  Transition systems, the interface of the step relations of the development: what is proved of one step
  holds in every state that can be reached, a rank that every step lowers bounds the runs, and a system that
  can always move until it is finished does finish. The relations themselves, with their invariants, are in
  \<open>KV_Lifecycle\<close>, \<open>Server_Life\<close> and \<open>Pubs_System\<close>.
\<close>

section \<open>Invariants\<close>

locale transition_system =
  fixes start :: "'s \<Rightarrow> bool"
    and step :: "'s \<Rightarrow> 's \<Rightarrow> bool"
    and inv :: "'s \<Rightarrow> bool"
  assumes inv_start: "start s \<Longrightarrow> inv s"
    and inv_step: "step s t \<Longrightarrow> inv s \<Longrightarrow> inv t"
begin

lemma inv_steps: "step\<^sup>*\<^sup>* s t \<Longrightarrow> inv s \<Longrightarrow> inv t"
  by (induction rule: rtranclp_induct) (auto intro: inv_step)

lemma inv_reach: "start s \<Longrightarrow> step\<^sup>*\<^sup>* s t \<Longrightarrow> inv t"
  by (blast intro: inv_start inv_steps)

end

section \<open>Runs that end\<close>

locale ranked_system = transition_system +
  fixes rank :: "'s \<Rightarrow> nat"
  assumes rank_step: "step s t \<Longrightarrow> inv s \<Longrightarrow> rank t < rank s"
begin

lemma rank_steps:
  assumes "(step ^^ n) s t" and "inv s"
  shows "n + rank t \<le> rank s"
  using assms(1)
proof (induction n arbitrary: t)
  case (Suc n)
  then obtain u where u: "(step ^^ n) s u" "step u t" by auto
  then have "inv u" using inv_steps assms(2) by (blast dest: relpowp_imp_rtranclp)
  then show ?case using Suc.IH [OF u(1)] rank_step [OF u(2)] by linarith
qed simp

lemma run_bounded: "start s \<Longrightarrow> (step ^^ n) s t \<Longrightarrow> n \<le> rank s"
  using rank_steps inv_start by fastforce

text \<open>Every run can be continued to a state in which nothing moves any more.\<close>

lemma run_ends: "inv s \<Longrightarrow> \<exists>t. step\<^sup>*\<^sup>* s t \<and> inv t \<and> (\<nexists>u. step t u)"
proof (induction "rank s" arbitrary: s rule: less_induct)
  case less
  show ?case
  proof (cases "\<exists>u. step s u")
    case True
    then obtain u where u: "step s u" by blast
    then show ?thesis using less.hyps [OF rank_step [OF u less.prems] inv_step [OF u less.prems]]
      by (blast intro: converse_rtranclp_into_rtranclp)
  qed (use less.prems in blast)
qed

end

section \<open>Runs that finish\<close>

locale finishing_system = ranked_system +
  fixes final :: "'s \<Rightarrow> bool"
  assumes progress: "inv s \<Longrightarrow> \<not> final s \<Longrightarrow> \<exists>t. step s t"
begin

lemma finishes: "inv s \<Longrightarrow> \<exists>t. step\<^sup>*\<^sup>* s t \<and> final t"
  using run_ends progress by blast

text \<open>A run that is as long as the rank of its start has finished.\<close>

lemma long_run_final:
  assumes "(step ^^ n) s t" and "inv s" and "rank s \<le> n"
  shows "final t"
proof (rule ccontr)
  assume "\<not> final t"
  moreover have "inv t" using assms(1,2) inv_steps by (blast dest: relpowp_imp_rtranclp)
  ultimately obtain u where u: "step t u" using progress by blast
  then have "(step ^^ Suc n) s u" using assms(1) by auto
  then show False using rank_steps [OF _ assms(2), of "Suc n" u] assms(3) by linarith
qed

end

end
