(* ===== verification/KV_Lifecycle.thy ===== *)
theory KV_Lifecycle
  imports KV_Store_Facts Systems
begin

text \<open>
  The goroutine that \<open>Initialize\<close> of \<open>src/plugins/kvs/plugin.go\<close> starts, which tries to initialise the
  store until that succeeds, and \<open>Close\<close> of the plugin and of the store beside it, as a step
  relation. The goroutine may be interrupted between any two of its regions.
\<close>

section \<open>The steps\<close>

datatype loop_pc = Running init_pc | Waiting | Stopped

record kvs_sys =
  sys_kv :: kv_state
  sys_loop :: loop_pc
  sys_quit :: bool
  sys_ctx :: bool

text \<open>The goroutine: a region of \<open>Initialize\<close>, what follows its return, and the ends of the
  \<open>select\<close>.\<close>

inductive loop_step :: "kvs_sys \<Rightarrow> kvs_sys \<Rightarrow> bool" where
  init: "sys_loop s = Running pc \<Longrightarrow> pc \<notin> range Returned \<Longrightarrow>
    init_step ok (sys_kv s, pc) = Returns (kv', pc') \<Longrightarrow>
    loop_step s (s\<lparr>sys_kv := kv', sys_loop := Running pc'\<rparr>)"
| failed: "sys_loop s = Running (Returned (Some e)) \<Longrightarrow> loop_step s (s\<lparr>sys_loop := Waiting\<rparr>)"
| complete: "sys_loop s = Running (Returned None) \<Longrightarrow> loop_step s (s\<lparr>sys_loop := Stopped\<rparr>)"
| retry: "sys_loop s = Waiting \<Longrightarrow> loop_step s (s\<lparr>sys_loop := Running Starting\<rparr>)"
| quit: "sys_loop s = Waiting \<Longrightarrow> sys_quit s \<Longrightarrow> loop_step s (s\<lparr>sys_loop := Stopped\<rparr>)"
| expired: "sys_loop s = Waiting \<Longrightarrow> sys_ctx s \<Longrightarrow> loop_step s (s\<lparr>sys_loop := Stopped\<rparr>)"

text \<open>The others: the server's context ends, and \<open>KVSPlugin.Close\<close> closes its channel, then the
  store.\<close>

inductive close_step :: "kvs_sys \<Rightarrow> kvs_sys \<Rightarrow> bool" where
  ctx: "close_step s (s\<lparr>sys_ctx := True\<rparr>)"
| plugin: "\<not> sys_quit s \<Longrightarrow> close_step s (s\<lparr>sys_quit := True\<rparr>)"
| store: "sys_quit s \<Longrightarrow> KV_Close (sys_kv s) = Returns kv' \<Longrightarrow> close_step s (s\<lparr>sys_kv := kv'\<rparr>)"

definition kvs_step :: "kvs_sys \<Rightarrow> kvs_sys \<Rightarrow> bool" where
  "kvs_step s t \<longleftrightarrow> loop_step s t \<or> close_step s t"

definition kvs_start :: "kv_state \<Rightarrow> kvs_sys" where
  "kvs_start kv = \<lparr>sys_kv = kv, sys_loop = Running Starting, sys_quit = False, sys_ctx = False\<rparr>"

inductive_cases loop_stepE: "loop_step s t"
inductive_cases close_stepE: "close_step s t"

section \<open>The invariant\<close>

definition sys_inv :: "kvs_sys \<Rightarrow> bool" where
  "sys_inv s \<longleftrightarrow>
     (kv_db (sys_kv s) \<longleftrightarrow> kv_initializing (sys_kv s) \<and> \<not> kv_quit (sys_kv s)) \<and>
     (kv_db (sys_kv s) \<longrightarrow> kv_ready (sys_kv s)) \<and>
     (\<not> kv_db (sys_kv s) \<longrightarrow> kv_stmts (sys_kv s) = Map.empty) \<and>
     (kv_initializing (sys_kv s) \<longrightarrow> sys_loop s \<in> {Running (Returned None), Stopped}) \<and>
     (kv_quit (sys_kv s) \<longrightarrow> sys_quit s)"

lemma sys_inv_start: "New dr ds base = Inr kv \<Longrightarrow> sys_inv (kvs_start kv)"
  by (auto simp: New_def Let_def sys_inv_def kvs_start_def split: if_splits)

lemma finish_initialize_cases:
  assumes "\<not> kv_initializing kv"
  obtains (quit) "kv_quit kv" "finish_initialize ok kv = Returns (kv\<lparr>kv_migrate := False\<rparr>, Returned None)"
  | (error) "\<not> kv_quit kv" "\<not> ok"
      "finish_initialize ok kv = Returns (kv\<lparr>kv_migrate := False\<rparr>, Returned (Some PrepareFailed))"
  | (ready) "\<not> kv_quit kv" "ok"
      "finish_initialize ok kv = Returns (kv\<lparr>kv_migrate := False, kv_db := True,
         kv_stmts := (\<lambda>id. Some (preparedStmts id)), kv_initializing := True\<rparr>, Returned None)"
  using assms by (cases "kv_quit kv"; cases ok)
    (simp_all add: finish_initialize_def prepareStmts_eq(2) Let_def)

text \<open>Until the last region a run of \<open>Initialize\<close> changes neither the channels nor the database.\<close>

lemma init_step_frame:
  assumes "init_step ok (kv, pc) = Returns (kv', pc')" and "pc \<noteq> Finishing"
  shows "kv_db kv' = kv_db kv" "kv_initializing kv' = kv_initializing kv" "kv_quit kv' = kv_quit kv"
    "kv_stmts kv' = kv_stmts kv" "kv_driver kv' = kv_driver kv"
  using assms by (cases pc; auto split: if_splits)+

lemma sys_inv_loop:
  assumes "loop_step s t" and "sys_inv s"
  shows "sys_inv t"
  using assms
proof (induction rule: loop_step.induct)
  case (init s pc ok kv' pc')
  have ni: "\<not> kv_initializing (sys_kv s)" using init by (auto simp: sys_inv_def)
  show ?case
  proof (cases "pc = Finishing")
    case True
    have f: "finish_initialize ok (sys_kv s) = Returns (kv', pc')" using init True by simp
    show ?thesis using ni
      by (cases rule: finish_initialize_cases [of "sys_kv s" ok])
        (use f init in \<open>auto simp: sys_inv_def kv_ready_def\<close>)
  next
    case False
    then show ?thesis using init_step_frame [OF init(3)] init ni
      by (auto simp: sys_inv_def kv_ready_def)
  qed
qed (auto simp: sys_inv_def)

lemma sys_inv_close:
  assumes "close_step s t" and "sys_inv s"
  shows "sys_inv t"
  using assms
  by (induction rule: close_step.induct)
    (auto simp: sys_inv_def KV_Close_def Let_def split: if_splits option.splits)

interpretation kvs: transition_system "\<lambda>s. \<exists>dr ds base kv. New dr ds base = Inr kv \<and> s = kvs_start kv" kvs_step sys_inv
  by unfold_locales (auto simp: kvs_step_def intro: sys_inv_start sys_inv_loop sys_inv_close)

text \<open>A run of \<open>Initialize\<close> is a run of the goroutine.\<close>

lemma run_init_Returned: "run_init oks (kv, Returned e) = Returns (kv, Returned e)"
  by (induction oks) simp_all

lemma run_init_steps:
  assumes "run_init oks (kv, pc) = Returns (kv', pc')"
  shows "kvs_step\<^sup>*\<^sup>* (s\<lparr>sys_kv := kv, sys_loop := Running pc\<rparr>)
    (s\<lparr>sys_kv := kv', sys_loop := Running pc'\<rparr>)"
  using assms
proof (induction oks arbitrary: kv pc)
  case (Cons ok oks)
  show ?case
  proof (cases "pc \<in> range Returned")
    case True
    then show ?thesis using Cons.prems by (auto simp: run_init_Returned)
  next
    case False
    obtain kv1 pc1 where one: "init_step ok (kv, pc) = Returns (kv1, pc1)"
      and rest: "run_init oks (kv1, pc1) = Returns (kv', pc')"
      using Cons.prems by (auto simp: obind_eq_Returns)
    have "loop_step (s\<lparr>sys_kv := kv, sys_loop := Running pc\<rparr>)
        ((s\<lparr>sys_kv := kv, sys_loop := Running pc\<rparr>)\<lparr>sys_kv := kv1, sys_loop := Running pc1\<rparr>)"
      by (rule loop_step.init [OF _ False]) (use one in simp_all)
    then have "kvs_step (s\<lparr>sys_kv := kv, sys_loop := Running pc\<rparr>)
        (s\<lparr>sys_kv := kv1, sys_loop := Running pc1\<rparr>)" by (simp add: kvs_step_def)
    then show ?thesis using Cons.IH [OF rest] by (rule converse_rtranclp_into_rtranclp)
  qed
qed simp

text \<open>A handle of SQLite3, as it is created and when it is ready.\<close>

definition sample_kv :: kv_state where
  "sample_kv = \<lparr>kv_driver = ''sqlite3'', kv_datasource = ''kv.db'',
     kv_migrations = ''file://./plugins/kvs/kv/migrations/sqlite3'', kv_quit = False,
     kv_initializing = False, kv_cancel = None, kv_migrate = False, kv_stop = False, kv_db = False,
     kv_stmts = Map.empty\<rparr>"

definition ready_kv :: kv_state where
  "ready_kv = sample_kv\<lparr>kv_cancel := Some False, kv_db := True, kv_initializing := True,
     kv_stmts := (\<lambda>i. Some (preparedStmts i))\<rparr>"

lemma sample_kv_New: "New [] ''kv.db'' [] = Inr sample_kv"
  by (simp add: New_def sample_kv_def driverNameSQLite3_def Let_def)

lemma ready_kv_ready: "kv_ready ready_kv"
  by (simp add: kv_ready_def ready_kv_def)

lemma ready_kv_run: "run_init (replicate 9 True) (sample_kv, Starting) = Returns (ready_kv, Returned None)"
  by (simp add: numeral_eq_Suc sample_kv_def ready_kv_def driverNameSQLite3_def finish_initialize_def
      prepareStmts_eq(2) Let_def)

lemma ready_kv_reachable:
  "kvs_step\<^sup>*\<^sup>* (kvs_start sample_kv) (kvs_start sample_kv\<lparr>sys_kv := ready_kv, sys_loop := Running (Returned None)\<rparr>)"
  using run_init_steps [OF ready_kv_run, of "kvs_start sample_kv"] by (simp add: kvs_start_def)

section \<open>Properties\<close>

text \<open>C7: in every reachable state, whatever the interleaving of the initialising goroutine and the
  closing of the plugin, the handle has a database exactly when it was initialised and not closed;
  then all four statements are prepared, and otherwise none.\<close>

theorem handle_consistent:
  assumes "New dr ds base = Inr kv" and "kvs_step\<^sup>*\<^sup>* (kvs_start kv) s"
  shows "(kv_db (sys_kv s) \<longleftrightarrow> kv_initializing (sys_kv s) \<and> \<not> kv_quit (sys_kv s)) \<and>
    (kv_stmts (sys_kv s) = (if kv_db (sys_kv s) then (\<lambda>i. Some (preparedStmts i)) else Map.empty))"
proof -
  have "sys_inv s" using assms kvs.inv_reach by blast
  moreover have "kv_stmts k = (\<lambda>i. Some (preparedStmts i))" if "kv_ready k" for k
  proof
    fix i show "kv_stmts k i = Some (preparedStmts i)" using that by (cases i) (simp_all add: kv_ready_def)
  qed
  ultimately show ?thesis by (simp add: sys_inv_def)
qed

theorem handle_consistent_witness: "kv_db ready_kv \<and> kv_initializing ready_kv \<and> \<not> kv_quit ready_kv"
  using handle_consistent [OF sample_kv_New ready_kv_reachable]
  by (simp add: ready_kv_def sample_kv_def)

text \<open>C8: no interleaving makes the initialising goroutine close its channel twice: none of its
  regions panics in a reachable state, and it is never stuck before it has stopped.\<close>

theorem initialize_never_panics:
  assumes "New dr ds base = Inr kv" and "kvs_step\<^sup>*\<^sup>* (kvs_start kv) s"
  shows "(sys_loop s = Stopped \<or> (\<exists>t. loop_step s t)) \<and>
    (\<forall>pc ok. sys_loop s = Running pc \<longrightarrow> returns (init_step ok (sys_kv s, pc)))"
proof -
  have inv: "sys_inv s" using assms kvs.inv_reach by blast
  have r: "returns (init_step ok (sys_kv s, pc))" if "sys_loop s = Running pc" for ok pc
  proof (cases "pc = Finishing")
    case True
    then have "\<not> kv_initializing (sys_kv s)" using inv that by (auto simp: sys_inv_def)
    then show ?thesis
      by (cases rule: finish_initialize_cases [of "sys_kv s" ok]) (use True in simp_all)
  next
    case False
    then show ?thesis by (cases pc) auto
  qed
  have "sys_loop s = Stopped \<or> (\<exists>t. loop_step s t)"
  proof (cases "sys_loop s")
    case (Running pc)
    show ?thesis
    proof (cases "pc \<in> range Returned")
      case True
      then obtain e where "pc = Returned e" by auto
      then show ?thesis using Running loop_step.failed loop_step.complete by (cases e) blast+
    next
      case False
      obtain kv' pc' where "init_step True (sys_kv s, pc) = Returns (kv', pc')"
        using r [OF Running, of True] by (cases "init_step True (sys_kv s, pc)") auto
      then show ?thesis using loop_step.init [OF Running False] by blast
    qed
  qed (use loop_step.retry in blast)+
  then show ?thesis using r by blast
qed

theorem initialize_never_panics_witness:
  "(\<exists>t. loop_step (kvs_start sample_kv) t) \<and> returns (init_step True (sample_kv, Starting))"
  using initialize_never_panics [OF sample_kv_New rtranclp.rtrancl_refl] by (simp add: kvs_start_def)

text \<open>How far the goroutine is from stopping once the store is closed.\<close>

fun loop_left :: "loop_pc \<Rightarrow> nat" where
  "loop_left Stopped = 0"
| "loop_left (Running (Returned None)) = 1"
| "loop_left (Running Starting) = 2"
| "loop_left Waiting = 3"
| "loop_left (Running (Returned (Some e))) = 4"
| "loop_left (Running Finishing) = 5"
| "loop_left (Running Migrating) = 6"
| "loop_left (Running ReadingVersion) = 7"
| "loop_left (Running Installing) = 8"
| "loop_left (Running LoadingMigrations) = 9"
| "loop_left (Running MakingDriver) = 10"
| "loop_left (Running Pinging) = 11"
| "loop_left (Running Opening) = 12"

lemma loop_left_le: "loop_left p \<le> 12"
  by (cases p rule: loop_left.cases) simp_all

lemma loop_step_closed:
  assumes "loop_step s t" and "kv_quit (sys_kv s)"
  shows "kv_quit (sys_kv t)" and "Suc (loop_left (sys_loop t)) \<le> loop_left (sys_loop s)"
  using assms
proof (induction rule: loop_step.induct)
  case (init s pc ok kv' pc')
  { case 1
    then show ?case using init
      by (cases pc) (auto simp: finish_initialize_def Let_def split: if_splits)
  next
    case 2
    then show ?case using init
      by (cases pc) (auto simp: finish_initialize_def Let_def split: if_splits)
  }
qed simp_all

text \<open>A closed store is a system that finishes: the goroutine can always go on until it has stopped.\<close>

lemma init_step_closed: "kv_quit kv \<Longrightarrow> returns (init_step ok (kv, pc))"
  by (cases pc) (simp_all add: finish_initialize_def Let_def)

lemma loop_step_progress:
  assumes "kv_quit (sys_kv s)" and "sys_loop s \<noteq> Stopped"
  shows "\<exists>t. loop_step s t"
proof (cases "sys_loop s")
  case (Running pc)
  show ?thesis
  proof (cases "pc \<in> range Returned")
    case True
    then obtain e where "pc = Returned e" by auto
    then show ?thesis using Running loop_step.failed loop_step.complete by (cases e) blast+
  next
    case False
    obtain kv' pc' where "init_step True (sys_kv s, pc) = Returns (kv', pc')"
      using init_step_closed [OF assms(1), of True pc] by (cases "init_step True (sys_kv s, pc)") auto
    then show ?thesis using loop_step.init [OF Running False] by blast
  qed
qed (use assms loop_step.retry in blast)+

interpretation closed: finishing_system "\<lambda>s. kv_quit (sys_kv s)" loop_step "\<lambda>s. kv_quit (sys_kv s)" "\<lambda>s. loop_left (sys_loop s)"
  "\<lambda>s. sys_loop s = Stopped"
  by unfold_locales (use loop_step_closed loop_step_progress in \<open>auto simp: Suc_le_eq\<close>)

text \<open>C9: once the store is closed the goroutine stops within twelve of its steps, whatever the
  outside calls answer: no run is longer, and one that cannot go on has stopped.\<close>

theorem initialize_stops_after_close:
  assumes "kv_quit (sys_kv s)" and "(loop_step ^^ n) s t"
  shows "n + loop_left (sys_loop t) \<le> 12 \<and> (sys_loop t = Stopped \<or> (\<exists>u. loop_step t u))"
proof -
  have "kv_quit (sys_kv t)" using closed.inv_steps assms relpowp_imp_rtranclp by fast
  then show ?thesis
    using closed.rank_steps [OF assms(2,1)] loop_left_le [of "sys_loop s"] closed.progress by fastforce
qed

theorem initialize_stops_after_close_witness:
  "\<exists>(s :: kvs_sys) (t :: kvs_sys). kv_quit (sys_kv s) \<and> sys_loop s = Waiting \<and> sys_loop t = Running Starting \<and>
     1 + loop_left (sys_loop t) \<le> 12"
proof -
  let ?s = "(kvs_start (sample_kv\<lparr>kv_quit := True\<rparr>))\<lparr>sys_loop := Waiting\<rparr>"
  have "(loop_step ^^ 1) ?s (?s\<lparr>sys_loop := Running Starting\<rparr>)"
    using loop_step.retry [of ?s] by (simp add: eq_OO)
  from initialize_stops_after_close [OF _ this]
  have "kv_quit (sys_kv ?s) \<and> sys_loop ?s = Waiting \<and>
      sys_loop (?s\<lparr>sys_loop := Running Starting\<rparr>) = Running Starting \<and>
      1 + loop_left (sys_loop (?s\<lparr>sys_loop := Running Starting\<rparr>)) \<le> 12"
    by (simp add: kvs_start_def)
  then show ?thesis by blast
qed

text \<open>With nothing in between and every outside call succeeding, nine regions take a new handle
  to the ready state, for both supported drivers and no other.\<close>

lemma initialize_run:
  assumes "New dr ds base = Inr kv"
  shows "\<exists>kv'. run_init (replicate 9 True) (kv, Starting) = Returns (kv', Returned
      (if kv_driver kv \<in> {driverNameSQLite3, driverNameMySQL} then None else Some UnsupportedDatabase)) \<and>
    (kv_ready kv' \<longleftrightarrow> kv_driver kv \<in> {driverNameSQLite3, driverNameMySQL})"
  using assms
  by (auto simp: New_def Let_def numeral_eq_Suc finish_initialize_def prepareStmts_eq(2) kv_ready_def
      split: if_splits)

end
