(* ===== verification/KV_Migrations.thy ===== *)
theory KV_Migrations
  imports KV_Lifecycle
begin

text \<open>
  The migrations of the store (\<open>src/plugins/kvs/kv/migrations\<close>), the logger that the migration library is
  given (\<open>src/plugins/kvs/kv/logger.go\<close>), and how the tables that they make fit the prepared statements and
  the table of \<open>KV_Table\<close>.

  The migration library (\<open>github.com/golang-migrate/migrate\<close>) is not part of the sources. Its \<open>Up\<close> is a
  parameter, and \<open>migrate_ok\<close> states what it documents: without an error it has applied the migrations
  after the version that the database had, in order.
\<close>

section \<open>The migration files\<close>

text \<open>The statements of the files. \<open>CreateIndex unique name table columns\<close>; both \<open>DROP\<close> statements have
  \<open>IF EXISTS\<close>.\<close>

datatype sql_type = TInteger | TText | TBlob | TVarchar nat

datatype key_kind = NoKey | PrimaryAsc | PrimaryAutoIncrement

record column_def =
  cd_name :: string
  cd_type :: sql_type
  cd_not_null :: bool
  cd_key :: key_kind

datatype ddl =
    CreateTable string "column_def list"
  | CreateIndex bool string string "string list"
  | DropTable string
  | DropIndex string

definition plain_column :: "string \<Rightarrow> sql_type \<Rightarrow> column_def" where
  "plain_column n t = \<lparr>cd_name = n, cd_type = t, cd_not_null = False, cd_key = NoKey\<rparr>"

definition needed_column :: "string \<Rightarrow> sql_type \<Rightarrow> column_def" where
  "needed_column n t = (plain_column n t)\<lparr>cd_not_null := True\<rparr>"

definition id_column :: "key_kind \<Rightarrow> column_def" where
  "id_column k = (plain_column ''id'' TInteger)\<lparr>cd_key := k\<rparr>"

definition create_idx_get :: ddl where
  "create_idx_get = CreateIndex False ''idx_get'' ''kv'' [''ekey'', ''owner_id'', ''client_id'', ''realm'']"

definition create_idx_no_dup :: ddl where
  "create_idx_no_dup = CreateIndex True ''idx_no_dup'' ''kv'' [''ekey'', ''owner_id'', ''realm'']"

definition create_idx_collection :: ddl where
  "create_idx_collection = CreateIndex False ''idx_collection'' ''kv'' [''collection'', ''owner_id'', ''realm'']"

definition sqlite3_001_up :: "ddl list" where
  "sqlite3_001_up =
     [CreateTable ''kv''
        [id_column PrimaryAsc,
         plain_column ''collection'' TText,
         needed_column ''ekey'' TText,
         needed_column ''value'' TBlob,
         plain_column ''content_type'' TText,
         plain_column ''owner_id'' TText,
         plain_column ''client_id'' TText,
         needed_column ''realm'' TText,
         plain_column ''required_scopes'' TText],
      create_idx_get, create_idx_no_dup, create_idx_collection]"

definition sqlite3_001_down :: "ddl list" where
  "sqlite3_001_down = [DropTable ''kv'', DropIndex ''idx_get'', DropIndex ''idx_no_dup'', DropIndex ''idx_collection'']"

definition mysql_001_up :: "ddl list" where
  "mysql_001_up =
     [CreateTable ''kv''
        [id_column PrimaryAutoIncrement,
         plain_column ''collection'' (TVarchar 128),
         needed_column ''ekey'' (TVarchar 255),
         needed_column ''value'' TBlob,
         plain_column ''content_type'' TText,
         plain_column ''owner_id'' (TVarchar 128),
         plain_column ''client_id'' (TVarchar 128),
         needed_column ''realm'' (TVarchar 64),
         plain_column ''required_scopes'' TText]]"

definition mysql_002_up :: "ddl list" where "mysql_002_up = [create_idx_get]"
definition mysql_003_up :: "ddl list" where "mysql_003_up = [create_idx_no_dup]"
definition mysql_004_up :: "ddl list" where "mysql_004_up = [create_idx_collection]"

text \<open>The directories under a base path, by the URL that \<open>New\<close> makes of it and the driver's name: versions
  and up migrations.\<close>

type_synonym migrations = "(nat \<times> ddl list) list"

definition sqlite3_migrations :: migrations where
  "sqlite3_migrations = [(1, sqlite3_001_up)]"

definition mysql_migrations :: migrations where
  "mysql_migrations = [(1, mysql_001_up), (2, mysql_002_up), (3, mysql_003_up), (4, mysql_004_up)]"

definition shipped :: "string \<Rightarrow> string \<Rightarrow> migrations" where
  "shipped base url =
     (if url = ''file://'' @ base @ ''/sqlite3'' then sqlite3_migrations
      else if url = ''file://'' @ base @ ''/mysql'' then mysql_migrations
      else [])"

section \<open>What the statements do\<close>

text \<open>The tables with their columns, and the indices: whether unique, on which columns of which table.\<close>

record schema =
  sc_tables :: "string \<rightharpoonup> column_def list"
  sc_indices :: "(string \<times> bool \<times> string \<times> string list) list"

definition no_schema :: schema where
  "no_schema = \<lparr>sc_tables = Map.empty, sc_indices = []\<rparr>"

fun ddl_exec :: "ddl \<Rightarrow> schema \<Rightarrow> schema option" where
  "ddl_exec (CreateTable t cols) sc =
     (if sc_tables sc t \<noteq> None then None else Some (sc\<lparr>sc_tables := (sc_tables sc)(t \<mapsto> cols)\<rparr>))"
| "ddl_exec (CreateIndex u i t cs) sc =
     (case sc_tables sc t of
        None \<Rightarrow> None
      | Some cols \<Rightarrow>
          if i \<in> fst ` set (sc_indices sc) \<or> \<not> set cs \<subseteq> cd_name ` set cols then None
          else Some (sc\<lparr>sc_indices := sc_indices sc @ [(i, u, t, cs)]\<rparr>))"
| "ddl_exec (DropTable t) sc =
     Some (sc\<lparr>sc_tables := (sc_tables sc)(t := None),
       sc_indices := filter (\<lambda>(i, u, t', cs). t' \<noteq> t) (sc_indices sc)\<rparr>)"
| "ddl_exec (DropIndex i) sc = Some (sc\<lparr>sc_indices := filter (\<lambda>x. fst x \<noteq> i) (sc_indices sc)\<rparr>)"

fun ddl_run :: "ddl list \<Rightarrow> schema \<Rightarrow> schema option" where
  "ddl_run [] sc = Some sc"
| "ddl_run (d # ds) sc = (case ddl_exec d sc of None \<Rightarrow> None | Some sc' \<Rightarrow> ddl_run ds sc')"

lemma ddl_run_append: "ddl_run (ds @ es) sc = (case ddl_run ds sc of None \<Rightarrow> None | Some sc' \<Rightarrow> ddl_run es sc')"
  by (induction ds arbitrary: sc) (simp_all split: option.split)

section \<open>Running the migrations\<close>

text \<open>What the library keeps in the database: the version reached, none at first, and whether a migration
  was begun and not finished.\<close>

record migrated =
  mg_version :: "nat option"
  mg_dirty :: bool
  mg_schema :: schema

datatype up_result = UpDone | NoChange | UpFailed

definition pending :: "migrations \<Rightarrow> nat option \<Rightarrow> migrations" where
  "pending ms v = filter (\<lambda>m. case v of None \<Rightarrow> True | Some k \<Rightarrow> k < fst m) ms"

definition statements :: "migrations \<Rightarrow> ddl list" where
  "statements ms = concat (map snd ms)"

definition migrate_ok :: "(migrations \<Rightarrow> migrated \<Rightarrow> up_result \<times> migrated) \<Rightarrow> bool" where
  "migrate_ok up \<longleftrightarrow> (\<forall>ms m r m'. up ms m = (r, m') \<longrightarrow> r \<noteq> UpFailed \<longrightarrow>
     \<not> mg_dirty m' \<and> ddl_run (statements (pending ms (mg_version m))) (mg_schema m) = Some (mg_schema m') \<and>
     mg_version m' = (if pending ms (mg_version m) = [] then mg_version m
       else Some (fst (last (pending ms (mg_version m))))))"

text \<open>A database in which the first \<open>j\<close> migrations have run.\<close>

definition at_version :: "migrations \<Rightarrow> nat \<Rightarrow> migrated \<Rightarrow> bool" where
  "at_version ms j m \<longleftrightarrow> j \<le> length ms \<and> mg_version m = (if j = 0 then None else Some (fst (ms ! (j - 1)))) \<and>
     ddl_run (statements (take j ms)) no_schema = Some (mg_schema m)"

text \<open>With versions in ascending order the rest is what is pending.\<close>

lemma pending_rest:
  assumes "sorted_wrt (<) (map fst ms)" and "at_version ms j m"
  shows "pending ms (mg_version m) = drop j ms"
proof (cases j)
  case 0
  then show ?thesis using assms(2) by (simp add: at_version_def pending_def)
next
  case (Suc i)
  let ?p = "\<lambda>x. fst (ms ! i) < fst x"
  have i: "i < length ms" and v: "mg_version m = Some (fst (ms ! i))" using assms(2) Suc by (auto simp: at_version_def)
  have less: "fst (ms ! a) < fst (ms ! b)" if "a < b" "b < length ms" for a b
    using assms(1) that by (simp add: sorted_wrt_iff_nth_less)
  have old: "\<not> ?p x" if x: "x \<in> set (take (Suc i) ms)" for x
  proof -
    obtain k where k: "k \<le> i" "x = ms ! k" using x i by (auto simp: in_set_conv_nth less_Suc_eq_le)
    then show ?thesis using less [of k i] i by (cases "k = i") auto
  qed
  have young: "?p x" if x: "x \<in> set (drop (Suc i) ms)" for x
  proof -
    obtain k where k: "k < length ms - Suc i" "x = ms ! (Suc i + k)" using x by (auto simp: in_set_conv_nth)
    then show ?thesis using less [of i "Suc i + k"] by simp
  qed
  have "filter ?p ms = filter ?p (take (Suc i) ms) @ filter ?p (drop (Suc i) ms)"
    by (metis append_take_drop_id filter_append)
  also have "\<dots> = drop (Suc i) ms" using old young by (simp add: filter_empty_conv)
  finally show ?thesis using v Suc by (simp add: pending_def)
qed

text \<open>Hence \<open>Up\<close>, from whatever version, leads to what all migrations make together.\<close>

lemma up_completes:
  assumes "migrate_ok up" and "sorted_wrt (<) (map fst ms)" and "at_version ms j m"
    and "up ms m = (r, m')" and "r \<noteq> UpFailed"
  shows "at_version ms (length ms) m'"
proof -
  have rest: "pending ms (mg_version m) = drop j ms" by (rule pending_rest [OF assms(2,3)])
  have up: "ddl_run (statements (drop j ms)) (mg_schema m) = Some (mg_schema m')"
    "mg_version m' = (if drop j ms = [] then mg_version m else Some (fst (last (drop j ms))))"
    using assms(1,4,5) unfolding migrate_ok_def rest [symmetric] by blast+
  have "statements ms = statements (take j ms) @ statements (drop j ms)"
    by (simp add: statements_def flip: concat_append map_append)
  then have "ddl_run (statements ms) no_schema = Some (mg_schema m')"
    using assms(3) up(1) by (simp add: at_version_def ddl_run_append)
  moreover have "mg_version m' = (if length ms = 0 then None else Some (fst (ms ! (length ms - 1))))"
    using assms(3) up(2) by (auto simp: at_version_def last_conv_nth)
  ultimately show ?thesis by (simp add: at_version_def)
qed

section \<open>What the store needs of its schema\<close>

text \<open>The names of the columns, and what \<open>Prepare\<close> checks: the table and the columns of a statement exist.\<close>

fun column_name :: "column \<Rightarrow> string" where
  "column_name CCollection = ''collection''"
| "column_name CKey = ''ekey''"
| "column_name CValue = ''value''"
| "column_name CContentType = ''content_type''"
| "column_name COwner = ''owner_id''"
| "column_name CClient = ''client_id''"
| "column_name CRealm = ''realm''"
| "column_name CScopes = ''required_scopes''"

fun stmt_columns :: "sql_stmt \<Rightarrow> column list" where
  "stmt_columns (Select cols cs lim) = cols @ cs"
| "stmt_columns (Replace cols) = cols"
| "stmt_columns (Delete cs) = cs"

definition prepares :: "schema \<Rightarrow> sql_stmt \<Rightarrow> bool" where
  "prepares sc s = (case sc_tables sc ''kv'' of None \<Rightarrow> False
     | Some cols \<Rightarrow> list_all (\<lambda>c. column_name c \<in> set (map cd_name cols)) (stmt_columns s))"

definition prepare_all :: "schema \<Rightarrow> bool" where
  "prepare_all sc \<longleftrightarrow> prepareStmts (prepares sc) \<noteq> None"

text \<open>The table is that of \<open>KV_Table\<close>: its columns, apart from the row's own number, which of them are NOT
  NULL, and its unique index.\<close>

definition table_as_modelled :: "schema \<Rightarrow> bool" where
  "table_as_modelled sc = (case sc_tables sc ''kv'' of None \<Rightarrow> False
     | Some cols \<Rightarrow>
         map cd_name (filter (\<lambda>c. cd_key c = NoKey) cols) = map column_name Enum.enum \<and>
         map cd_name (filter cd_not_null cols) = map column_name not_null_columns \<and>
         map (snd \<circ> snd \<circ> snd) (filter (\<lambda>(i, u, t, cs). u \<and> t = ''kv'') (sc_indices sc)) = [map column_name idx_no_dup])"

section \<open>The call of the library\<close>

text \<open>The logger that it is given: what it prints goes to the logger of the program, as debug messages.\<close>

record 'l migrationLogger =
  ml_logger :: 'l
  ml_verbose :: bool

definition migrationLogger_Printf :: "('l \<Rightarrow> string \<Rightarrow> 'a \<Rightarrow> 'l) \<Rightarrow> 'l migrationLogger \<Rightarrow> string \<Rightarrow> 'a \<Rightarrow> 'l migrationLogger" where
  "migrationLogger_Printf debugf l format v = l\<lparr>ml_logger := debugf (ml_logger l) format v\<rparr>"

definition migrationLogger_Verbose :: "'l migrationLogger \<Rightarrow> bool" where
  "migrationLogger_Verbose l = ml_verbose l"

text \<open>\<open>initialize\<close> goes on whatever \<open>Up\<close> returns; the statements are prepared on the tables as they are then.\<close>

definition run_migrations :: "(migrations \<Rightarrow> migrated \<Rightarrow> up_result \<times> migrated) \<Rightarrow> migrations \<Rightarrow> migrated \<Rightarrow> migrated" where
  "run_migrations up ms m =
     (case up ms m of
        (NoChange, m') \<Rightarrow> m'
      | (UpDone, m') \<Rightarrow> m'
      | (UpFailed, m') \<Rightarrow> m')"

section \<open>The shipped migrations\<close>

lemmas file_defs = sqlite3_001_up_def sqlite3_001_down_def mysql_001_up_def mysql_002_up_def mysql_003_up_def
  mysql_004_up_def create_idx_get_def create_idx_no_dup_def create_idx_collection_def id_column_def
  needed_column_def plain_column_def

lemmas migrations_defs = sqlite3_migrations_def mysql_migrations_def

lemmas schema_defs = no_schema_def prepare_all_def prepareStmts_eq(2) prepares_def table_as_modelled_def statements_def
  enum_column_def not_null_columns_def idx_no_dup_def

lemma all_stmtIDs: "(\<forall>i. P i) \<longleftrightarrow> P stmtIDGet \<and> P stmtIDGetCollection \<and> P stmtIDCreateOrUpdate \<and> P stmtIDDelete"
  by (metis stmtID.exhaust)

definition default_base :: string where
  "default_base = ''./plugins/kvs/kv/migrations''"

lemma New_migrations:
  assumes "New dr ds base = Inr kv"
  shows "kv_migrations kv = ''file://'' @ (if base = [] then default_base else base) @ CHR ''/'' # kv_driver kv"
  using assms by (auto simp: New_def default_base_def Let_def split: if_splits)

lemma shipped_New:
  assumes "New dr ds base = Inr kv" and "kv_driver kv \<in> {driverNameSQLite3, driverNameMySQL}"
  shows "shipped (if base = [] then default_base else base) (kv_migrations kv) =
    (if kv_driver kv = driverNameMySQL then mysql_migrations else sqlite3_migrations)"
  using assms(2) unfolding New_migrations [OF assms(1)]
  by (auto simp: shipped_def driverNameSQLite3_def driverNameMySQL_def)

text \<open>The down migration of SQLite3 takes back what the up migration did.\<close>

lemma sqlite3_down: "ddl_run (sqlite3_001_up @ sqlite3_001_down) no_schema = Some no_schema"
  by (simp add: file_defs no_schema_def)

lemma at_version_schema:
  "at_version ms j m \<Longrightarrow> mg_schema m = the (ddl_run (statements (take j ms)) no_schema)"
  by (auto simp: at_version_def dest: sym)

lemma sqlite3_versions:
  assumes "at_version sqlite3_migrations j m"
  shows "prepare_all (mg_schema m) = (1 \<le> j)" and "table_as_modelled (mg_schema m) = (1 \<le> j)"
proof -
  note sc = at_version_schema [OF assms]
  have "j = 0 \<or> j = 1" using assms by (auto simp: at_version_def migrations_defs)
  then show "prepare_all (mg_schema m) = (1 \<le> j)" "table_as_modelled (mg_schema m) = (1 \<le> j)"
    unfolding sc by (elim disjE; simp add: migrations_defs file_defs schema_defs all_stmtIDs)+
qed

lemma mysql_versions:
  assumes "at_version mysql_migrations j m"
  shows "prepare_all (mg_schema m) = (1 \<le> j)" and "table_as_modelled (mg_schema m) = (3 \<le> j)"
proof -
  note sc = at_version_schema [OF assms]
  have "j = 0 \<or> j = 1 \<or> j = 2 \<or> j = 3 \<or> j = 4" using assms by (auto simp: at_version_def migrations_defs)
  then show "prepare_all (mg_schema m) = (1 \<le> j)" "table_as_modelled (mg_schema m) = (3 \<le> j)"
    unfolding sc by (elim disjE; simp add: migrations_defs file_defs schema_defs all_stmtIDs)+
qed

section \<open>Properties\<close>

text \<open>How far the schema of a database is good for the store, by the number of migrations that have run.\<close>

lemma schema_at_version:
  assumes "New dr ds base = Inr kv" and "kv_driver kv \<in> {driverNameSQLite3, driverNameMySQL}"
    and "at_version (shipped (if base = [] then default_base else base) (kv_migrations kv)) j m"
  shows "prepare_all (mg_schema m) = (1 \<le> j)"
    and "table_as_modelled (mg_schema m) = ((if kv_driver kv = driverNameMySQL then 3 else 1) \<le> j)"
proof -
  have "prepare_all (mg_schema m) = (1 \<le> j) \<and>
      table_as_modelled (mg_schema m) = ((if kv_driver kv = driverNameMySQL then 3 else 1) \<le> j)"
    using sqlite3_versions [of j m] mysql_versions [of j m] assms(3) unfolding shipped_New [OF assms(1,2)]
    by (auto split: if_splits)
  then show "prepare_all (mg_schema m) = (1 \<le> j)"
    "table_as_modelled (mg_schema m) = ((if kv_driver kv = driverNameMySQL then 3 else 1) \<le> j)" by simp_all
qed

lemma initialize_prepared:
  assumes "New dr ds base = Inr kv" and "kv_driver kv \<in> {driverNameSQLite3, driverNameMySQL}" and "prepare_all sc"
  shows "\<exists>kv'. run_init (replicate 8 True @ [prepare_all sc]) (kv, Starting) = Returns (kv', Returned None) \<and> kv_ready kv'"
proof -
  have "replicate 9 True = replicate 8 True @ [prepare_all sc]" using assms(3) by (simp add: numeral_eq_Suc)
  then show ?thesis using initialize_run [OF assms(1)] assms(2) by simp
qed

text \<open>C10: whatever version of the shipped migrations a database is at, when \<open>Up\<close> has no error the store ends
  ready, on a table whose columns, NOT NULL constraints and unique index are those on which the properties of
  the store rest.\<close>

theorem migrated_store_ready:
  assumes "New dr ds base = Inr kv" and "kv_driver kv \<in> {driverNameSQLite3, driverNameMySQL}"
    and "ms = shipped (if base = [] then default_base else base) (kv_migrations kv)"
    and "migrate_ok up" and "at_version ms j m" and "fst (up ms m) \<noteq> UpFailed"
  shows "table_as_modelled (mg_schema (run_migrations up ms m)) \<and>
    (\<exists>kv'. run_init (replicate 8 True @ [prepare_all (mg_schema (run_migrations up ms m))]) (kv, Starting) =
       Returns (kv', Returned None) \<and> kv_ready kv')"
proof -
  obtain r m' where up: "up ms m = (r, m')" and ok: "r \<noteq> UpFailed" using assms(6) by (cases "up ms m") simp
  have n: "(if kv_driver kv = driverNameMySQL then 3 else 1) \<le> length ms" and srt: "sorted_wrt (<) (map fst ms)"
    unfolding assms(3) shipped_New [OF assms(1,2)] by (simp_all add: migrations_defs)
  have "at_version ms (length ms) m'" by (rule up_completes [OF assms(4) srt assms(5) up ok])
  from schema_at_version [OF assms(1,2) this [unfolded assms(3)], folded assms(3)] n
  have "table_as_modelled (mg_schema m')" "prepare_all (mg_schema m')" by (auto split: if_splits)
  moreover have "run_migrations up ms m = m'" using up by (cases r) (simp_all add: run_migrations_def)
  ultimately show ?thesis using initialize_prepared [OF assms(1,2)] by simp
qed

text \<open>When \<open>Up\<close> fails the store gets ready as well, once the first migration has run, although the unique
  index of MySQL comes with the third.\<close>

theorem failed_migration_ready:
  assumes "New ''mysql'' ds base = Inr kv"
    and "ms = shipped (if base = [] then default_base else base) (kv_migrations kv)"
    and "up ms m = (UpFailed, m')" and "at_version ms j m'" and "1 \<le> j"
  shows "table_as_modelled (mg_schema (run_migrations up ms m)) = (3 \<le> j) \<and>
    (\<exists>kv'. run_init (replicate 8 True @ [prepare_all (mg_schema (run_migrations up ms m))]) (kv, Starting) =
       Returns (kv', Returned None) \<and> kv_ready kv')"
proof -
  have d: "kv_driver kv = driverNameMySQL"
    using assms(1) by (auto simp: New_def driverNameMySQL_def Let_def split: if_splits)
  then have s: "kv_driver kv \<in> {driverNameSQLite3, driverNameMySQL}" by simp
  have "run_migrations up ms m = m'" using assms(3) by (simp add: run_migrations_def)
  then show ?thesis
    using schema_at_version [OF assms(1) s assms(4) [unfolded assms(2)]] initialize_prepared [OF assms(1) s] assms(5) d by simp
qed

text \<open>The library, and a MySQL database in which two of the migrations have run.\<close>

definition sample_up :: "migrations \<Rightarrow> migrated \<Rightarrow> up_result \<times> migrated" where
  "sample_up ms m =
     (if mg_dirty m then (UpFailed, m)
      else if pending ms (mg_version m) = [] then (NoChange, m)
      else (case ddl_run (statements (pending ms (mg_version m))) (mg_schema m) of
              None \<Rightarrow> (UpFailed, m\<lparr>mg_dirty := True\<rparr>)
            | Some sc \<Rightarrow> (UpDone, \<lparr>mg_version = Some (fst (last (pending ms (mg_version m)))), mg_dirty = False, mg_schema = sc\<rparr>)))"

lemma sample_up_ok: "migrate_ok sample_up"
  by (auto simp: migrate_ok_def sample_up_def statements_def split: if_splits option.splits)

definition sample_mysql_kv :: kv_state where
  "sample_mysql_kv = sample_kv\<lparr>kv_driver := ''mysql'', kv_datasource := ''kv'',
     kv_migrations := ''file://./plugins/kvs/kv/migrations/mysql''\<rparr>"

lemma sample_mysql_New: "New ''mysql'' ''kv'' [] = Inr sample_mysql_kv"
  by (simp add: New_def sample_mysql_kv_def sample_kv_def Let_def)

definition two_migrated :: migrated where
  "two_migrated = \<lparr>mg_version = Some 2, mg_dirty = False, mg_schema = the (ddl_run (mysql_001_up @ mysql_002_up) no_schema)\<rparr>"

lemma two_migrated_version: "at_version mysql_migrations 2 two_migrated"
  by (simp add: at_version_def two_migrated_def migrations_defs statements_def file_defs no_schema_def)

theorem migrated_store_ready_witness:
  "table_as_modelled (mg_schema (run_migrations sample_up mysql_migrations two_migrated)) \<and>
   \<not> table_as_modelled (mg_schema two_migrated)"
proof -
  have s: "kv_driver sample_mysql_kv \<in> {driverNameSQLite3, driverNameMySQL}"
    by (simp add: sample_mysql_kv_def driverNameMySQL_def)
  then have ms: "mysql_migrations = shipped (if [] = ([] :: string) then default_base else []) (kv_migrations sample_mysql_kv)"
    using shipped_New [OF sample_mysql_New] by (simp add: sample_mysql_kv_def driverNameMySQL_def)
  have "fst (sample_up mysql_migrations two_migrated) \<noteq> UpFailed"
    by (simp add: sample_up_def two_migrated_def pending_def migrations_defs statements_def file_defs no_schema_def)
  from migrated_store_ready [OF sample_mysql_New s ms sample_up_ok two_migrated_version this]
  show ?thesis using mysql_versions [OF two_migrated_version] by simp
qed

end
