(* ===== verification/Auth.thy ===== *)
theory Auth
  imports Prelude
begin

text \<open>
  Package \<open>auth\<close> (\<open>src/auth/auth.go\<close>, \<open>src/auth/utils.go\<close>): the authentication record that the
  server puts into a request's context and the Kopano claims read from it.
\<close>

section \<open>Claims\<close>

text \<open>A value of Go type \<open>interface{}\<close> as the JSON decoder of the token library builds it.\<close>

datatype claim =
    CNull
  | CBool bool
  | CNum string
  | CStr string
  | CArr "claim list"
  | CMap "(string \<times> claim) list"

text \<open>\<open>kcoidc.ExtraClaimsWithType\<close> is a Go map from claim names to such values, and
  \<open>jwt.StandardClaims\<close> a struct of which the program reads the audience only.\<close>

type_synonym extra_claims = "(string \<times> claim) list"

record std_claims =
  Audience :: string

record auth_record =
  AuthenticatedUserID :: string
  StandardClaims :: "std_claims option"
  ExtraClaims :: "extra_claims option"

section \<open>The request context\<close>

text \<open>The context as far as the program reads it: the value stored under the key
  \<open>authRecord\<close>.\<close>

type_synonym ctx = "auth_record option"

definition AuthenticatedUserIDFromContext :: "ctx \<Rightarrow> string \<times> bool" where
  "AuthenticatedUserIDFromContext c =
     (case c of Some r \<Rightarrow> (AuthenticatedUserID r, True) | None \<Rightarrow> ([], False))"

definition RecordFromContext :: "ctx \<Rightarrow> auth_record option \<times> bool" where
  "RecordFromContext c = (case c of Some r \<Rightarrow> (Some r, True) | None \<Rightarrow> (None, False))"

definition ContextWithRecord :: "ctx \<Rightarrow> auth_record \<Rightarrow> ctx" where
  "ContextWithRecord parent r = Some r"

lemma RecordFromContext_simps [simp]:
  "RecordFromContext None = (None, False)"
  "RecordFromContext (Some r) = (Some r, True)"
  by (simp_all add: RecordFromContext_def)

lemma AuthenticatedUserIDFromContext_simps [simp]:
  "AuthenticatedUserIDFromContext None = ([], False)"
  "AuthenticatedUserIDFromContext (Some r) = (AuthenticatedUserID r, True)"
  by (simp_all add: AuthenticatedUserIDFromContext_def)

lemma context_round_trip:
  "RecordFromContext (ContextWithRecord c r) = (Some r, True)"
  "AuthenticatedUserIDFromContext (ContextWithRecord c r) = (AuthenticatedUserID r, True)"
  by (simp_all add: ContextWithRecord_def)

section \<open>Kopano claims\<close>

definition IdentityClaim :: string where "IdentityClaim = ''kc.identity''"
definition IdentifiedUserIDClaim :: string where "IdentifiedUserIDClaim = ''kc.i.id''"
definition IdentifiedUsernameClaim :: string where "IdentifiedUsernameClaim = ''kc.i.un''"
definition AuthorizedScopesClaim :: string where "AuthorizedScopesClaim = ''kc.authorizedScopes''"

text \<open>A Go type assertion \<open>v, _ := m[k].(string)\<close>: the empty string when the key is missing or
  its value is not a string.\<close>

definition string_claim :: "(string \<times> claim) list \<Rightarrow> string \<Rightarrow> string" where
  "string_claim m k = (case map_of m k of Some (CStr s) \<Rightarrow> s | _ \<Rightarrow> [])"

definition KCIDFromClaims :: "extra_claims \<Rightarrow> string \<times> string" where
  "KCIDFromClaims claims =
     (case map_of claims IdentityClaim of
        Some (CMap m) \<Rightarrow> (string_claim m IdentifiedUserIDClaim, string_claim m IdentifiedUsernameClaim)
      | _ \<Rightarrow> ([], []))"

text \<open>The loop over the authorized scopes; \<open>scope.(string)\<close> panics on a scope that is not a
  string.\<close>

fun scopes_map :: "claim list \<Rightarrow> (string \<rightharpoonup> bool) \<Rightarrow> (string \<rightharpoonup> bool) outcome" where
  "scopes_map [] m = Returns m"
| "scopes_map (CStr s # cs) m = scopes_map cs (m(s \<mapsto> True))"
| "scopes_map (_ # cs) m = Panics ''interface conversion''"

definition KCAuthorizedScopesFromClaims :: "extra_claims \<Rightarrow> (string \<rightharpoonup> bool) option outcome" where
  "KCAuthorizedScopesFromClaims claims =
     (case map_of claims AuthorizedScopesClaim of
        Some (CArr scopes) \<Rightarrow> obind (scopes_map scopes Map.empty) (\<lambda>m. Returns (Some m))
      | _ \<Rightarrow> Returns None)"

lemma scopes_map_strings:
  "scopes_map (map CStr ss) m = Returns (\<lambda>s. if s \<in> set ss then Some True else m s)"
  by (induction ss arbitrary: m) (auto intro!: ext)

lemma scopes_map_panics:
  "\<not> returns (scopes_map cs m) \<longleftrightarrow> (\<exists>c \<in> set cs. \<forall>s. c \<noteq> CStr s)"
proof (induction cs arbitrary: m)
  case (Cons c cs)
  then show ?case by (cases c) auto
qed simp

text \<open>The scopes map holds exactly the listed scopes, all set to true.\<close>

lemma authorized_scopes_exact:
  assumes "map_of claims AuthorizedScopesClaim = Some (CArr (map CStr ss))"
  shows "\<exists>m. KCAuthorizedScopesFromClaims claims = Returns (Some m) \<and>
           (\<forall>s. m s = Some True \<longleftrightarrow> s \<in> set ss) \<and> dom m = set ss"
  using assms
  by (auto simp: KCAuthorizedScopesFromClaims_def scopes_map_strings dom_def split: if_splits)

end
