(* ===== verification/Http.thy ===== *)
theory Http
  imports Auth
begin

text \<open>
  What the program uses of \<open>net/http\<close>, \<open>net/textproto\<close> and \<open>net/url\<close>: header maps with canonical
  keys, the response writer, requests and their form values. Sniffing of the content type, trailers
  and hijacking are not modelled; every handler sets a content type before it writes a body.
\<close>

section \<open>Headers\<close>

text \<open>\<open>http.Header\<close> is a Go map from keys to lists of values. \<open>Get\<close>, \<open>Set\<close>, \<open>Add\<close> and
  \<open>Del\<close> canonicalise the key (\<open>textproto.CanonicalMIMEHeaderKey\<close>): the first letter and every
  letter after a hyphen in upper case, the others in lower case, and a key with a byte that no
  header name may have is left alone.\<close>

type_synonym header = "string \<rightharpoonup> string list"

definition token_specials :: string where
  "token_specials = ''!#$%&*+-.^_`|~'' @ [CHR 0x27]"

definition valid_field_byte :: "char \<Rightarrow> bool" where
  "valid_field_byte c =
     (let b = byte_of c in
      48 \<le> b \<and> b \<le> 57 \<or> 65 \<le> b \<and> b \<le> 90 \<or> 97 \<le> b \<and> b \<le> 122 \<or> List.member token_specials c)"

fun canon_from :: "bool \<Rightarrow> string \<Rightarrow> string" where
  "canon_from up [] = []"
| "canon_from up (c # cs) =
     (if up then to_upper c else to_lower c) # canon_from (c = CHR ''-'') cs"

definition canonical_key :: "string \<Rightarrow> string" where
  "canonical_key k = (if list_all valid_field_byte k then canon_from True k else k)"

definition header_get :: "header \<Rightarrow> string \<Rightarrow> string" where
  "header_get h k = (case h (canonical_key k) of Some (v # vs) \<Rightarrow> v | _ \<Rightarrow> [])"

definition header_set :: "header \<Rightarrow> string \<Rightarrow> string \<Rightarrow> header" where
  "header_set h k v = h(canonical_key k \<mapsto> [v])"

definition header_add :: "header \<Rightarrow> string \<Rightarrow> string \<Rightarrow> header" where
  "header_add h k v =
     h(canonical_key k \<mapsto> (case h (canonical_key k) of None \<Rightarrow> [] | Some vs \<Rightarrow> vs) @ [v])"

definition header_del :: "header \<Rightarrow> string \<Rightarrow> header" where
  "header_del h k = h(canonical_key k := None)"

definition header_values :: "header \<Rightarrow> string \<Rightarrow> string list" where
  "header_values h k = (case h (canonical_key k) of None \<Rightarrow> [] | Some vs \<Rightarrow> vs)"

lemma header_values_add: "header_values (header_add h k v) k = header_values h k @ [v]"
  by (simp add: header_values_def header_add_def)

lemma header_values_set_other:
  "canonical_key k \<noteq> canonical_key k' \<Longrightarrow> header_values (header_set h k v) k' = header_values h k'"
  by (simp add: header_values_def header_set_def)

lemma header_get_set: "header_get (header_set h k v) k = v"
  by (simp add: header_get_def header_set_def)

lemma header_get_set_other:
  "canonical_key k \<noteq> canonical_key k' \<Longrightarrow> header_get (header_set h k v) k' = header_get h k'"
  by (simp add: header_get_def header_set_def)

lemma header_get_del: "header_get (header_del h k) k = []"
  by (simp add: header_get_def header_del_def)

lemma header_get_del_other:
  "canonical_key k \<noteq> canonical_key k' \<Longrightarrow> header_get (header_del h k) k' = header_get h k'"
  by (simp add: header_get_def header_del_def)

section \<open>The response writer\<close>

text \<open>
  \<open>rw_header\<close> is the live header map, \<open>rw_reply\<close> the status and the headers as they were when the
  reply was started, \<open>rw_body\<close> the bytes written after that. A second \<open>WriteHeader\<close> is ignored.
\<close>

record rwriter =
  rw_header :: header
  rw_reply :: "(nat \<times> header) option"
  rw_body :: string

definition fresh_rw :: rwriter where
  "fresh_rw = \<lparr>rw_header = Map.empty, rw_reply = None, rw_body = []\<rparr>"

definition rw_status :: "rwriter \<Rightarrow> nat option" where
  "rw_status rw = map_option fst (rw_reply rw)"

definition set_header :: "string \<Rightarrow> string \<Rightarrow> rwriter \<Rightarrow> rwriter" where
  "set_header k v rw = rw\<lparr>rw_header := header_set (rw_header rw) k v\<rparr>"

definition write_header :: "nat \<Rightarrow> rwriter \<Rightarrow> rwriter" where
  "write_header code rw =
     (case rw_reply rw of
        None \<Rightarrow> rw\<lparr>rw_reply := Some (code, rw_header rw)\<rparr>
      | Some _ \<Rightarrow> rw)"

definition rw_write :: "string \<Rightarrow> rwriter \<Rightarrow> rwriter" where
  "rw_write d rw = (let rw' = write_header 200 rw in rw'\<lparr>rw_body := rw_body rw' @ d\<rparr>)"

definition http_error :: "string \<Rightarrow> nat \<Rightarrow> rwriter \<Rightarrow> rwriter" where
  "http_error msg code rw =
     rw_write (msg @ [CHR 0x0A])
       (write_header code
         (set_header ''X-Content-Type-Options'' ''nosniff''
           (set_header ''Content-Type'' ''text/plain; charset=utf-8'' rw)))"

definition not_found :: "rwriter \<Rightarrow> rwriter" where
  "not_found = http_error ''404 page not found'' 404"

lemma set_header_simps [simp]:
  "rw_reply (set_header k v rw) = rw_reply rw"
  "rw_body (set_header k v rw) = rw_body rw"
  "rw_header (set_header k v rw) = header_set (rw_header rw) k v"
  by (simp_all add: set_header_def)

lemma write_header_simps [simp]:
  "rw_header (write_header code rw) = rw_header rw"
  "rw_body (write_header code rw) = rw_body rw"
  "rw_reply rw = None \<Longrightarrow> rw_reply (write_header code rw) = Some (code, rw_header rw)"
  "rw_reply rw = Some r \<Longrightarrow> write_header code rw = rw"
  by (simp_all add: write_header_def split: option.splits)

lemma write_header_replied: "rw_reply (write_header code rw) \<noteq> None"
  by (simp add: write_header_def split: option.splits)

lemma rw_write_simps [simp]:
  "rw_header (rw_write d rw) = rw_header rw"
  "rw_body (rw_write d rw) = rw_body rw @ d"
  "rw_reply (rw_write d rw) = rw_reply (write_header 200 rw)"
  by (simp_all add: rw_write_def Let_def)

lemma rw_write_replied: "rw_reply rw = Some r \<Longrightarrow> rw_reply (rw_write d rw) = Some r"
  by simp

lemma rw_status_simps:
  "rw_reply rw = None \<Longrightarrow> rw_status (write_header code rw) = Some code"
  "rw_reply rw = None \<Longrightarrow> rw_status (http_error msg code rw) = Some code"
  "rw_reply rw = None \<Longrightarrow> rw_status (not_found rw) = Some 404"
  "rw_status (set_header k v rw) = rw_status rw"
  by (simp_all add: rw_status_def http_error_def not_found_def)

lemma rw_status_write: "rw_status rw = Some c \<Longrightarrow> rw_status (rw_write d rw) = Some c"
  by (auto simp: rw_status_def)

lemma rw_status_None: "rw_status rw = None \<longleftrightarrow> rw_reply rw = None"
  by (simp add: rw_status_def)

lemma http_error_body: "rw_body (http_error msg code rw) = rw_body rw @ msg @ [CHR 0x0A]"
  by (simp add: http_error_def)

lemma fresh_rw_simps [simp]:
  "rw_header fresh_rw = Map.empty" "rw_reply fresh_rw = None" "rw_body fresh_rw = []"
  "rw_status fresh_rw = None"
  by (simp_all add: fresh_rw_def rw_status_def)

section \<open>Requests\<close>

text \<open>
  The body is the bytes the client sends; \<open>req_body_fail\<close> says that reading past them ends with an
  error (a broken connection) instead of the end of the body. \<open>req_form\<close> is the \<open>Form\<close> of the
  request once \<open>ParseForm\<close> has run, as name/value pairs in the order in which they were added.
\<close>

record request =
  req_method :: string
  req_path :: string
  req_rawquery :: string
  req_header :: header
  req_cookies :: "(string \<times> string) list"
  req_body :: string
  req_body_fail :: bool
  req_form :: "(string \<times> string) list"
  req_ctx :: ctx

subsection \<open>Query strings (net/url)\<close>

fun query_unescape :: "string \<Rightarrow> string option" where
  "query_unescape [] = Some []"
| "query_unescape (c # cs) =
     (if c = CHR ''%'' then
        (case cs of
           a # b # r \<Rightarrow>
             (case (hex_val a, hex_val b) of
                (Some x, Some y) \<Rightarrow> map_option (\<lambda>t. char_of (16 * x + y) # t) (query_unescape r)
              | _ \<Rightarrow> None)
         | _ \<Rightarrow> None)
      else map_option (\<lambda>t. (if c = CHR ''+'' then CHR '' '' else c) # t) (query_unescape cs))"

definition query_pair :: "string \<Rightarrow> (string \<times> string) option" where
  "query_pair p =
     (let kv = splitN2 (CHR ''='') p in
      case (query_unescape (kv ! 0), query_unescape (if length kv = 2 then kv ! 1 else [])) of
        (Some k, Some v) \<Rightarrow> Some (k, v)
      | _ \<Rightarrow> None)"

text \<open>\<open>url.ParseQuery\<close> (Go 1.14: pairs are separated by \<open>&\<close> or \<open>;\<close>); pairs that do not
  unescape are left out.\<close>

definition parse_query :: "string \<Rightarrow> (string \<times> string) list" where
  "parse_query q =
     List.map_filter query_pair
       (filter (\<lambda>p. p \<noteq> [])
         (split_all (CHR ''&'') (map (\<lambda>c. if c = CHR '';'' then CHR ''&'' else c) q)))"

subsection \<open>ParseForm\<close>

definition form_media_type :: string where
  "form_media_type = ''application/x-www-form-urlencoded''"

text \<open>\<open>mime.ParseMediaType\<close>, the media type alone: what precedes the first semicolon, without
  surrounding space, in lower case.\<close>

definition media_type :: "string \<Rightarrow> string" where
  "media_type ct = map to_lower (trim_space (takeWhile (\<lambda>c. c \<noteq> CHR '';'') ct))"

definition max_form_size :: nat where
  "max_form_size = 10 * 1024 * 1024"

definition has_form_body :: "request \<Rightarrow> bool" where
  "has_form_body req \<longleftrightarrow>
     req_method req \<in> {''POST'', ''PUT'', ''PATCH''} \<and>
     media_type (header_get (req_header req) ''Content-Type'') = form_media_type"

text \<open>
  \<open>Request.ParseForm\<close>: a POST, PUT or PATCH body of the form media type is read (one byte past
  10 MiB at most) and its pairs come first; the pairs of the URL follow. Reading consumes the body.
  The error it returns is dropped by every caller of the program.
\<close>

definition ParseForm :: "request \<Rightarrow> request" where
  "ParseForm req =
     (let query = parse_query (req_rawquery req);
          read = take (Suc max_form_size) (req_body req);
          post = (if has_form_body req \<and> length read \<le> max_form_size \<and> \<not> req_body_fail req
                  then parse_query read else [])
      in req\<lparr>req_form := post @ query,
             req_body := (if has_form_body req then drop (Suc max_form_size) (req_body req)
                          else req_body req)\<rparr>)"

definition form_get :: "request \<Rightarrow> string \<Rightarrow> string" where
  "form_get req k = (case map_of (req_form req) k of None \<Rightarrow> [] | Some v \<Rightarrow> v)"

lemma ParseForm_frame [simp, frame]:
  "req_method (ParseForm req) = req_method req"
  "req_path (ParseForm req) = req_path req"
  "req_header (ParseForm req) = req_header req"
  "req_cookies (ParseForm req) = req_cookies req"
  "req_ctx (ParseForm req) = req_ctx req"
  "req_body_fail (ParseForm req) = req_body_fail req"
  by (simp_all add: ParseForm_def Let_def)

lemma ParseForm_body:
  "\<not> has_form_body req \<Longrightarrow> req_body (ParseForm req) = req_body req"
  by (simp add: ParseForm_def Let_def)

lemma ParseForm_consumes:
  assumes "has_form_body req" and "length (req_body req) \<le> Suc max_form_size"
  shows "req_body (ParseForm req) = []"
  using assms by (simp add: ParseForm_def Let_def)

subsection \<open>Reading a body through http.MaxBytesReader\<close>

datatype read_error = TooLarge | BodyError

text \<open>\<open>ioutil.ReadAll(http.MaxBytesReader(rw, body, n))\<close>. Past the limit the reader asks the
  server to close the connection, unless the reply has begun.\<close>

definition read_all_max :: "nat \<Rightarrow> request \<Rightarrow> rwriter \<Rightarrow> (read_error + string) \<times> rwriter" where
  "read_all_max n req rw =
     (if n < length (req_body req)
      then (Inl TooLarge, if rw_reply rw = None then set_header ''Connection'' ''close'' rw else rw)
      else if req_body_fail req then (Inl BodyError, rw)
      else (Inr (req_body req), rw))"

lemma read_all_max_reply [simp]: "rw_reply (snd (read_all_max n req rw)) = rw_reply rw"
  by (simp add: read_all_max_def)

lemma read_all_max_ok:
  "fst (read_all_max n req rw) = Inr b \<longleftrightarrow>
     length (req_body req) \<le> n \<and> \<not> req_body_fail req \<and> b = req_body req"
  by (auto simp: read_all_max_def)

section \<open>Handlers\<close>

text \<open>An \<open>http.Handler\<close> over a state \<open>'s\<close>: it reads the request, may change the state and the
  reply, and may panic.\<close>

type_synonym 's handler = "request \<Rightarrow> 's \<times> rwriter \<Rightarrow> ('s \<times> rwriter) outcome"

end
