(* ===== verification/Server.thy ===== *)
theory Server
  imports Http
begin

text \<open>
  Package \<open>server\<close> (\<open>src/server/handlers.go\<close>, \<open>server.go\<close>, \<open>plugins.go\<close>) and the plugin registry
  (\<open>src/plugins/registry.go\<close>): the access check, the proxy wrapper, the dispatch of requests to
  plugins, the selection of plugins and the life of the server.

  The OpenID Connect library is not part of the sources: it is the parameter \<open>oidc\<close>. Logging is left
  out.
\<close>

section \<open>Access tokens\<close>

text \<open>
  \<open>validate\<close> is \<open>Provider.ValidateTokenString\<close> (the user, both kinds of claims, and whether there is
  no error), \<open>is_access_token\<close> whether \<open>KCTokenType\<close> is the access type, \<open>claims_valid\<close> whether
  \<open>Valid\<close> gives no error, and \<open>scopes_granted\<close> whether \<open>RequireScopesInClaims\<close> gives none.
\<close>

record oidc =
  validate :: "string \<Rightarrow> string \<times> std_claims option \<times> extra_claims option \<times> bool"
  is_access_token :: "extra_claims \<Rightarrow> bool"
  claims_valid :: "extra_claims \<Rightarrow> bool"
  scopes_granted :: "extra_claims \<Rightarrow> string list \<Rightarrow> bool"

datatype auth_error =
    BearerFormat
  | BearerRequired
  | TokenInvalid
  | AccessClaimMissing
  | ClaimsInvalid
  | ScopesMissing

text \<open>The token of the \<open>Authorization\<close> header.\<close>

definition bearer_token :: "request \<Rightarrow> auth_error + string" where
  "bearer_token req =
     (let authHeader = splitN2 (CHR '' '') (header_get (req_header req) ''Authorization'') in
      if authHeader ! 0 = ''Bearer''
      then (if length authHeader \<noteq> 2 then Inl BearerFormat else Inr (authHeader ! 1))
      else Inl BearerRequired)"

text \<open>The checks of \<open>AccessTokenRequired\<close> in their order: user and claims when all pass.\<close>

definition check_access ::
  "oidc \<Rightarrow> string list \<Rightarrow> request \<Rightarrow> auth_error + string \<times> std_claims option \<times> extra_claims" where
  "check_access prov requiredScopes req =
     (case bearer_token req of
        Inl err \<Rightarrow> Inl err
      | Inr token \<Rightarrow>
          (case validate prov token of
             (uid, std, ext, ok) \<Rightarrow>
               if \<not> ok then Inl TokenInvalid
               else (case ext of
                       None \<Rightarrow> Inl AccessClaimMissing
                     | Some claims \<Rightarrow>
                         if \<not> is_access_token prov claims then Inl AccessClaimMissing
                         else if \<not> claims_valid prov claims then Inl ClaimsInvalid
                         else if requiredScopes \<noteq> [] \<and> \<not> scopes_granted prov claims requiredScopes
                         then Inl ScopesMissing
                         else Inr (uid, std, claims))))"

definition AccessTokenRequired :: "oidc \<Rightarrow> 's handler \<Rightarrow> string list \<Rightarrow> 's handler" where
  "AccessTokenRequired prov nexth requiredScopes req srw =
     (case check_access prov requiredScopes req of
        Inl err \<Rightarrow> Returns (fst srw, http_error [] 403 (snd srw))
      | Inr (uid, std, claims) \<Rightarrow>
          nexth (if uid \<noteq> []
                 then req\<lparr>req_ctx := ContextWithRecord (req_ctx req)
                        \<lparr>AuthenticatedUserID = uid, StandardClaims = std, ExtraClaims = Some claims\<rparr>\<rparr>
                 else req) srw)"

section \<open>Requests that go to a proxy\<close>

text \<open>\<open>proxy.HTTPProxyHandler\<close>: a handler that also answers with a status and whether there was no
  error.\<close>

type_synonym 's proxy_handler = "request \<Rightarrow> 's \<times> rwriter \<Rightarrow> (('s \<times> rwriter) \<times> nat \<times> bool) outcome"

text \<open>\<open>WriteHeader\<close> panics on a status that has not three digits, unless the reply was begun.\<close>

definition http_error_checked :: "string \<Rightarrow> nat \<Rightarrow> rwriter \<Rightarrow> rwriter outcome" where
  "http_error_checked msg code rw =
     (if rw_reply rw = None \<and> (code < 100 \<or> 999 < code) then Panics ''invalid WriteHeader code''
      else Returns (http_error msg code rw))"

definition HandleWithProxy :: "'s proxy_handler option \<Rightarrow> 's handler \<Rightarrow> 's handler" where
  "HandleWithProxy proxy nexth req srw =
     (case proxy of
        None \<Rightarrow> nexth req srw
      | Some p \<Rightarrow>
          obind (p req srw) (\<lambda>((s, rw), status, ok).
            if ok then Returns (s, rw)
            else obind (http_error_checked [] status rw) (\<lambda>rw'. Returns (s, rw'))))"

section \<open>Dispatch\<close>

text \<open>A plugin's \<open>ServeHTTP\<close>: also whether the request was handled, and whether there was an
  error.\<close>

type_synonym 's plugin = "request \<Rightarrow> 's \<times> rwriter \<Rightarrow> (('s \<times> rwriter) \<times> bool \<times> bool) outcome"

definition HealthCheckHandler :: "'s handler" where
  "HealthCheckHandler req srw = Returns (fst srw, write_header 200 (snd srw))"

fun try_plugins :: "'s plugin list \<Rightarrow> 's handler" where
  "try_plugins [] req srw = Returns (fst srw, not_found (snd srw))"
| "try_plugins (p # ps) req srw =
     obind (p req srw) (\<lambda>((s, rw), handled, err).
       if err then Returns (s, http_error [] 500 rw)
       else if handled then Returns (s, rw)
       else try_plugins ps req (s, rw))"

definition ServeHTTP :: "'s plugin list \<Rightarrow> 's handler" where
  "ServeHTTP plugins req srw =
     (if req_path req = ''/health-check'' then HealthCheckHandler req srw
      else try_plugins plugins req srw)"

text \<open>\<open>AddContext\<close> runs the next handler with a context made from the server's own.\<close>

definition AddContext :: "ctx \<Rightarrow> 's handler \<Rightarrow> 's handler" where
  "AddContext parent nexth req srw = nexth (req\<lparr>req_ctx := parent\<rparr>) srw"

text \<open>What \<open>AddContext\<close> does when the next handler is over: when it has returned the context is cancelled (the
  flag), which also writes the entry of the request log, if there is one. A panic passes through without
  either. \<open>path\<close> is the path of the URL at that time, which the handlers share with the request.\<close>

record request_log =
  rl_status :: "nat option"
  rl_method :: string
  rl_path :: string
  rl_remote :: string
  rl_referer :: string
  rl_user_agent :: string
  rl_origin :: string

definition request_done :: "bool \<Rightarrow> string \<Rightarrow> string \<Rightarrow> request \<Rightarrow> ('s \<times> rwriter) outcome \<Rightarrow> bool \<times> request_log option" where
  "request_done requestLog remote path req result =
     (case result of
        Panics m \<Rightarrow> (False, None)
      | Returns (s, rw) \<Rightarrow>
          (True,
           if requestLog
           then Some \<lparr>rl_status = rw_status rw, rl_method = req_method req, rl_path = path, rl_remote = remote,
             rl_referer = header_get (req_header req) ''Referer'',
             rl_user_agent = header_get (req_header req) ''User-Agent'',
             rl_origin = header_get (req_header req) ''Origin''\<rparr>
           else None))"

section \<open>Registered and loaded plugins\<close>

text \<open>What a plugin tells about itself; the version and the build date are filled in by the build.\<close>

record InfoV1 =
  ID :: string
  Version :: string
  BuildDate :: string

text \<open>The registry is a Go map; a list of pairs with distinct names stands for it, in the order in
  which one iteration visits it. A later registration under a name replaces the earlier one.
  \<open>Registered\<close> copies it.\<close>

definition registry_init :: "string \<rightharpoonup> 'p" where
  "registry_init = Map.empty"

definition RegisterV1 :: "string \<Rightarrow> 'p \<Rightarrow> (string \<rightharpoonup> 'p) \<Rightarrow> (string \<rightharpoonup> 'p)" where
  "RegisterV1 name register registry = registry(name \<mapsto> register)"

definition Registered :: "(string \<times> 'p) list \<Rightarrow> (string \<rightharpoonup> 'p)" where
  "Registered registry = fold (\<lambda>(name, register) plugins. plugins(name \<mapsto> register)) registry Map.empty"

definition loadPlugins :: "(string \<times> 'p) list \<Rightarrow> string list \<Rightarrow> 'p list" where
  "loadPlugins registered enabledPlugins =
     (let loaded = (if enabledPlugins = [] then registered
                    else filter (\<lambda>p. fst p \<in> set enabledPlugins) registered);
          enabled = (if enabledPlugins = [] then map fst registered else enabledPlugins)
      in List.map_filter (\<lambda>id. map_of loaded id) enabled)"

section \<open>A new server\<close>

text \<open>\<open>NewServer\<close> loads plugins unless the list is nil.\<close>

definition NewServer_plugins :: "(string \<times> 'p) list \<Rightarrow> string list option \<Rightarrow> 'p list" where
  "NewServer_plugins registered enabled =
     (case enabled of None \<Rightarrow> [] | Some ids \<Rightarrow> loadPlugins registered ids)"

text \<open>The server: \<open>'c\<close> is the type of HTTP clients, \<open>'u\<close> of URLs, \<open>'v\<close> of OpenID Connect providers and
  \<open>'p\<close> of plugins.\<close>

record ('c, 'u, 'v, 'p) server =
  srv_listenAddr :: string
  srv_pluginsPath :: string
  srv_client :: 'c
  srv_plugins :: "'p list"
  srv_iss :: 'u
  srv_provider :: 'v
  srv_requestLog :: bool

text \<open>The logger for the provider puts its prefix before the format of each message.\<close>

record debugLogger =
  dl_prefix :: string

definition debugLogger_Printf :: "debugLogger \<Rightarrow> string \<Rightarrow> string" where
  "debugLogger_Printf l fmt = dl_prefix l @ fmt"

datatype server_error = ProviderError

text \<open>\<open>new_provider\<close> is \<open>kcoidc.NewProvider\<close>, \<open>has_logger\<close> whether the logger is not nil. The only error
  is that of the provider, because \<open>loadPlugins\<close> has none.\<close>

definition NewServer ::
  "('c \<Rightarrow> debugLogger option \<Rightarrow> bool \<Rightarrow> 'v option) \<Rightarrow> 'c \<Rightarrow> (string \<Rightarrow> string) \<Rightarrow> (string \<times> 'p) list \<Rightarrow>
     string \<Rightarrow> string \<Rightarrow> 'u \<Rightarrow> string list option \<Rightarrow> bool \<Rightarrow> 'c option \<Rightarrow> server_error + ('c, 'u, 'v, 'p) server" where
  "NewServer new_provider defaultClient getenv registered listenAddr pluginsPath iss enabledPlugins has_logger client =
     (let client = (case client of None \<Rightarrow> defaultClient | Some c \<Rightarrow> c);
          kcoidcDebug = (getenv ''KCOIDC_DEBUG'' = ''1'');
          kcoidcLogger = (if kcoidcDebug \<and> has_logger then Some \<lparr>dl_prefix = ''kcoidc debug ''\<rparr> else None)
      in case new_provider client kcoidcLogger kcoidcDebug of
           None \<Rightarrow> Inl ProviderError
         | Some provider \<Rightarrow>
             Inr \<lparr>srv_listenAddr = listenAddr, srv_pluginsPath = pluginsPath, srv_client = client,
               srv_plugins = NewServer_plugins registered enabledPlugins, srv_iss = iss,
               srv_provider = provider,
               srv_requestLog = (getenv ''KOPANO_DEBUG_SERVER_REQUEST_LOG'' = ''1'')\<rparr>)"

lemma Registered_map_of:
  assumes "distinct (map fst registry)"
  shows "Registered registry = map_of registry"
proof -
  have "fold (\<lambda>(name, register) plugins. plugins(name \<mapsto> register)) ps m = m ++ map_of ps"
    if "distinct (map fst ps)" for ps and m :: "string \<rightharpoonup> 'a"
    using that
  proof (induction ps arbitrary: m)
    case (Cons p ps)
    obtain n f where p: "p = (n, f)" by (cases p)
    have "map_of ps n = None" using Cons.prems p by (simp add: map_of_eq_None_iff)
    then have "m(n \<mapsto> f) ++ map_of ps = m ++ (map_of ps)(n \<mapsto> f)"
      by (auto simp: fun_eq_iff map_add_def split: option.split)
    then show ?case using Cons p by (simp add: fun_upd_def)
  qed simp
  from this [OF assms, of Map.empty] show ?thesis by (simp add: Registered_def)
qed

section \<open>The life of the server\<close>

text \<open>
  \<open>Serve\<close> as the sequence of what it does. The environment says how each plugin's \<open>Initialize\<close> goes,
  whether the OpenID Connect provider starts, whether the listener opens, whether the wait ends with
  an error (of the listener or a plugin) or a signal, and whether the listener exits before a second
  signal.
\<close>

datatype action =
    InitPlugin nat bool
  | InitOIDC bool
  | Listen bool
  | StopListening
  | ClosePlugin nat
  | CancelContext

record serve_env =
  env_plugins :: "bool list"
  env_oidc :: bool
  env_listen :: bool
  env_error :: bool

datatype serve_result = PluginFailed nat | OIDCFailed | ListenFailed | Ended bool

fun init_plugins :: "nat \<Rightarrow> bool list \<Rightarrow> action list \<times> nat option" where
  "init_plugins i [] = ([], None)"
| "init_plugins i (ok # oks) =
     (if ok then map_prod (\<lambda>as. InitPlugin i True # as) id (init_plugins (Suc i) oks)
      else ([InitPlugin i False], Some i))"

definition Serve :: "serve_env \<Rightarrow> action list \<times> serve_result" where
  "Serve env =
     (case init_plugins 0 (env_plugins env) of
        (as, Some i) \<Rightarrow> (as @ [CancelContext], PluginFailed i)
      | (as, None) \<Rightarrow>
          if \<not> env_oidc env then (as @ [InitOIDC False, CancelContext], OIDCFailed)
          else if \<not> env_listen env
          then (as @ [InitOIDC True, Listen False, CancelContext], ListenFailed)
          else (as @ [InitOIDC True, Listen True, StopListening]
                @ map ClosePlugin [0 ..< length (env_plugins env)] @ [CancelContext],
                Ended (env_error env)))"

section \<open>Facts\<close>

lemma check_access_Inr:
  "check_access prov scopes req = Inr (uid, std, claims) \<longleftrightarrow>
     (\<exists>token. bearer_token req = Inr token \<and> validate prov token = (uid, std, Some claims, True) \<and>
        is_access_token prov claims \<and> claims_valid prov claims \<and>
        (scopes = [] \<or> scopes_granted prov claims scopes))"
  by (auto simp: check_access_def split: sum.splits prod.splits option.splits if_splits)

lemma bearer_token_Inr:
  "bearer_token req = Inr t \<longleftrightarrow> header_get (req_header req) ''Authorization'' = ''Bearer '' @ t"
proof -
  let ?h = "header_get (req_header req) ''Authorization''"
  show ?thesis
  proof (cases rule: splitN2_cases [of "CHR '' ''" ?h])
    case one
    then show ?thesis by (auto simp: bearer_token_def Let_def)
  next
    case (two a b)
    have "a @ CHR '' '' # b = ''Bearer'' @ CHR '' '' # t \<longleftrightarrow> a = ''Bearer'' \<and> b = t"
      using two(2) by (auto simp: append_eq_append_conv2 append_eq_Cons_conv Cons_eq_append_conv)
    then show ?thesis using two by (auto simp: bearer_token_def Let_def)
  qed
qed

section \<open>Interface: what the server does for a plugin\<close>

text \<open>What plugins rely on in \<open>AccessTokenRequired\<close> of their server (\<open>ServerV1\<close> in \<open>plugins/plugins.go\<close>):
  a request that is not granted is answered with 403 and reaches nothing, a granted one reaches the
  handler with the context that was granted, and nothing else of it changed.\<close>

locale server_v1 =
  fixes required :: "'s handler \<Rightarrow> string list \<Rightarrow> 's handler"
    and granted :: "string list \<Rightarrow> request \<Rightarrow> ctx option"
  assumes refused: "granted scopes req = None \<Longrightarrow> required h scopes req srw = Returns (fst srw, http_error [] 403 (snd srw))"
    and passed: "granted scopes req = Some c \<Longrightarrow> required h scopes req srw = h (req\<lparr>req_ctx := c\<rparr>) srw"
begin

lemma changes:
  assumes "required h scopes req (s, rw) = Returns (s', rw')" and "s' \<noteq> s"
  obtains c where "granted scopes req = Some c" and "h (req\<lparr>req_ctx := c\<rparr>) (s, rw) = Returns (s', rw')"
  using assms refused [of scopes req h "(s, rw)"] passed [of scopes req _ h "(s, rw)"]
  by (cases "granted scopes req") auto

text \<open>What every run of the handler keeps, the guarded handler keeps.\<close>

lemma keeps:
  assumes "required h scopes req (s, rw) = Returns (s', rw')" and "P s"
    and "\<And>req' rw'' w. h req' (s, rw'') = Returns (s', w) \<Longrightarrow> P s'"
  shows "P s'"
  using assms refused [of scopes req h "(s, rw)"] passed [of scopes req _ h "(s, rw)"]
  by (cases "granted scopes req") auto

end

text \<open>The context that a token brings: the record of the user, if it names one.\<close>

definition granted_ctx :: "oidc \<Rightarrow> string list \<Rightarrow> request \<Rightarrow> ctx option" where
  "granted_ctx prov scopes req =
     (case check_access prov scopes req of
        Inl err \<Rightarrow> None
      | Inr (uid, std, claims) \<Rightarrow>
          Some (if uid \<noteq> [] then Some \<lparr>AuthenticatedUserID = uid, StandardClaims = std, ExtraClaims = Some claims\<rparr>
                else req_ctx req))"

interpretation guard: server_v1 "AccessTokenRequired prov" "granted_ctx prov" for prov :: oidc
  by unfold_locales
    (auto simp: granted_ctx_def AccessTokenRequired_def ContextWithRecord_def split: sum.splits prod.splits if_splits)

text \<open>A handler behind the access check changes the state only with a token that passes.\<close>

lemma AccessTokenRequired_changes:
  assumes "AccessTokenRequired prov h scopes req (s, rw) = Returns (s', rw')" and "s' \<noteq> s"
  obtains token uid std claims where
    "header_get (req_header req) ''Authorization'' = ''Bearer '' @ token"
    "validate prov token = (uid, std, Some claims, True)"
    "is_access_token prov claims" "claims_valid prov claims"
    "scopes = [] \<or> scopes_granted prov claims scopes"
    "h (if uid \<noteq> []
        then req\<lparr>req_ctx := Some \<lparr>AuthenticatedUserID = uid, StandardClaims = std, ExtraClaims = Some claims\<rparr>\<rparr>
        else req) (s, rw) = Returns (s', rw')"
proof (rule guard.changes [OF assms])
  fix c
  assume c: "granted_ctx prov scopes req = Some c" and h: "h (req\<lparr>req_ctx := c\<rparr>) (s, rw) = Returns (s', rw')"
  then obtain uid std claims where a: "check_access prov scopes req = Inr (uid, std, claims)"
    and ctx: "c = (if uid \<noteq> [] then Some \<lparr>AuthenticatedUserID = uid, StandardClaims = std, ExtraClaims = Some claims\<rparr>
      else req_ctx req)"
    by (auto simp: granted_ctx_def split: sum.splits)
  from a obtain token where "bearer_token req = Inr token" "validate prov token = (uid, std, Some claims, True)"
    "is_access_token prov claims" "claims_valid prov claims" "scopes = [] \<or> scopes_granted prov claims scopes"
    unfolding check_access_Inr by blast
  then show ?thesis using that [of token uid std claims] h ctx by (auto simp: bearer_token_Inr split: if_splits)
qed

section \<open>Interface: a plugin that owns part of the paths\<close>

text \<open>What the dispatch relies on: a plugin leaves a request outside its part alone and unanswered,
  and answers, or fails, every request in it.\<close>

locale path_plugin =
  fixes serve :: "'s plugin" and owns :: "request \<Rightarrow> bool"
  assumes not_owned: "\<not> owns req \<Longrightarrow> serve req srw = Returns (srw, False, False)"
    and owned: "owns req \<Longrightarrow> serve req srw = Returns (srw', handled, err) \<Longrightarrow> handled \<or> err"
begin

lemma skipped: "\<not> owns req \<Longrightarrow> try_plugins (serve # ps) req srw = try_plugins ps req srw"
  by (cases srw) (simp add: not_owned)

text \<open>The plugins behind it do not matter for a request it owns.\<close>

lemma taken: "owns req \<Longrightarrow> try_plugins (serve # ps) req srw = try_plugins [serve] req srw"
  by (cases "serve req srw") (auto dest!: owned split: prod.split)

end

text \<open>The plugins that \<open>kapid\<close> has do more: what they own they handle, and never with an error.\<close>

locale answering_plugin =
  fixes serve :: "'s plugin" and owns :: "request \<Rightarrow> bool"
  assumes passes: "\<not> owns req \<Longrightarrow> serve req srw = Returns (srw, False, False)"
    and answers: "owns req \<Longrightarrow> serve req srw = Returns (srw', handled, err) \<Longrightarrow> handled \<and> \<not> err"

sublocale answering_plugin \<subseteq> path_plugin
  by unfold_locales (rule passes, assumption, blast dest: answers)

text \<open>Plugins with disjoint parts: the one that owns a request is the one that counts.\<close>

lemma try_plugins_owner:
  assumes "\<forall>p \<in> set ps. path_plugin (fst p) (snd p)" and "filter (\<lambda>p. snd p req) ps = [q]"
  shows "try_plugins (map fst ps) req srw = try_plugins [fst q] req srw"
  using assms
proof (induction ps)
  case (Cons p ps)
  show ?case
  proof (cases "snd p req")
    case True
    then have "q = p" using Cons.prems by simp
    then show ?thesis
      using path_plugin.taken [of "fst p" "snd p" req] True Cons.prems by simp
  next
    case False
    then show ?thesis
      using path_plugin.skipped [of "fst p" "snd p" req] Cons by simp
  qed
qed simp

section \<open>A sample provider\<close>

text \<open>A provider that knows one token.\<close>

definition sample_oidc :: oidc where
  "sample_oidc = \<lparr>validate = (\<lambda>t. if t = ''good'' then (''alice'', Some \<lparr>Audience = ''web''\<rparr>, Some [], True)
       else ([], None, None, False)),
     is_access_token = (\<lambda>c. True), claims_valid = (\<lambda>c. True), scopes_granted = (\<lambda>c s. True)\<rparr>"

end
