(* ===== verification/Mux.thy ===== *)
theory Mux
  imports Server
begin

text \<open>
  The request router (\<open>github.com/gorilla/mux\<close>) as the plugins use it: a list of routes, tried in
  order. The library is not part of the sources; its decision is a parameter \<open>mux\<close>, and \<open>mux_ok\<close>
  states what its documentation says of a decision. Also \<open>http.StripPrefix\<close>, of the standard
  library.
\<close>

section \<open>Routes\<close>

text \<open>A segment of a path template is literal text or a variable, which matches any text that is not
  empty and has no slash. A prefix route matches every path that starts with its text; a route with
  methods matches these methods only.\<close>

datatype seg = Lit string | Var string

datatype route_path = Prefix string | Template "seg list"

record route =
  route_path :: route_path
  route_methods :: "string list"

fun match_segs :: "seg list \<Rightarrow> string list \<Rightarrow> (string \<times> string) list option" where
  "match_segs [] [] = Some []"
| "match_segs (Lit a # ss) (p # ps) = (if a = p then match_segs ss ps else None)"
| "match_segs (Var x # ss) (p # ps) =
     (if p = [] then None else map_option (\<lambda>vs. (x, p) # vs) (match_segs ss ps))"
| "match_segs _ _ = None"

definition match_path :: "route_path \<Rightarrow> string \<Rightarrow> (string \<times> string) list option" where
  "match_path rp path =
     (case rp of
        Prefix p \<Rightarrow> if has_prefix path p then Some [] else None
      | Template ss \<Rightarrow>
          (case path of
             [] \<Rightarrow> None
           | c # cs \<Rightarrow> if c = CHR ''/'' then match_segs ss (split_all (CHR ''/'') cs) else None))"

definition match_route :: "route \<Rightarrow> request \<Rightarrow> (string \<times> string) list option" where
  "match_route r req =
     (if route_methods r = [] \<or> req_method req \<in> set (route_methods r)
      then match_path (route_path r) (req_path req) else None)"

section \<open>The router's decision\<close>

text \<open>The route and its variables; that a route matches but for its method; that none matches; or a
  redirection to the cleaned path.\<close>

datatype mux_match =
    Matched nat "(string \<times> string) list"
  | MethodMismatch
  | NoRoute
  | Redirect string

type_synonym mux = "route list \<Rightarrow> request \<Rightarrow> mux_match"

text \<open>\<open>path.Clean\<close> of a rooted path, with a trailing slash kept: empty and \<open>.\<close> segments go, \<open>..\<close> takes the
  segment before it along. The router redirects a path that this changes.\<close>

definition clean_step :: "string list \<Rightarrow> string \<Rightarrow> string list" where
  "clean_step done_segs w =
     (if w = [] \<or> w = ''.'' then done_segs else if w = ''..'' then butlast done_segs else done_segs @ [w])"

definition clean_path :: "string \<Rightarrow> string" where
  "clean_path p =
     (let p = (if p = [] \<or> hd p \<noteq> CHR ''/'' then CHR ''/'' # p else p);
          np = CHR ''/'' # join ''/'' (foldl clean_step [] (split_all (CHR ''/'') p))
      in if last p = CHR ''/'' \<and> np \<noteq> ''/'' then np @ ''/'' else np)"

definition mux_ok :: "mux \<Rightarrow> bool" where
  "mux_ok mux \<longleftrightarrow> (\<forall>rs req.
     case mux rs req of
       Matched i vars \<Rightarrow> i < length rs \<and> match_route (rs ! i) req = Some vars \<and>
         (\<forall>j < i. match_route (rs ! j) req = None)
     | MethodMismatch \<Rightarrow> \<forall>r \<in> set rs. match_route r req = None
     | NoRoute \<Rightarrow> \<forall>r \<in> set rs. match_route r req = None
     | Redirect p \<Rightarrow> clean_path (req_path req) \<noteq> req_path req)"

text \<open>A router that does what the documentation says, on paths that need no cleaning.\<close>

fun first_match :: "nat \<Rightarrow> route list \<Rightarrow> request \<Rightarrow> mux_match" where
  "first_match i [] req = NoRoute"
| "first_match i (r # rs) req =
     (case match_route r req of Some vars \<Rightarrow> Matched i vars | None \<Rightarrow> first_match (Suc i) rs req)"

definition plain_mux :: mux where
  "plain_mux rs req = first_match 0 rs req"

lemma first_match_cases:
  "case first_match i rs req of
     Matched k vars \<Rightarrow> i \<le> k \<and> k < i + length rs \<and> match_route (rs ! (k - i)) req = Some vars \<and>
       (\<forall>j < k - i. match_route (rs ! j) req = None)
   | NoRoute \<Rightarrow> \<forall>r \<in> set rs. match_route r req = None
   | _ \<Rightarrow> False"
proof (induction rs arbitrary: i)
  case (Cons r rs)
  show ?case
  proof (cases "match_route r req")
    case None
    then show ?thesis using Cons [of "Suc i"]
      by (auto split: mux_match.splits simp: nth_Cons less_Suc_eq_0_disj Suc_diff_le split: nat.splits)
  qed simp
qed simp

lemma plain_mux_ok: "mux_ok plain_mux"
  unfolding mux_ok_def plain_mux_def
proof (intro allI)
  fix rs req
  show "case first_match 0 rs req of
       Matched i vars \<Rightarrow> i < length rs \<and> match_route (rs ! i) req = Some vars \<and>
         (\<forall>j < i. match_route (rs ! j) req = None)
     | MethodMismatch \<Rightarrow> \<forall>r \<in> set rs. match_route r req = None
     | NoRoute \<Rightarrow> \<forall>r \<in> set rs. match_route r req = None
     | Redirect p \<Rightarrow> clean_path (req_path req) \<noteq> req_path req"
    using first_match_cases [of 0 rs req] by (simp split: mux_match.splits)
qed

lemma mux_okD:
  assumes "mux_ok mux" and "mux rs req = Matched i vars"
  shows "i < length rs" "match_route (rs ! i) req = Some vars" "\<forall>j < i. match_route (rs ! j) req = None"
  using assms unfolding mux_ok_def by (auto split: mux_match.splits)

text \<open>A clean path that the first route matches goes to it.\<close>

lemma mux_first:
  assumes "mux_ok mux" and "clean_path (req_path req) = req_path req" and "match_route r req = Some vars"
  shows "mux (r # rs) req = Matched 0 vars"
proof -
  note ok = spec [OF spec [OF assms(1) [unfolded mux_ok_def]], of "r # rs" req]
  show ?thesis
  proof (cases "mux (r # rs) req")
    case (Matched i vs)
    then show ?thesis using ok assms(3) by (cases i) auto
  qed (use ok assms(2,3) in simp_all)
qed

section \<open>Handlers behind routes\<close>

definition serve_mux ::
  "mux \<Rightarrow> (route \<times> ((string \<times> string) list \<Rightarrow> 's handler)) list \<Rightarrow> 's handler" where
  "serve_mux mux routes req srw =
     (case mux (map fst routes) req of
        Matched i vars \<Rightarrow> snd (routes ! i) vars req srw
      | MethodMismatch \<Rightarrow> Returns (fst srw, write_header 405 (snd srw))
      | NoRoute \<Rightarrow> Returns (fst srw, not_found (snd srw))
      | Redirect path \<Rightarrow>
          Returns (fst srw, write_header 301 (set_header ''Location'' path (snd srw))))"

text \<open>\<open>http.StripPrefix\<close>.\<close>

definition StripPrefix :: "string \<Rightarrow> 's handler \<Rightarrow> 's handler" where
  "StripPrefix p nexth req srw =
     (if p = [] then nexth req srw
      else if has_prefix (req_path req) p
      then nexth (req\<lparr>req_path := drop (length p) (req_path req)\<rparr>) srw
      else Returns (fst srw, not_found (snd srw)))"

end
