(* ===== verification/KVS_Plugin.thy ===== *)
theory KVS_Plugin
  imports KV_Store Mux
begin

text \<open>
  The plugin \<open>kvs\<close> (\<open>src/plugins/kvs/handlers.go\<close>, \<open>http.go\<close>): its routes and its handlers over the
  store. The state of a handler is the handle of the store and the database.
\<close>

section \<open>State and configuration\<close>

record kvs_state =
  ks_kv :: kv_state
  ks_db :: db

text \<open>
  What a request meets: the SQL engine, how a wait for the store ends, the OpenID Connect provider,
  the router, the CORS wrapper when one is configured, the scopes required, and whether the JSON
  decoder's reads of an oversized body go past the limit (the size of its reads is its own).
\<close>

record kvs_config =
  cfg_engine :: engine
  cfg_wait :: wait
  cfg_oidc :: oidc
  cfg_mux :: mux
  cfg_cors :: "(kvs_state handler \<Rightarrow> kvs_state handler) option"
  cfg_scopes :: "string list"
  cfg_reads_past :: bool

type_synonym kvs_handler = "kvs_state handler"

definition valueSizeLimit :: nat where
  "valueSizeLimit = 16384"

definition slash :: char where
  "slash = CHR ''/''"

text \<open>\<open>user.StandardClaims.Audience\<close> panics when there are no standard claims.\<close>

definition with_audience :: "auth_record \<Rightarrow> (string \<Rightarrow> 'a outcome) \<Rightarrow> 'a outcome" where
  "with_audience user f =
     (case StandardClaims user of None \<Rightarrow> Panics ''nil StandardClaims'' | Some c \<Rightarrow> f (Audience c))"

section \<open>GET\<close>

text \<open>The loop that writes the records as an array; a record that does not encode is left out.\<close>

fun write_entries :: "kv_record list \<Rightarrow> bool \<Rightarrow> rwriter \<Rightarrow> rwriter" where
  "write_entries [] first rw = rw"
| "write_entries (r # rs) first rw =
     (case EncodeToJSON r of
        Inl err \<Rightarrow> write_entries rs first rw
      | Inr d \<Rightarrow> write_entries rs False
                  (rw_write d (if first then rw else rw_write [CHR '','', CHR 0x0A] rw)))"

definition reply_array :: "string \<Rightarrow> kv_record list \<Rightarrow> rwriter \<Rightarrow> rwriter" where
  "reply_array key result rw =
     (let entries = (if 1 < length (splitN2 slash key)
                     then filter (\<lambda>r. has_prefix (Key r) key) result else result)
      in rw_write [CHR '']'', CHR 0x0A]
           (write_entries entries True
             (rw_write [CHR ''['', CHR 0x0A]
               (write_header 200 (set_header ''Content-Type'' json_prefix rw)))))"

definition octet_stream :: string where
  "octet_stream = ''application/octet-stream''"

definition reply_entry :: "bool \<Rightarrow> kv_record \<Rightarrow> rwriter \<Rightarrow> rwriter" where
  "reply_entry raw r rw =
     (if raw
      then rw_write (bytes (Value r)) (write_header 200
             (set_header ''Content-Type'' (if ContentType r \<noteq> [] then ContentType r else octet_stream) rw))
      else (case EncodeToJSON r of
              Inl err \<Rightarrow> http_error [] 500 rw
            | Inr d \<Rightarrow> rw_write d (write_header 200 (set_header ''Content-Type'' json_prefix rw))))"

definition handleGet :: "kvs_config \<Rightarrow> string \<Rightarrow> string \<Rightarrow> auth_record \<Rightarrow> kvs_handler" where
  "handleGet cfg realm key user req srw =
     with_audience user (\<lambda>aud.
       let recurse = (form_get req ''recurse'' = ''1'');
           raw = (form_get req ''raw'' = ''1'');
           parts = splitN2 slash key;
           record = empty_record\<lparr>Collection := (if 0 < length parts \<and> recurse then Some (parts ! 0) else None),
             Key := key, OwnerID := AuthenticatedUserID user, ClientID := aud\<rparr>;
           s = fst srw; rw = snd srw
       in case Get (cfg_engine cfg) (cfg_wait cfg) (ks_kv s) realm record (ks_db s) of
            (Inl err, d) \<Rightarrow> Returns (s\<lparr>ks_db := d\<rparr>, http_error [] 500 rw)
          | (Inr result, d) \<Rightarrow>
              Returns (s\<lparr>ks_db := d\<rparr>,
                if \<not> recurse \<and> result = [] then not_found rw
                else if recurse \<or> 1 < length result then reply_array key result rw
                else reply_entry raw (result ! 0) rw))"

section \<open>PUT of one document\<close>

definition handleCreateOrUpdate :: "kvs_config \<Rightarrow> string \<Rightarrow> string \<Rightarrow> auth_record \<Rightarrow> kvs_handler" where
  "handleCreateOrUpdate cfg realm key user req srw =
     (case read_all_max valueSizeLimit req (snd srw) of
        (Inl err, rw) \<Rightarrow> Returns (fst srw, http_error [] 400 rw)
      | (Inr body, rw) \<Rightarrow>
          with_audience user (\<lambda>aud.
            let parts = splitN2 slash key;
                collection = (if 1 < length parts then parts ! 0 else []);
                record = empty_record\<lparr>Collection := Some collection, Key := key, Value := Some body,
                  ContentType := header_get (req_header req) ''Content-Type'',
                  OwnerID := AuthenticatedUserID user, ClientID := aud\<rparr>;
                s = fst srw
            in case CreateOrUpdate (cfg_engine cfg) (cfg_wait cfg) (ks_kv s) realm record (ks_db s) of
                 (Inl err, d) \<Rightarrow> Returns (s\<lparr>ks_db := d\<rparr>, http_error [] 500 rw)
               | (Inr _, d) \<Rightarrow> Returns (s\<lparr>ks_db := d\<rparr>, write_header 200 rw)))"

section \<open>PUT of a batch\<close>

definition batchSizeLimit :: nat where
  "batchSizeLimit = valueSizeLimit * 500"

text \<open>
  \<open>Decode\<close> of the body into a list of records. The decoder stops behind the first value; an array is
  complete with its last byte, while \<open>null\<close> needs the end of the body or a further byte. The reply's
  header is touched when reading went past the limit.
\<close>

definition decode_batch :: "bool \<Rightarrow> request \<Rightarrow> rwriter \<Rightarrow> record_json option list option \<times> rwriter" where
  "decode_batch reads_past req rw =
     (let body = take batchSizeLimit (req_body req);
          broken = (batchSizeLimit < length (req_body req) \<or> req_body_fail req);
          rw' = (if reads_past \<and> batchSizeLimit < length (req_body req) \<and> rw_reply rw = None
                 then set_header ''Connection'' ''close'' rw else rw)
      in (case json_first (skip_ws body) of
            None \<Rightarrow> None
          | Some (v, r) \<Rightarrow> if v = JNull \<and> r = [] \<and> broken then None else decode_record_list body v, rw'))"

text \<open>The Base64 value of a record: the buffer has the length that the whole raw message, quotes
  included, could decode to, and keeps it.\<close>

definition decode_value :: "string \<Rightarrow> string option" where
  "decode_value raw =
     (case b64_decode (trim_byte quot raw) of
        None \<Rightarrow> None
      | Some d \<Rightarrow> Some (d @ replicate (DecodedLen (length raw) - length d) (CHR 0x00)))"

definition batch_record :: "string \<Rightarrow> auth_record \<Rightarrow> record_json option \<Rightarrow> kv_record option outcome" where
  "batch_record key user ir =
     (case ir of
        None \<Rightarrow> Panics ''nil record''
      | Some j \<Rightarrow>
          (case JKey j of
             None \<Rightarrow> Panics ''nil key''
           | Some k \<Rightarrow>
               with_audience user (\<lambda>aud.
                 let r = empty_record\<lparr>Collection := Some (splitN2 slash key ! 0), Key := key @ slash # k,
                       ContentType := JContentType j, OwnerID := AuthenticatedUserID user, ClientID := aud\<rparr> in
                 if has_prefix (JContentType j) json_prefix then Returns (Some (r\<lparr>Value := JValue j\<rparr>))
                 else (case decode_value (bytes (JValue j)) of
                         None \<Rightarrow> Returns None
                       | Some d \<Rightarrow> Returns (Some (r\<lparr>Value := Some d\<rparr>))))))"

fun batch_records ::
  "string \<Rightarrow> auth_record \<Rightarrow> record_json option list \<Rightarrow> kv_record list option outcome" where
  "batch_records key user [] = Returns (Some [])"
| "batch_records key user (ir # irs) =
     obind (batch_record key user ir) (\<lambda>x.
       case x of
         None \<Rightarrow> Returns None
       | Some r \<Rightarrow> obind (batch_records key user irs) (\<lambda>rs. Returns (map_option ((#) r) rs)))"

definition handleBatchCreateOrUpdate :: "kvs_config \<Rightarrow> string \<Rightarrow> string \<Rightarrow> auth_record \<Rightarrow> kvs_handler" where
  "handleBatchCreateOrUpdate cfg realm key user req srw =
     (case decode_batch (cfg_reads_past cfg) req (snd srw) of
        (None, rw) \<Rightarrow> Returns (fst srw, http_error [] 400 rw)
      | (Some [], rw) \<Rightarrow> Returns (fst srw, write_header 200 rw)
      | (Some irs, rw) \<Rightarrow>
          obind (batch_records key user irs) (\<lambda>x.
            case x of
              None \<Rightarrow> Returns (fst srw, http_error [] 400 rw)
            | Some records \<Rightarrow>
                (let s = fst srw in
                 obind (BatchCreateOrUpdate (cfg_engine cfg) (ks_kv s) realm records (ks_db s))
                   (\<lambda>(res, d). Returns (s\<lparr>ks_db := d\<rparr>,
                      case res of Inl err \<Rightarrow> http_error [] 500 rw | Inr _ \<Rightarrow> write_header 200 rw)))))"

section \<open>DELETE\<close>

definition handleDelete :: "kvs_config \<Rightarrow> string \<Rightarrow> string \<Rightarrow> auth_record \<Rightarrow> kvs_handler" where
  "handleDelete cfg realm key user req srw =
     with_audience user (\<lambda>aud.
       let record = empty_record\<lparr>Key := key, OwnerID := AuthenticatedUserID user, ClientID := aud\<rparr>;
           s = fst srw; rw = snd srw
       in case KV_Delete (cfg_engine cfg) (cfg_wait cfg) (ks_kv s) realm record (ks_db s) of
            (Inl err, d) \<Rightarrow> Returns (s\<lparr>ks_db := d\<rparr>, http_error [] 500 rw)
          | (Inr ok, d) \<Rightarrow> Returns (s\<lparr>ks_db := d\<rparr>, write_header (if ok then 200 else 404) rw))"

section \<open>Setting up\<close>

text \<open>
  What \<open>Initialize\<close> does with the environment (an unset variable reads as the empty string) and with
  the package variable \<open>scopesRequired\<close>. The routes are made first, with the scopes as they are then.
  The goroutine it starts is in \<open>KV_Lifecycle\<close>.
\<close>

definition kvs_scopesRequired :: "string list" where
  "kvs_scopesRequired = [''kopano/kvs'']"

record kvs_setup =
  su_store :: kv_state
  su_cors :: bool
  su_route_scopes :: "string list"
  su_scopesRequired :: "string list"

definition kvs_Initialize :: "string list \<Rightarrow> (string \<Rightarrow> string) \<Rightarrow> kv_error + kvs_setup" where
  "kvs_Initialize scopesRequired getenv =
     (case New (getenv ''KOPANO_KVS_DB_DRIVER'') (getenv ''KOPANO_KVS_DB_DATASOURCE'')
             (getenv ''KOPANO_KVS_DB_MIGRATIONS'') of
        Inl err \<Rightarrow> Inl err
      | Inr store \<Rightarrow>
          (let scopes = getenv ''KOPANO_KVS_REQUIRED_SCOPES'' in
           Inr \<lparr>su_store = store, su_cors = (getenv ''KOPANO_KVS_ALLOW_CORS'' = ''1''),
             su_route_scopes = scopesRequired,
             su_scopesRequired = (if scopes \<noteq> [] then split_all (CHR '' '') scopes else scopesRequired)\<rparr>))"

section \<open>The handler and the routes\<close>

definition user_realm :: string where
  "user_realm = ''user''"

definition handleUserKV :: "kvs_config \<Rightarrow> kvs_handler" where
  "handleUserKV cfg req srw =
     (case RecordFromContext (req_ctx req) of
        (None, _) \<Rightarrow> Returns (fst srw, http_error [] 403 (snd srw))
      | (Some user, _) \<Rightarrow>
          (let key = req_path req; req = ParseForm req in
           if req_method req = ''GET'' then handleGet cfg user_realm key user req srw
           else if req_method req = ''PUT''
           then (if form_get req ''batch'' = ''1'' then handleBatchCreateOrUpdate cfg user_realm key user req srw
                 else handleCreateOrUpdate cfg user_realm key user req srw)
           else if req_method req = ''DELETE'' then handleDelete cfg user_realm key user req srw
           else Returns (fst srw, http_error [] 501 (snd srw))))"

definition kvs_base :: string where
  "kvs_base = ''/api/kvs/v1/''"

definition kvs_user_prefix :: string where
  "kvs_user_prefix = kvs_base @ ''kv/user/''"

definition MakeHTTPUserKVHandler :: "kvs_config \<Rightarrow> kvs_handler" where
  "MakeHTTPUserKVHandler cfg = (\<lambda>req srw. handleUserKV cfg req srw)"

lemma MakeHTTPUserKVHandler_eq [simp]: "MakeHTTPUserKVHandler cfg = handleUserKV cfg"
  by (simp add: MakeHTTPUserKVHandler_def)

definition kvs_routes :: "kvs_config \<Rightarrow> (route \<times> ((string \<times> string) list \<Rightarrow> kvs_handler)) list" where
  "kvs_routes cfg =
     [(\<lparr>route_path = Prefix kvs_user_prefix, route_methods = []\<rparr>,
       \<lambda>vars. StripPrefix kvs_user_prefix (AccessTokenRequired (cfg_oidc cfg) (MakeHTTPUserKVHandler cfg) (cfg_scopes cfg)))]"

text \<open>The routes are those of a subrouter for \<open>kvs_base\<close>; every template starts with it.\<close>

definition kvs_http :: "kvs_config \<Rightarrow> kvs_handler" where
  "kvs_http cfg = serve_mux (cfg_mux cfg) (kvs_routes cfg)"

definition kvs_ServeHTTP :: "kvs_config \<Rightarrow> kvs_state plugin" where
  "kvs_ServeHTTP cfg req srw =
     (if has_prefix (req_path req) kvs_base
      then obind ((case cfg_cors cfg of None \<Rightarrow> kvs_http cfg | Some wrap \<Rightarrow> wrap (kvs_http cfg)) req srw)
             (\<lambda>srw'. Returns (srw', True, False))
      else Returns (srw, False, False))"

interpretation kvs_path: answering_plugin "kvs_ServeHTTP cfg" "\<lambda>req. has_prefix (req_path req) kvs_base"
  for cfg :: kvs_config
  by standard (auto simp: kvs_ServeHTTP_def obind_eq_Returns)

end
