(* ===== verification/KV_Props.thy ===== *)
theory KV_Props
  imports KV_Lifecycle
begin

text \<open>
  The properties of the store of \<open>src/plugins/kvs/kv/kv.go\<close> that a client of it sees: what is read
  after a write, who sees which documents, what a batch does, and what happens when the store is not
  ready. They follow from the laws of \<open>keyed_store\<close> on the model's table.
\<close>

section \<open>A run of operations\<close>

datatype kv_op = OpPut kv_record | OpDelete kv_record | OpBatch "kv_record list" | OpGet kv_record

fun kv_run :: "engine \<Rightarrow> kv_state \<Rightarrow> string \<Rightarrow> kv_op list \<Rightarrow> db \<Rightarrow> db" where
  "kv_run e kv realm [] d = d"
| "kv_run e kv realm (OpPut r # ops) d =
     kv_run e kv realm ops (snd (CreateOrUpdate e WReady kv realm r d))"
| "kv_run e kv realm (OpDelete r # ops) d =
     kv_run e kv realm ops (snd (KV_Delete e WReady kv realm r d))"
| "kv_run e kv realm (OpBatch rs # ops) d =
     (case BatchCreateOrUpdate e kv realm rs d of
        Returns (x, d') \<Rightarrow> kv_run e kv realm ops d'
      | Panics m \<Rightarrow> kv_run e kv realm ops d)"
| "kv_run e kv realm (OpGet r # ops) d = kv_run e kv realm ops (snd (Get e WReady kv realm r d))"

lemma CreateOrUpdate_table_ok:
  "table_ok e (db_rows d) \<Longrightarrow> table_ok e (db_rows (snd (CreateOrUpdate e w kv realm r d)))"
  using sql_exec_table_ok [of e d _ "record_args e realm r"]
  by (auto simp: CreateOrUpdate_def split: sum.split prod.split sql_result.split)
    (metis snd_conv)+

lemma KV_Delete_table_ok:
  "table_ok e (db_rows d) \<Longrightarrow> table_ok e (db_rows (snd (KV_Delete e w kv realm r d)))"
  using sql_exec_table_ok [of e d]
  by (auto simp: KV_Delete_def split: sum.split prod.split sql_result.split)
    (metis snd_conv)+

lemma Get_rows [frame]: 
  assumes "Stmt kv w stmtIDGet \<in> {Inl x, Inr (preparedStmts stmtIDGet)}"
    and "Stmt kv w stmtIDGetCollection \<in> {Inl y, Inr (preparedStmts stmtIDGetCollection)}"
  shows "db_rows (snd (Get e w kv realm r d)) = db_rows d"
  using assms
  by (auto simp: Get_def sql_exec_def Let_def split: option.split sum.split prod.split sql_result.split)

lemma batch_loop_table_ok:
  "table_ok e (db_rows d) \<Longrightarrow> table_ok e (db_rows (snd (batch_loop e realm rs acc d)))"
proof (induction rs arbitrary: acc d)
  case (Cons r rs)
  have ok: "table_ok e (db_rows (snd (sql_exec e (preparedStmts stmtIDCreateOrUpdate) (record_args e realm r) d)))"
    using Cons.prems by (rule sql_exec_table_ok)
  show ?case
    by (cases "sql_exec e (preparedStmts stmtIDCreateOrUpdate) (record_args e realm r) d")
      (use ok Cons.IH in \<open>auto split: sum.split sql_result.split option.split\<close>)
qed simp

lemma BatchCreateOrUpdate_table_ok:
  assumes "table_ok e (db_rows d)" and "BatchCreateOrUpdate e kv realm rs d = Returns (x, d')"
  shows "table_ok e (db_rows d')"
  using assms batch_loop_table_ok [of e "db_tick (db_tick d)" realm rs 0]
  by (auto simp: BatchCreateOrUpdate_def rollback_def split: if_splits prod.splits sum.splits)

text \<open>When the loop ends without error every record was stored, whatever the engine did.\<close>

lemma batch_loop_Inr:
  assumes "engine_ok e" and "batch_loop e realm rs acc d = (Inr n, d')"
  shows "list_all (storable e) rs \<and> acc + length rs \<le> n \<and>
    db_rows d' = fold (table_put e) (map (record_row e realm) rs) (db_rows d)"
  using assms(2)
proof (induction rs arbitrary: acc d)
  case (Cons r rs)
  let ?x = "sql_exec e (preparedStmts stmtIDCreateOrUpdate) (record_args e realm r) d"
  have nf: "\<not> eng_fault e (db_calls d)" and st: "storable e r"
    using Cons.prems sql_exec_replace [of e d realm r]
    by (auto simp: sql_exec_def Let_def split: if_splits)
  obtain k where k: "eng_affected e (length (filter (\<lambda>s. conflicts e s (record_row e realm r)) (db_rows d))) 1 = Some k"
    and k0: "k \<noteq> 0"
    using eng_affected_Some [OF assms(1), of "length (filter (\<lambda>s. conflicts e s (record_row e realm r)) (db_rows d))" 1]
    by (elim exE conjE) (rule that, simp_all)
  have "batch_loop e realm rs (acc + k)
      ((db_tick d)\<lparr>db_rows := table_put e (record_row e realm r) (db_rows d)\<rparr>) = (Inr n, d')"
    using Cons.prems sql_exec_replace [OF nf, of realm r] k st by simp
  from Cons.IH [OF this] show ?case using st k0 by simp
qed simp

lemma BatchCreateOrUpdate_returns:
  assumes "kv_db kv" shows "\<exists>x d'. BatchCreateOrUpdate e kv realm rs d = Returns (x, d')"
  by (cases "BatchCreateOrUpdate e kv realm rs d")
    (use assms in \<open>auto simp: BatchCreateOrUpdate_def split: if_splits\<close>)

lemma BatchCreateOrUpdate_Inr:
  assumes "engine_ok e" and "BatchCreateOrUpdate e kv realm rs d = Returns (Inr u, d')"
  shows "list_all (storable e) rs \<and>
    db_rows d' = fold (table_put e) (map (record_row e realm) rs) (db_rows d)"
proof -
  obtain n d1 where b: "batch_loop e realm rs 0 (db_tick (db_tick d)) = (Inr n, d1)"
    and d': "d' = (if n = 0 then rollback d d1 else db_tick d1)"
    using assms(2)
    by (auto simp: BatchCreateOrUpdate_def split: if_splits prod.splits sum.splits)
  from batch_loop_Inr [OF assms(1) b] show ?thesis
    using d' by (auto simp: rollback_def)
qed

section \<open>The abstract store\<close>

text \<open>What the store promises: a map from keys (with owner and realm, up to the collation) to rows.
  A delete removes a row of the same client only.\<close>

definition spec_put :: "engine \<Rightarrow> string \<Rightarrow> kv_record \<Rightarrow> (row_index \<rightharpoonup> row) \<Rightarrow> row_index \<rightharpoonup> row" where
  "spec_put e realm r m = m(record_index e realm r \<mapsto> record_row e realm r)"

definition spec_delete :: "engine \<Rightarrow> string \<Rightarrow> kv_record \<Rightarrow> (row_index \<rightharpoonup> row) \<Rightarrow> row_index \<rightharpoonup> row" where
  "spec_delete e realm r m =
     (case m (record_index e realm r) of
        None \<Rightarrow> m
      | Some row \<Rightarrow> if client_is e (ClientID r) row then m(record_index e realm r := None) else m)"

fun spec_op :: "engine \<Rightarrow> string \<Rightarrow> kv_op \<Rightarrow> (row_index \<rightharpoonup> row) \<Rightarrow> row_index \<rightharpoonup> row" where
  "spec_op e realm (OpPut r) m = spec_put e realm r m"
| "spec_op e realm (OpDelete r) m = spec_delete e realm r m"
| "spec_op e realm (OpBatch rs) m = fold (spec_put e realm) rs m"
| "spec_op e realm (OpGet r) m = m"

fun op_storable :: "engine \<Rightarrow> kv_op \<Rightarrow> bool" where
  "op_storable e (OpPut r) \<longleftrightarrow> storable e r"
| "op_storable e (OpBatch rs) \<longleftrightarrow> list_all (storable e) rs"
| "op_storable e _ \<longleftrightarrow> True"

lemma spec_put_refines:
  assumes "table_ok e t" and "storable e r"
  shows "table_get e (table_put e (record_row e realm r) t) = spec_put e realm r (table_get e t)"
  by (rule ext) (use assms(2) in \<open>simp add: spec_put_def kvt.get_put [OF assms(1)]\<close>)

lemma spec_delete_refines:
  assumes "table_ok e t"
  shows "table_get e (table_del e (record_index e realm r) (client_is e (ClientID r)) t)
    = spec_delete e realm r (table_get e t)"
  by (rule ext) (auto simp: kvt.get_del [OF assms] spec_delete_def split: option.split)

lemma spec_batch_refines:
  assumes "table_ok e t" and "list_all (storable e) rs"
  shows "table_get e (fold (table_put e) (map (record_row e realm) rs) t)
    = fold (spec_put e realm) rs (table_get e t)"
  using assms
  by (induction rs arbitrary: t) (simp_all add: kvt.inv_put spec_put_refines)

text \<open>One operation, on the table and on the map.\<close>

definition never_faults :: "engine \<Rightarrow> bool" where
  "never_faults e \<longleftrightarrow> (\<forall>n. \<not> eng_fault e n)"

lemma kv_run_op:
  "kv_run e kv realm (op # ops) d = kv_run e kv realm ops (kv_run e kv realm [op] d)"
  by (cases op) (auto split: outcome.split)

lemma kv_run_one_table_ok:
  assumes "kv_ready kv" and "table_ok e (db_rows d)"
  shows "table_ok e (db_rows (kv_run e kv realm [op] d))"
proof (cases op)
  case (OpGet r)
  then show ?thesis using assms Get_rows [of kv WReady _ _ e realm r d] Stmt_ready [OF assms(1)] by simp
next
  case (OpBatch rs)
  then show ?thesis using assms BatchCreateOrUpdate_table_ok [of e d kv realm rs]
    by (auto split: outcome.split)
qed (use assms CreateOrUpdate_table_ok KV_Delete_table_ok in simp_all)

lemma kv_run_one_refines:
  assumes "engine_ok e" and "never_faults e" and "kv_ready kv" and "table_ok e (db_rows d)"
    and "op_storable e op"
  shows "table_get e (db_rows (kv_run e kv realm [op] d)) = spec_op e realm op (table_get e (db_rows d))"
proof (cases op)
  case (OpPut r)
  then show ?thesis
    using assms CreateOrUpdate_ready [OF assms(1,3), of d realm r] spec_put_refines [OF assms(4)]
    by (simp add: never_faults_def)
next
  case (OpDelete r)
  then show ?thesis
    using assms KV_Delete_ready [OF assms(1,4,3), of realm r] spec_delete_refines [OF assms(4)]
    by (simp add: never_faults_def)
next
  case (OpGet r)
  then show ?thesis using Get_rows [of kv WReady _ _ e realm r d] Stmt_ready [OF assms(3)] by simp
next
  case (OpBatch rs)
  obtain x d' where b: "BatchCreateOrUpdate e kv realm rs d = Returns (x, d')"
    using assms(3) BatchCreateOrUpdate_returns kv_ready_def by blast
  have "isl x \<Longrightarrow> False"
  proof -
    assume "isl x"
    then obtain y where "x = Inl y" by (cases x) auto
    then have "\<exists>z. fst (batch_loop e realm rs 0 (db_tick (db_tick d))) = Inl z"
      using b assms(2) by (auto simp: BatchCreateOrUpdate_def never_faults_def split: if_splits prod.splits sum.splits)
    then show False
      using batch_loop_error [of e realm rs 0 "db_tick (db_tick d)"] assms(2,5) OpBatch
      by (auto simp: never_faults_def list_all_length)
  qed
  then obtain u where "x = Inr u" by (cases x) auto
  then show ?thesis
    using BatchCreateOrUpdate_Inr [OF assms(1), of kv realm rs d u d'] b OpBatch
      spec_batch_refines [OF assms(4), of rs realm] by simp
qed

section \<open>What a read may show\<close>

text \<open>The rows a read is meant to find: of the owner, client and realm, and under the key, or in the
  collection when there is one.\<close>

definition visible :: "engine \<Rightarrow> string \<Rightarrow> kv_record \<Rightarrow> row \<Rightarrow> bool" where
  "visible e realm r row \<longleftrightarrow>
     sql_eq e (row COwner) (SVal (OwnerID r)) \<and> client_is e (ClientID r) row \<and>
     sql_eq e (row CRealm) (SVal realm) \<and>
     (case Collection r of
        None \<Rightarrow> sql_eq e (row CKey) (SVal (Key r))
      | Some c \<Rightarrow> sql_eq e (row CCollection) (SVal c))"

lemma Get_ready:
  assumes "kv_ready kv" and "\<not> eng_fault e (db_calls d)"
  shows "Get e WReady kv realm r d =
    (if eng_rows_fault e (db_calls d) then Inl RowsError
     else Inr (map (view_row e) (take 500 (eng_order e (db_calls d) (filter (visible e realm r) (db_rows d))))),
     db_tick d)"
proof (cases "Collection r")
  case None
  have "where_holds e [CKey, COwner, CClient, CRealm]
      [SVal (Key r), SVal (OwnerID r), SVal (ClientID r), SVal realm] = visible e realm r"
    by (rule ext) (auto simp: where_holds_def visible_def client_is_def None)
  then show ?thesis
    using assms None Stmt_ready [OF assms(1)]
    by (simp add: Get_def sql_exec_def Let_def select_where_def view_row_def selected_columns_def o_def)
next
  case (Some c)
  have "where_holds e [CCollection, COwner, CClient, CRealm]
      [SVal c, SVal (OwnerID r), SVal (ClientID r), SVal realm] = visible e realm r"
    by (rule ext) (auto simp: where_holds_def visible_def client_is_def Some)
  then show ?thesis
    using assms Some Stmt_ready [OF assms(1)]
    by (simp add: Get_def sql_exec_def Let_def select_where_def view_row_def selected_columns_def o_def)
qed

lemma mset_take_subset: "mset (take n xs) \<subseteq># mset xs"
  by (metis append_take_drop_id mset_append mset_subset_eq_add_left)

text \<open>A sample document, and the empty database.\<close>

definition sample_record :: kv_record where
  "sample_record = empty_record\<lparr>Key := ''notes/a'', Value := Some ''x'', ContentType := ''text/plain'',
     OwnerID := ''alice'', ClientID := ''web''\<rparr>"

definition empty_db :: db where
  "empty_db = \<lparr>db_rows = [], db_calls = 0\<rparr>"

lemma sample_simps [simp]:
  "Key sample_record = ''notes/a''" "Value sample_record = Some ''x''" "OwnerID sample_record = ''alice''"
  "ClientID sample_record = ''web''" "ContentType sample_record = ''text/plain''"
  "Collection sample_record = None" "RequiredScopes sample_record = []"
  "db_rows empty_db = []" "db_calls empty_db = 0"
  by (simp_all add: sample_record_def empty_record_def empty_db_def)

lemma sqlite_simps [simp]:
  "never_faults sqlite_engine" "\<not> eng_fault sqlite_engine n" "\<not> eng_rows_fault sqlite_engine n"
  "eng_last_id sqlite_engine" "eng_norm sqlite_engine s = s" "eng_bind_blob sqlite_engine s = SVal s"
  "eng_scan_blob sqlite_engine s = Some s" "eng_order sqlite_engine n rs = rs"
  by (simp_all add: sqlite_engine_def never_faults_def)

lemma storable_sample [simp]: "storable sqlite_engine sample_record"
  by (simp add: storable_def bind_blob_def)

section \<open>Properties\<close>

text \<open>C1: the store implements a map. Any run of puts, deletes, batches and reads on a ready handle,
  from any table that satisfies the constraints of the schema, acts on the map the table stands for
  exactly as the abstract store does.\<close>

theorem store_refines_map:
  assumes "engine_ok e" and "never_faults e" and "kv_ready kv" and "table_ok e (db_rows d)"
    and "list_all (op_storable e) ops"
  shows "table_get e (db_rows (kv_run e kv realm ops d)) = fold (spec_op e realm) ops (table_get e (db_rows d))"
  using assms(4,5)
proof (induction ops arbitrary: d)
  case (Cons op ops)
  have step: "table_get e (db_rows (kv_run e kv realm [op] d)) = spec_op e realm op (table_get e (db_rows d))"
    by (rule kv_run_one_refines) (use assms Cons.prems in simp_all)
  have "table_ok e (db_rows (kv_run e kv realm [op] d))"
    by (rule kv_run_one_table_ok) (use assms Cons.prems in simp_all)
  from Cons.IH [OF this] show ?case
    unfolding kv_run_op [of e kv realm op ops] using Cons.prems step by simp
qed simp

theorem store_refines_map_witness:
  "table_get sqlite_engine (db_rows (kv_run sqlite_engine ready_kv ''user''
      [OpPut sample_record, OpDelete (sample_record\<lparr>ClientID := ''other''\<rparr>)] empty_db))
    (''notes/a'', ''alice'', ''user'') = Some (record_row sqlite_engine ''user'' sample_record)"
  using store_refines_map [OF sqlite_engine_ok sqlite_simps(1) ready_kv_ready, of empty_db
      "[OpPut sample_record, OpDelete (sample_record\<lparr>ClientID := ''other''\<rparr>)]" "''user''"]
  by (simp add: spec_put_def spec_delete_def record_index_def)



text \<open>What was put is what is read: after a put that the engine does not refuse, a read by the
  same key, owner, client and realm gives exactly that document, with its value, content type and
  scopes.\<close>

theorem get_after_put:
  assumes "engine_ok e" and "never_faults e" and "\<not> eng_rows_fault e (Suc (db_calls d))" and "eng_last_id e"
    and "kv_ready kv" and "table_ok e (db_rows d)" and "Value r = Some b" and "b \<noteq> []"
    and "CreateOrUpdate e WReady kv realm r d = (res, d')"
  shows "res = Inr () \<and> fst (Get e WReady kv realm (r\<lparr>Collection := None\<rparr>) d') =
    Inr [empty_record\<lparr>Key := Key r, Value := Some b, ContentType := ContentType r,
      RequiredScopes := RequiredScopes r\<rparr>]"
proof -
  have st: "storable e r" using assms storable_value by blast
  have d': "d' = (db_tick d)\<lparr>db_rows := table_put e (record_row e realm r) (db_rows d)\<rparr>"
    and res: "res = Inr ()"
    using CreateOrUpdate_ready [OF assms(1,5), of d realm r] assms(2,4,9) st
    by (simp_all add: never_faults_def)
  have ok: "table_ok e (db_rows d')" using d' assms(6) by (simp add: kvt.inv_put)
  have i: "record_index e realm (r\<lparr>Collection := None\<rparr>) = record_index e realm r"
    by (simp add: record_index_def)
  have "table_get e (db_rows d') (record_index e realm r) = Some (record_row e realm r)"
    using d' st by (simp add: kvt.get_put_same [OF assms(6)])
  then show ?thesis
    using Get_key_ready [OF assms(1) ok assms(5), of "r\<lparr>Collection := None\<rparr>" realm] assms(2,3) d' res
      view_row_record [OF assms(1,7,8), of realm] i
    by (simp add: never_faults_def)
qed

theorem get_after_put_witness:
  "fst (Get sqlite_engine WReady ready_kv ''user'' sample_record
     (snd (CreateOrUpdate sqlite_engine WReady ready_kv ''user'' sample_record empty_db)))
   = Inr [empty_record\<lparr>Key := ''notes/a'', Value := Some ''x'', ContentType := ''text/plain''\<rparr>]"
proof -
  obtain res d' where c: "CreateOrUpdate sqlite_engine WReady ready_kv ''user'' sample_record empty_db = (res, d')"
    by fastforce
  have "sample_record\<lparr>Collection := None\<rparr> = sample_record"
    by (simp add: sample_record_def empty_record_def)
  note same = this
  show ?thesis
    using get_after_put [OF sqlite_engine_ok sqlite_simps(1) _ _ ready_kv_ready _ _ _ c, of "''x''"] c same
    by (simp add: empty_record_def)
qed

text \<open>C13: a read shows documents of the given owner, client and realm only: the rows it is made of
  are stored rows that match (by key, or by collection), each at most once, and all of them up to the
  limit of 500.\<close>

theorem get_shows_matching_rows:
  assumes "engine_ok e" and "kv_ready kv" and "Get e WReady kv realm r d = (Inr res, d')"
  shows "\<exists>rows. res = map (view_row e) rows \<and>
    mset rows \<subseteq># mset (filter (visible e realm r) (db_rows d)) \<and>
    length rows = min 500 (length (filter (visible e realm r) (db_rows d)))"
proof -
  have nf: "\<not> eng_fault e (db_calls d)"
    using assms(2,3) Stmt_ready [OF assms(2)] by (auto simp: Get_def sql_exec_def split: option.splits)
  let ?rows = "take 500 (eng_order e (db_calls d) (filter (visible e realm r) (db_rows d)))"
  have "res = map (view_row e) ?rows"
    using assms(3) Get_ready [OF assms(2) nf, of realm r] by (auto split: if_splits)
  moreover have "mset ?rows \<subseteq># mset (filter (visible e realm r) (db_rows d))"
    using mset_take_subset assms(1) unfolding engine_ok_def by metis
  moreover have "length ?rows = min 500 (length (filter (visible e realm r) (db_rows d)))"
    using length_eng_order [OF assms(1)] by simp
  ultimately show ?thesis by blast
qed

theorem get_shows_matching_rows_witness:
  "\<exists>res d'. Get sqlite_engine WReady ready_kv ''user'' sample_record
     \<lparr>db_rows = [record_row sqlite_engine ''user'' sample_record], db_calls = 0\<rparr> = (Inr res, d') \<and>
   length res = 1"
proof -
  let ?d = "\<lparr>db_rows = [record_row sqlite_engine ''user'' sample_record], db_calls = 0\<rparr>"
  obtain res d' where g: "Get sqlite_engine WReady ready_kv ''user'' sample_record ?d = (Inr res, d')"
    using Get_ready [OF ready_kv_ready, of sqlite_engine ?d "''user''" sample_record] by simp
  have "visible sqlite_engine ''user'' sample_record (record_row sqlite_engine ''user'' sample_record)"
    by (simp add: visible_def)
  then show ?thesis
    using get_shows_matching_rows [OF sqlite_engine_ok ready_kv_ready g] g by auto
qed

text \<open>A delete reports success exactly when a read by the same key would have found a document,
  and then that read finds none any more, while the documents of every other key stay.\<close>

theorem delete_removes:
  assumes "engine_ok e" and "never_faults e" and "kv_ready kv" and "table_ok e (db_rows d)"
    and "Collection r = None" and "\<forall>n. \<not> eng_rows_fault e n"
  shows "\<exists>docs d'. fst (Get e WReady kv realm r d) = Inr docs \<and>
    KV_Delete e WReady kv realm r d = (Inr (docs \<noteq> []), d') \<and>
    fst (Get e WReady kv realm r d') = Inr [] \<and>
    (\<forall>i. i \<noteq> record_index e realm r \<longrightarrow> table_get e (db_rows d') i = table_get e (db_rows d) i)"
proof -
  let ?i = "record_index e realm r"
  let ?d = "(db_tick d)\<lparr>db_rows := table_del e ?i (client_is e (ClientID r)) (db_rows d)\<rparr>"
  let ?docs = "case table_get e (db_rows d) ?i of None \<Rightarrow> []
    | Some row \<Rightarrow> if client_is e (ClientID r) row then [view_row e row] else []"
  have get: "fst (Get e WReady kv realm r d) = Inr ?docs"
    using Get_key_ready [OF assms(1,4,3,5), of realm] assms(2,6) by (simp add: never_faults_def)
  have del: "KV_Delete e WReady kv realm r d = (Inr (?docs \<noteq> []), ?d)"
    using KV_Delete_ready [OF assms(1,4,3), of realm r] assms(2)
    by (simp add: never_faults_def split: option.split)
  have "table_ok e (db_rows ?d)" using assms(4) by (simp add: kvt.inv_del)
  from Get_key_ready [OF assms(1) this assms(3,5), of realm]
  have gone: "fst (Get e WReady kv realm r ?d) = Inr []"
    using assms(2,6) by (simp add: never_faults_def kvt.get_del [OF assms(4)] split: option.split) blast
  have "\<forall>i. i \<noteq> ?i \<longrightarrow> table_get e (db_rows ?d) i = table_get e (db_rows d) i"
    by (simp add: kvt.get_del [OF assms(4)])
  with get del gone show ?thesis by blast
qed

theorem delete_removes_witness:
  "\<exists>d'. KV_Delete sqlite_engine WReady ready_kv ''user'' sample_record
     \<lparr>db_rows = [record_row sqlite_engine ''user'' sample_record], db_calls = 0\<rparr> = (Inr True, d') \<and>
   fst (Get sqlite_engine WReady ready_kv ''user'' sample_record d') = Inr []"
proof -
  let ?d = "\<lparr>db_rows = [record_row sqlite_engine ''user'' sample_record], db_calls = 0\<rparr>"
  have ok: "table_ok sqlite_engine (db_rows ?d)"
    using kvt.inv_put [OF table_ok_Nil, of sqlite_engine "record_row sqlite_engine ''user'' sample_record"]
    by (simp add: table_put_def replace_row_def)
  have "fst (Get sqlite_engine WReady ready_kv ''user'' sample_record ?d) \<noteq> Inr []"
    using Get_key_ready [OF sqlite_engine_ok ok ready_kv_ready sample_simps(6), of "''user''"]
    by (simp add: table_get_def)
  then show ?thesis
    using delete_removes [OF sqlite_engine_ok sqlite_simps(1) ready_kv_ready ok sample_simps(6), of "''user''"]
    by auto
qed

text \<open>C11: a batch is all or nothing: when it reports an error the table is as it was; when it reports
  success every record is in it, the last one winning under each key, and the rows of other keys are
  untouched.\<close>

theorem batch_all_or_nothing:
  assumes "engine_ok e" and "table_ok e (db_rows d)"
    and "BatchCreateOrUpdate e kv realm rs d = Returns (res, d')"
  shows "if isl res then db_rows d' = db_rows d
    else \<forall>i. table_get e (db_rows d') i =
      (case List.find (\<lambda>r. record_index e realm r = i) (rev rs) of
         Some r \<Rightarrow> Some (record_row e realm r)
       | None \<Rightarrow> table_get e (db_rows d) i)"
proof (cases res)
  case (Inl x)
  then show ?thesis using BatchCreateOrUpdate_error_unchanged assms(3) by auto
next
  case (Inr u)
  have st: "list_all (storable e) rs"
    and rows: "db_rows d' = fold (table_put e) (map (record_row e realm) rs) (db_rows d)"
    using BatchCreateOrUpdate_Inr [OF assms(1)] assms(3) Inr by auto
  have keys: "\<forall>row \<in> set (map (record_row e realm) rs). stored_index e row \<noteq> None"
    using st by (simp add: list_all_iff del: not_None_eq)
  have "List.find (\<lambda>row. stored_index e row = Some i) (rev (map (record_row e realm) rs)) =
      map_option (record_row e realm) (List.find (\<lambda>r. record_index e realm r = i) (rev rs))" for i
    using st by (induction rs rule: rev_induct) auto
  then have "table_get e (db_rows d') i =
      (case List.find (\<lambda>r. record_index e realm r = i) (rev rs) of
         Some r \<Rightarrow> Some (record_row e realm r) | None \<Rightarrow> table_get e (db_rows d) i)" for i
    unfolding rows kvt.get_fold [OF assms(2) keys] by (simp split: option.split)
  then show ?thesis using Inr by simp
qed

theorem batch_all_or_nothing_witness:
  "\<exists>d'. BatchCreateOrUpdate sqlite_engine ready_kv ''user''
      [sample_record, sample_record\<lparr>Value := Some ''y''\<rparr>] empty_db = Returns (Inr (), d') \<and>
    table_get sqlite_engine (db_rows d') (''notes/a'', ''alice'', ''user'')
      = Some (record_row sqlite_engine ''user'' (sample_record\<lparr>Value := Some ''y''\<rparr>))"
proof -
  obtain d' where b: "BatchCreateOrUpdate sqlite_engine ready_kv ''user''
      [sample_record, sample_record\<lparr>Value := Some ''y''\<rparr>] empty_db = Returns (Inr (), d')"
    using BatchCreateOrUpdate_ready [OF sqlite_engine_ok, of ready_kv
        "[sample_record, sample_record\<lparr>Value := Some ''y''\<rparr>]" empty_db "''user''"]
    by (simp add: ready_kv_def storable_def bind_blob_def faultless_def list_all_iff)
  then show ?thesis
    using batch_all_or_nothing [OF sqlite_engine_ok _ b] by (auto simp: record_index_def split: if_splits)
qed

text \<open>Without engine faults a batch stores what putting its records one by one stores.\<close>

theorem batch_equals_sequence:
  assumes "engine_ok e" and "never_faults e" and "kv_ready kv" and "list_all (storable e) rs"
    and "BatchCreateOrUpdate e kv realm rs d = Returns (res, d')"
  shows "res = Inr () \<and> db_rows d' = db_rows (kv_run e kv realm (map OpPut rs) d)"
proof -
  have seq: "db_rows (kv_run e kv realm (map OpPut qs) c) =
      fold (table_put e) (map (record_row e realm) qs) (db_rows c)" for qs c
    using assms(1-3)
    by (induction qs arbitrary: c) (simp_all add: CreateOrUpdate_ready never_faults_def)
  show ?thesis
  proof (cases res)
    case (Inl x)
    then have "\<exists>z. fst (batch_loop e realm rs 0 (db_tick (db_tick d))) = Inl z"
      using assms(2,5) by (auto simp: BatchCreateOrUpdate_def never_faults_def split: if_splits prod.splits sum.splits)
    then show ?thesis
      using batch_loop_error [of e realm rs 0 "db_tick (db_tick d)"] assms(2,4)
      by (auto simp: never_faults_def list_all_length)
  next
    case (Inr u)
    then show ?thesis using BatchCreateOrUpdate_Inr [OF assms(1)] assms(5) seq by auto
  qed
qed

theorem batch_equals_sequence_witness:
  "\<exists>d'. BatchCreateOrUpdate sqlite_engine ready_kv ''user''
      [sample_record, sample_record\<lparr>Value := Some ''y''\<rparr>] empty_db = Returns (Inr (), d') \<and>
    db_rows d' = db_rows (kv_run sqlite_engine ready_kv ''user''
      [OpPut sample_record, OpPut (sample_record\<lparr>Value := Some ''y''\<rparr>)] empty_db)"
proof -
  have "kv_db ready_kv" by (simp add: ready_kv_def)
  then obtain res d' where b: "BatchCreateOrUpdate sqlite_engine ready_kv ''user''
      [sample_record, sample_record\<lparr>Value := Some ''y''\<rparr>] empty_db = Returns (res, d')"
    using BatchCreateOrUpdate_returns by blast
  have "list_all (storable sqlite_engine) [sample_record, sample_record\<lparr>Value := Some ''y''\<rparr>]"
    by (simp add: storable_def bind_blob_def)
  from batch_equals_sequence [OF sqlite_engine_ok sqlite_simps(1) ready_kv_ready this b]
  show ?thesis using b by (simp del: kv_run.simps)
qed

text \<open>C16: before the handle is initialised, and after it is closed, reads, puts and deletes answer
  with an error and leave the database alone; a batch does not wait for the handle and panics.\<close>

theorem not_ready_is_refused:
  assumes "\<not> kv_db kv" and "kv_stmts kv = Map.empty"
  shows "(\<exists>x \<in> {ContextDone, Timeout, NoSuchStatement}.
      Get e w kv realm r d = (Inl x, d) \<and> CreateOrUpdate e w kv realm r d = (Inl x, d) \<and>
      KV_Delete e w kv realm r d = (Inl x, d)) \<and>
    (\<exists>m. BatchCreateOrUpdate e kv realm rs d = Panics m)"
proof -
  have "\<exists>x \<in> {ContextDone, Timeout, NoSuchStatement}. \<forall>i. Stmt kv w i = Inl x"
    using assms(2) by (cases w; cases "kv_initializing kv") (simp_all add: Stmt_def)
  then obtain x where "x \<in> {ContextDone, Timeout, NoSuchStatement}" "\<And>i. Stmt kv w i = Inl x" by blast
  then show ?thesis
    using assms(1) by (intro conjI bexI [of _ x])
      (simp_all add: Get_def CreateOrUpdate_def KV_Delete_def BatchCreateOrUpdate_def split: option.split)
qed

theorem not_ready_is_refused_witness:
  "(\<exists>x. Get sqlite_engine WReady sample_kv ''user'' sample_record empty_db = (Inl x, empty_db)) \<and>
   (\<exists>m. BatchCreateOrUpdate sqlite_engine sample_kv ''user'' [sample_record] empty_db = Panics m)"
  using not_ready_is_refused [of sample_kv sqlite_engine WReady "''user''" sample_record empty_db
      "[sample_record]"]
  by (auto simp: sample_kv_def)



end
