(* ===== verification/KVS_Facts.thy ===== *)
theory KVS_Facts
  imports KVS_Plugin KV_Props
begin

text \<open>
  Facts on the handlers of the plugin \<open>kvs\<close>: what the store does inside a handler, which rows an
  operation touches, and what the replies look like.
\<close>

section \<open>A working store\<close>

definition store_working :: "kvs_config \<Rightarrow> kvs_state \<Rightarrow> bool" where
  "store_working cfg s \<longleftrightarrow>
     engine_ok (cfg_engine cfg) \<and> never_faults (cfg_engine cfg) \<and>
     (\<forall>n. \<not> eng_rows_fault (cfg_engine cfg) n) \<and> eng_last_id (cfg_engine cfg) \<and>
     cfg_wait cfg = WReady \<and> kv_ready (ks_kv s) \<and> table_ok (cfg_engine cfg) (db_rows (ks_db s))"

text \<open>The handle as the life of the store leaves it (\<open>handle_consistent\<close>).\<close>

definition handle_ok :: "kv_state \<Rightarrow> bool" where
  "handle_ok kv \<longleftrightarrow> kv_stmts kv = (if kv_db kv then (\<lambda>i. Some (preparedStmts i)) else Map.empty)"

lemma Stmt_handle_ok: "handle_ok kv \<Longrightarrow> Stmt kv w i = Inr st \<Longrightarrow> st = preparedStmts i"
  by (auto simp: Stmt_def handle_ok_def split: wait.splits if_splits option.splits)

section \<open>Rows of other owners\<close>

definition owned :: "engine \<Rightarrow> string \<Rightarrow> row \<Rightarrow> bool" where
  "owned e uid row \<longleftrightarrow> sql_eq e (row COwner) (SVal uid)"

definition others :: "engine \<Rightarrow> string \<Rightarrow> table \<Rightarrow> table" where
  "others e uid t = filter (\<lambda>row. \<not> owned e uid row) t"

lemma conflicts_owned:
  "conflicts e row (record_row e realm r) \<Longrightarrow> owned e (OwnerID r) row"
  by (simp add: conflicts_def idx_no_dup_def owned_def)

lemma others_replace: "others e (OwnerID r) (replace_row e (record_row e realm r) t) = others e (OwnerID r) t"
proof -
  have "(\<not> conflicts e row (record_row e realm r) \<and> \<not> owned e (OwnerID r) row) = (\<not> owned e (OwnerID r) row)"
    for row using conflicts_owned by blast
  then show ?thesis by (simp add: others_def replace_row_def owned_def filter_filter conj_commute)
qed

lemma others_put: "others e (OwnerID r) (table_put e (record_row e realm r) t) = others e (OwnerID r) t"
  by (simp add: table_put_def others_replace)

lemma others_exec_put:
  "others e (OwnerID r) (db_rows (snd (sql_exec e (preparedStmts stmtIDCreateOrUpdate) (record_args e realm r) d)))
   = others e (OwnerID r) (db_rows d)"
proof (cases "eng_fault e (db_calls d)")
  case True
  then show ?thesis by (simp add: sql_exec_def)
next
  case False
  then show ?thesis using sql_exec_replace [OF False, of realm r] by (simp add: others_put)
qed

lemma others_CreateOrUpdate:
  assumes "handle_ok kv"
  shows "others e (OwnerID r) (db_rows (snd (CreateOrUpdate e w kv realm r d))) = others e (OwnerID r) (db_rows d)"
proof (cases "Stmt kv w stmtIDCreateOrUpdate")
  case (Inr st)
  have st: "st = preparedStmts stmtIDCreateOrUpdate" using Stmt_handle_ok [OF assms Inr] .
  obtain x d' where x: "sql_exec e st (record_args e realm r) d = (x, d')" by fastforce
  have "snd (CreateOrUpdate e w kv realm r d) = d'"
    using Inr x by (auto simp: CreateOrUpdate_def split: sum.split sql_result.split)
  then show ?thesis using others_exec_put [of e r realm d] x st by simp
qed (simp add: CreateOrUpdate_def)

lemma others_delete:
  "others e (OwnerID r) (delete_where e [CKey, COwner, CClient, CRealm]
     [SVal (Key r), SVal (OwnerID r), SVal (ClientID r), SVal realm] t) = others e (OwnerID r) t"
proof -
  have "(\<not> where_holds e [CKey, COwner, CClient, CRealm]
      [SVal (Key r), SVal (OwnerID r), SVal (ClientID r), SVal realm] row \<and> \<not> owned e (OwnerID r) row)
    = (\<not> owned e (OwnerID r) row)" for row
    by (auto simp: where_holds_def owned_def)
  then show ?thesis by (simp add: others_def delete_where_def filter_filter conj_commute)
qed

lemma others_KV_Delete:
  assumes "handle_ok kv"
  shows "others e (OwnerID r) (db_rows (snd (KV_Delete e w kv realm r d))) = others e (OwnerID r) (db_rows d)"
proof (cases "Stmt kv w stmtIDDelete")
  case (Inr st)
  have st: "st = preparedStmts stmtIDDelete" using Stmt_handle_ok [OF assms Inr] .
  let ?args = "[SVal (Key r), SVal (OwnerID r), SVal (ClientID r), SVal realm]"
  have "snd (KV_Delete e w kv realm r d) = snd (sql_exec e st ?args d)"
    using Inr by (auto simp: KV_Delete_def split: sum.split sql_result.split prod.split)
  moreover have "others e (OwnerID r) (db_rows (snd (sql_exec e st ?args d))) = others e (OwnerID r) (db_rows d)"
    using others_delete [of e r realm "db_rows d"] by (simp add: sql_exec_def Let_def st)
  ultimately show ?thesis by simp
qed (simp add: KV_Delete_def)

lemma others_batch_loop:
  assumes "\<forall>r \<in> set rs. OwnerID r = uid"
  shows "others e uid (db_rows (snd (batch_loop e realm rs acc d))) = others e uid (db_rows d)"
  using assms
proof (induction rs arbitrary: acc d)
  case (Cons r rs)
  obtain x d' where x: "sql_exec e (preparedStmts stmtIDCreateOrUpdate) (record_args e realm r) d = (x, d')"
    by fastforce
  have d': "others e uid (db_rows d') = others e uid (db_rows d)"
    using others_exec_put [of e r realm d] x Cons.prems by simp
  have "snd (batch_loop e realm (r # rs) acc d) = d' \<or>
      (\<exists>a. snd (batch_loop e realm (r # rs) acc d) = snd (batch_loop e realm rs a d'))"
    unfolding batch_loop.simps x by (auto split: sum.split sql_result.split option.split)
  then show ?case using Cons d' by auto
qed simp

lemma others_Batch:
  assumes "\<forall>r \<in> set rs. OwnerID r = uid" and "BatchCreateOrUpdate e kv realm rs d = Returns (x, d')"
  shows "others e uid (db_rows d') = others e uid (db_rows d)"
  using assms(2) others_batch_loop [OF assms(1), of e realm 0 "db_tick (db_tick d)"]
  by (auto simp: BatchCreateOrUpdate_def rollback_def split: if_splits prod.splits sum.splits)

lemma rows_Get:
  assumes "handle_ok kv"
  shows "db_rows (snd (Get e w kv realm r d)) = db_rows d"
  using Stmt_handle_ok [OF assms, of w stmtIDGet] Stmt_handle_ok [OF assms, of w stmtIDGetCollection]
  by (cases "Stmt kv w stmtIDGet"; cases "Stmt kv w stmtIDGetCollection"; cases "Collection r")
    (auto simp: Get_def sql_exec_def Let_def)

section \<open>Replies of the handlers\<close>

lemma write_entries_reply:
  "rw_reply rw = Some x \<Longrightarrow> rw_reply (write_entries rs first rw) = Some x"
  by (induction rs first rw rule: write_entries.induct) (auto split: sum.split)

text \<open>What an array of documents looks like.\<close>

definition encoded_docs :: "kv_record list \<Rightarrow> string list" where
  "encoded_docs rs = List.map_filter (\<lambda>r. case EncodeToJSON r of Inl _ \<Rightarrow> None | Inr d \<Rightarrow> Some d) rs"

lemma encoded_docs_simps [simp]:
  "encoded_docs [] = []"
  "encoded_docs (r # rs) = (case EncodeToJSON r of Inl _ \<Rightarrow> encoded_docs rs | Inr d \<Rightarrow> d # encoded_docs rs)"
  by (simp_all add: encoded_docs_def map_filter_simps split: sum.split)

definition array_sep :: string where
  "array_sep = [CHR '','', CHR 0x0A]"

lemma write_entries_body:
  "rw_body (write_entries rs first rw) = rw_body rw @
     (if encoded_docs rs = [] then [] else if first then join array_sep (encoded_docs rs)
      else array_sep @ join array_sep (encoded_docs rs))"
proof (induction rs first rw rule: write_entries.induct)
  case (2 r rs first rw)
  show ?case
  proof (cases "EncodeToJSON r")
    case (Inl err)
    then show ?thesis using 2 by simp
  next
    case (Inr d)
    then show ?thesis using "2.IH"(2) [OF Inr]
      by (cases "encoded_docs rs") (simp_all add: array_sep_def)
  qed
qed simp

lemma encoded_docs_parse:
  assumes "d \<in> set (encoded_docs rs)"
  shows "\<exists>ms. d = json_indent 0 (JObj ms) \<and> wf_val (JObj ms) \<and> ms \<noteq> []"
  using assms
proof (induction rs)
  case (Cons r rs)
  show ?case
  proof (cases "EncodeToJSON r")
    case (Inl err)
    then show ?thesis using Cons by simp
  next
    case (Inr d')
    then obtain v where v: "encoded_value r = Some v" "d' = marshal_indent (JObj (encoded_members r v))"
      by (auto simp: EncodeToJSON_eq split: option.splits)
    have "encoded_members r v \<noteq> []" by (simp add: encoded_members_def)
    then have new: "\<exists>ms. d' = json_indent 0 (JObj ms) \<and> wf_val (JObj ms) \<and> ms \<noteq> []"
      using v(2) encoded_members_wf [OF v(1)] unfolding marshal_indent_def by blast
    have "d = d' \<or> d \<in> set (encoded_docs rs)" using Cons.prems Inr by simp
    then show ?thesis using new Cons.IH by blast
  qed
qed simp

lemma parses_docs:
  assumes "ms \<noteq> []" and "\<forall>m \<in> set ms. wf_val m"
  shows "parses_elems (CHR 0x0A # join array_sep (map (json_indent 0) ms) @ CHR '']'' # t) ms t"
  using assms
proof (induction ms rule: list_nonempty_induct)
  case (single m)
  have "parses (json_indent 0 m @ CHR '']'' # t) m (CHR '']'' # t)"
    by (rule parses_indent) (use single in \<open>simp_all add: is_digit_def byte_of_def\<close>)
  then have "parses (newline 0 @ json_indent 0 m @ CHR '']'' # t) m (CHR '']'' # t)" by (rule parses_newline)
  then show ?case
    using parses_elems_one [of _ m "CHR '']'' # t" t] by (simp add: newline_def is_ws_def)
next
  case (cons m ms)
  let ?rest = "CHR 0x0A # join array_sep (map (json_indent 0) ms) @ CHR '']'' # t"
  have "parses (json_indent 0 m @ CHR '','' # ?rest) m (CHR '','' # ?rest)"
    by (rule parses_indent) (use cons in simp_all)
  then have m: "parses (newline 0 @ json_indent 0 m @ CHR '','' # ?rest) m (CHR '','' # ?rest)"
    by (rule parses_newline)
  have "parses_elems ?rest ms t" using cons by simp
  from parses_elems_cons [OF m _ this]
  have "parses_elems (newline 0 @ json_indent 0 m @ CHR '','' # ?rest) (m # ms) t" by (simp add: is_ws_def)
  then show ?case using cons.hyps by (cases ms) (simp_all add: newline_def array_sep_def)
qed

lemma docs_are_values:
  assumes "\<forall>d \<in> set ds. \<exists>m. d = json_indent 0 m \<and> wf_val m"
  obtains ms where "ds = map (json_indent 0) ms" "\<forall>m \<in> set ms. wf_val m"
proof -
  have "\<exists>ms. ds = map (json_indent 0) ms \<and> (\<forall>m \<in> set ms. wf_val m)"
    using assms
  proof (induction ds)
    case (Cons d ds)
    then obtain m ms where "d = json_indent 0 m" "wf_val m" "ds = map (json_indent 0) ms"
      "\<forall>m \<in> set ms. wf_val m" by auto
    then show ?case by (intro exI [of _ "m # ms"]) simp
  qed simp
  then show ?thesis using that by blast
qed

lemma json_parse_docs:
  assumes "\<forall>m \<in> set ms. wf_val m"
  shows "json_parse (CHR ''['' # CHR 0x0A # join array_sep (map (json_indent 0) ms) @ [CHR '']'', CHR 0x0A])
    = Some (JArr ms)"
proof -
  let ?t = "[CHR 0x0A]"
  let ?s = "CHR 0x0A # join array_sep (map (json_indent 0) ms) @ CHR '']'' # ?t"
  have "parses (CHR ''['' # ?s) (JArr ms) ?t"
  proof (cases ms)
    case Nil
    show ?thesis unfolding Nil parses_def by (rule SucI [of 0]) (simp add: is_ws_def)
  next
    case (Cons m ms')
    have el: "parses_elems ?s ms ?t" by (rule parses_docs) (use Cons assms in auto)
    obtain c u where c: "json_indent 0 m = c # u" "\<not> is_ws c" "c \<noteq> CHR '']''"
      using assms Cons by (auto elim: json_indent_head [of m 0])
    have "\<exists>x. ?s = CHR 0x0A # c # x" using c(1) Cons by (cases ms') simp_all
    then obtain x where x: "?s = CHR 0x0A # c # x" ..
    have "skip_ws ?s = c # x" unfolding x using c(2) by (simp add: is_ws_def [of "CHR 0x0A"])
    then show ?thesis using parses_arr [OF el _ c(3)] by blast
  qed
  then show ?thesis by (simp add: parses_json_first json_parse_def is_ws_def)
qed

lemma pad_length: "((n::nat) + 2) div 3 * 3 - n = (3 - n mod 3) mod 3"
proof -
  define q r where "q = n div 3" and "r = n mod 3"
  have n: "n = r + q * 3" and r: "r < 3" by (simp_all add: q_def r_def)
  have d: "(n + 2) div 3 = q + (r + 2) div 3"
    using div_mult_self1 [of 3 "r + 2" q] n by (simp add: add.commute add.left_commute)
  from r consider "r = 0" | "r = 1" | "r = 2" by linarith
  then show ?thesis unfolding d r_def [symmetric] by cases (simp_all add: n)
qed

section \<open>Reads of one user's documents\<close>

text \<open>The rows of a user and client in a realm: what a read may depend on.\<close>

definition mine :: "engine \<Rightarrow> string \<Rightarrow> string \<Rightarrow> string \<Rightarrow> row \<Rightarrow> bool" where
  "mine e uid aud realm row \<longleftrightarrow>
     sql_eq e (row COwner) (SVal uid) \<and> client_is e aud row \<and> sql_eq e (row CRealm) (SVal realm)"

lemma visible_mine: "visible e realm r row \<Longrightarrow> mine e (OwnerID r) (ClientID r) realm row"
  by (simp add: visible_def mine_def)

lemma filter_visible_mine:
  assumes "filter (mine e (OwnerID r) (ClientID r) realm) t = filter (mine e (OwnerID r) (ClientID r) realm) u"
  shows "filter (visible e realm r) t = filter (visible e realm r) u"
proof -
  have f: "filter (visible e realm r) x = filter (visible e realm r) (filter (mine e (OwnerID r) (ClientID r) realm) x)"
    for x unfolding filter_filter by (rule filter_cong) (auto simp: visible_mine)
  show ?thesis using assms f [of t] f [of u] by simp
qed

lemma Get_mine:
  assumes "handle_ok kv" and "db_calls d = db_calls c"
    and "filter (mine e (OwnerID r) (ClientID r) realm) (db_rows d) =
      filter (mine e (OwnerID r) (ClientID r) realm) (db_rows c)"
  shows "fst (Get e w kv realm r d) = fst (Get e w kv realm r c)"
proof (cases "w = WReady \<and> kv_initializing kv \<and> kv_db kv")
  case True
  then have rdy: "kv_ready kv" using assms(1) by (simp add: kv_ready_def handle_ok_def)
  show ?thesis
  proof (cases "eng_fault e (db_calls d)")
    case fault: True
    then show ?thesis using True assms(2) Stmt_ready [OF rdy]
      by (simp add: Get_def sql_exec_def split: option.split)
  next
    case False
    then show ?thesis
      using Get_ready [OF rdy False, of realm r] Get_ready [OF rdy, of e c realm r] True assms(2)
        filter_visible_mine [OF assms(3)] by simp
  qed
next
  case False
  then have "\<exists>x. \<forall>i. Stmt kv w i = Inl x"
    using assms(1) by (cases w) (auto simp: Stmt_def handle_ok_def)
  then show ?thesis by (auto simp: Get_def split: option.split)
qed

section \<open>A sample configuration\<close>

definition sample_cfg :: kvs_config where
  "sample_cfg = \<lparr>cfg_engine = sqlite_engine, cfg_wait = WReady, cfg_oidc = sample_oidc,
     cfg_mux = plain_mux, cfg_cors = None, cfg_scopes = kvs_scopesRequired, cfg_reads_past = False\<rparr>"

definition sample_state :: kvs_state where
  "sample_state = \<lparr>ks_kv = ready_kv, ks_db = empty_db\<rparr>"

definition sample_user :: auth_record where
  "sample_user = \<lparr>AuthenticatedUserID = ''alice'', StandardClaims = Some \<lparr>Audience = ''web''\<rparr>,
     ExtraClaims = Some []\<rparr>"

definition sample_req :: "string \<Rightarrow> string \<Rightarrow> string \<Rightarrow> request" where
  "sample_req meth query body = \<lparr>req_method = meth, req_path = ''notes/a'', req_rawquery = query,
     req_header = [''Content-Type'' \<mapsto> [''text/plain'']], req_cookies = [], req_body = body,
     req_body_fail = False, req_form = [], req_ctx = Some sample_user\<rparr>"

lemma sample_cfg_simps [simp]:
  "cfg_engine sample_cfg = sqlite_engine" "cfg_wait sample_cfg = WReady"
  "cfg_oidc sample_cfg = sample_oidc" "cfg_mux sample_cfg = plain_mux" "cfg_cors sample_cfg = None"
  "cfg_scopes sample_cfg = kvs_scopesRequired" "cfg_reads_past sample_cfg = False"
  "ks_kv sample_state = ready_kv" "ks_db sample_state = empty_db"
  "AuthenticatedUserID sample_user = ''alice''" "StandardClaims sample_user = Some \<lparr>Audience = ''web''\<rparr>"
  by (simp_all add: sample_cfg_def sample_state_def sample_user_def)

lemma sample_req_simps [simp]:
  "req_method (sample_req m q b) = m" "req_path (sample_req m q b) = ''notes/a''"
  "req_rawquery (sample_req m q b) = q" "req_body (sample_req m q b) = b"
  "req_body_fail (sample_req m q b) = False" "req_ctx (sample_req m q b) = Some sample_user"
  "req_header (sample_req m q b) = [''Content-Type'' \<mapsto> [''text/plain'']]"
  by (simp_all add: sample_req_def)

lemma sample_content_type [simp]:
  "header_get [''Content-Type'' \<mapsto> [''text/plain'']] ''Content-Type'' = ''text/plain''"
  by code_simp

lemma sample_no_form [simp]: "\<not> has_form_body (sample_req m q b)"
proof -
  have "media_type ''text/plain'' \<noteq> form_media_type" by code_simp
  then show ?thesis by (simp add: has_form_body_def)
qed

lemma sample_form: "form_get (ParseForm (sample_req m q b)) k =
    (case map_of (parse_query q) k of None \<Rightarrow> [] | Some v \<Rightarrow> v)"
  by (simp add: form_get_def ParseForm_def)

lemma sample_queries [simp]:
  "parse_query [] = []" "parse_query ''raw=1'' = [(''raw'', ''1'')]"
  "parse_query ''recurse=1'' = [(''recurse'', ''1'')]" "parse_query ''batch=1'' = [(''batch'', ''1'')]"
  by code_simp+

lemma sample_working: "store_working sample_cfg sample_state"
  by (simp add: store_working_def sqlite_engine_ok ready_kv_ready)

lemma ready_handle_ok: "handle_ok ready_kv"
  by (simp add: handle_ok_def ready_kv_def)

end
