(* ===== verification/KVS_Props.thy ===== *)
theory KVS_Props
  imports KVS_Facts
begin

text \<open>
  The properties of the plugin \<open>kvs\<close> that its clients and its operator rely on: who may change what,
  what a GET answers after a PUT, what a reply looks like, the limit on the size of a document, and
  what a batch does.
\<close>

section \<open>What a handler does to the store\<close>

lemma handleGet_state:
  assumes "handleGet cfg realm key user req (s, rw) = Returns (s', rw')"
  shows "\<exists>rec. s' = s\<lparr>ks_db := snd (Get (cfg_engine cfg) (cfg_wait cfg) (ks_kv s) realm rec (ks_db s))\<rparr>"
  using assms
  by (auto simp: handleGet_def with_audience_def Let_def split: option.splits prod.splits sum.splits)
    (metis snd_conv)+

lemma handleCreateOrUpdate_state:
  assumes "handleCreateOrUpdate cfg realm key user req (s, rw) = Returns (s', rw')"
  shows "s' = s \<or> (\<exists>rec. OwnerID rec = AuthenticatedUserID user \<and>
    s' = s\<lparr>ks_db := snd (CreateOrUpdate (cfg_engine cfg) (cfg_wait cfg) (ks_kv s) realm rec (ks_db s))\<rparr>)"
proof (cases "fst (read_all_max valueSizeLimit req rw)")
  case (Inl err)
  then show ?thesis using assms by (cases "read_all_max valueSizeLimit req rw") (simp add: handleCreateOrUpdate_def)
next
  case (Inr body)
  then obtain w where w: "read_all_max valueSizeLimit req rw = (Inr body, w)" by (metis prod.collapse)
  obtain c where c: "StandardClaims user = Some c"
    using assms by (auto simp: handleCreateOrUpdate_def w with_audience_def split: option.splits)
  let ?rec = "empty_record\<lparr>Collection := Some (if 1 < length (splitN2 slash key) then splitN2 slash key ! 0 else []),
    Key := key, Value := Some body, ContentType := header_get (req_header req) ''Content-Type'',
    OwnerID := AuthenticatedUserID user, ClientID := Audience c\<rparr>"
  have "s' = s\<lparr>ks_db := snd (CreateOrUpdate (cfg_engine cfg) (cfg_wait cfg) (ks_kv s) realm ?rec (ks_db s))\<rparr>"
    using assms by (auto simp: handleCreateOrUpdate_def w with_audience_def c Let_def split: sum.splits prod.splits)
  then show ?thesis by (intro disjI2 exI [of _ ?rec]) simp
qed

lemma handleDelete_state:
  assumes "handleDelete cfg realm key user req (s, rw) = Returns (s', rw')"
  shows "\<exists>rec. OwnerID rec = AuthenticatedUserID user \<and>
    s' = s\<lparr>ks_db := snd (KV_Delete (cfg_engine cfg) (cfg_wait cfg) (ks_kv s) realm rec (ks_db s))\<rparr>"
proof -
  obtain c where c: "StandardClaims user = Some c"
    using assms by (auto simp: handleDelete_def with_audience_def split: option.splits)
  let ?rec = "empty_record\<lparr>Key := key, OwnerID := AuthenticatedUserID user, ClientID := Audience c\<rparr>"
  have "s' = s\<lparr>ks_db := snd (KV_Delete (cfg_engine cfg) (cfg_wait cfg) (ks_kv s) realm ?rec (ks_db s))\<rparr>"
    using assms by (auto simp: handleDelete_def with_audience_def c Let_def split: sum.splits prod.splits)
  then show ?thesis by (intro exI [of _ ?rec]) simp
qed

lemma batch_record_owner:
  "batch_record key user ir = Returns (Some r) \<Longrightarrow> OwnerID r = AuthenticatedUserID user"
  by (auto simp: batch_record_def with_audience_def Let_def empty_record_def
      split: option.splits if_splits)

lemma batch_records_Cons:
  "batch_records key user (ir # irs) = Returns (Some rs) \<longleftrightarrow>
     (\<exists>r rs'. rs = r # rs' \<and> batch_record key user ir = Returns (Some r) \<and>
        batch_records key user irs = Returns (Some rs'))"
  by (cases "batch_record key user ir"; cases "batch_records key user irs")
    (auto split: option.splits)

lemma batch_records_owner:
  "batch_records key user irs = Returns (Some rs) \<Longrightarrow> \<forall>r \<in> set rs. OwnerID r = AuthenticatedUserID user"
proof (induction irs arbitrary: rs)
  case (Cons ir irs)
  then obtain r rs' where "rs = r # rs'" "batch_record key user ir = Returns (Some r)"
    "batch_records key user irs = Returns (Some rs')" unfolding batch_records_Cons by blast
  then show ?case using Cons.IH batch_record_owner by simp
qed simp

lemma handleBatch_state:
  assumes "handleBatchCreateOrUpdate cfg realm key user req (s, rw) = Returns (s', rw')"
  shows "s' = s \<or> (\<exists>irs rs x d. batch_records key user irs = Returns (Some rs) \<and>
    BatchCreateOrUpdate (cfg_engine cfg) (ks_kv s) realm rs (ks_db s) = Returns (x, d) \<and> s' = s\<lparr>ks_db := d\<rparr>)"
proof -
  obtain irs w where irs: "decode_batch (cfg_reads_past cfg) req rw = (irs, w)" by fastforce
  show ?thesis
  proof (cases "irs = None \<or> irs = Some []")
    case True
    then show ?thesis using assms irs by (auto simp: handleBatchCreateOrUpdate_def)
  next
    case False
    then obtain i more where i: "irs = Some (i # more)" by (cases irs) (auto simp: neq_Nil_conv)
    obtain x where x: "batch_records key user (i # more) = Returns x"
      using assms irs i by (auto simp: handleBatchCreateOrUpdate_def obind_eq_Returns simp del: batch_records.simps)
    show ?thesis
    proof (cases x)
      case None
      then show ?thesis using assms irs i x by (simp add: handleBatchCreateOrUpdate_def del: batch_records.simps)
    next
      case (Some rs)
      then show ?thesis using assms irs i x
        by (auto simp: handleBatchCreateOrUpdate_def Let_def obind_eq_Returns simp del: batch_records.simps)
    qed
  qed
qed

lemma handleUserKV_cases:
  assumes "RecordFromContext (req_ctx req) = (Some user, b)"
    and "handleUserKV cfg req (s, rw) = Returns (s', rw')"
  obtains (get) "req_method req = ''GET''"
      "handleGet cfg user_realm (req_path req) user (ParseForm req) (s, rw) = Returns (s', rw')"
    | (batch) "req_method req = ''PUT''"
      "handleBatchCreateOrUpdate cfg user_realm (req_path req) user (ParseForm req) (s, rw) = Returns (s', rw')"
    | (put) "req_method req = ''PUT''"
      "handleCreateOrUpdate cfg user_realm (req_path req) user (ParseForm req) (s, rw) = Returns (s', rw')"
    | (delete) "req_method req = ''DELETE''"
      "handleDelete cfg user_realm (req_path req) user (ParseForm req) (s, rw) = Returns (s', rw')"
    | (none) "s' = s"
  using assms by (auto simp: handleUserKV_def Let_def split: if_splits)

lemma handler_others:
  assumes "handle_ok (ks_kv s)" and "RecordFromContext (req_ctx req) = (Some user, b)"
    and "handleUserKV cfg req (s, rw) = Returns (s', rw')"
  shows "others (cfg_engine cfg) (AuthenticatedUserID user) (db_rows (ks_db s'))
    = others (cfg_engine cfg) (AuthenticatedUserID user) (db_rows (ks_db s))"
  using assms(2,3)
proof (cases rule: handleUserKV_cases)
  case get
  from handleGet_state [OF get(2)] obtain rec where
    "s' = s\<lparr>ks_db := snd (Get (cfg_engine cfg) (cfg_wait cfg) (ks_kv s) user_realm rec (ks_db s))\<rparr>" ..
  then show ?thesis by (simp add: rows_Get [OF assms(1)])
next
  case batch
  from handleBatch_state [OF batch(2)] consider "s' = s" | irs rs x d where
    "batch_records (req_path req) user irs = Returns (Some rs)" "s' = s\<lparr>ks_db := d\<rparr>"
    "BatchCreateOrUpdate (cfg_engine cfg) (ks_kv s) user_realm rs (ks_db s) = Returns (x, d)" by blast
  then show ?thesis
  proof cases
    case 2
    then show ?thesis using others_Batch [OF batch_records_owner [OF 2(1)] 2(3)] by simp
  qed simp
next
  case put
  from handleCreateOrUpdate_state [OF put(2)] consider "s' = s" | rec where "OwnerID rec = AuthenticatedUserID user"
    "s' = s\<lparr>ks_db := snd (CreateOrUpdate (cfg_engine cfg) (cfg_wait cfg) (ks_kv s) user_realm rec (ks_db s))\<rparr>"
    by blast
  then show ?thesis
  proof cases
    case 2
    then show ?thesis using others_CreateOrUpdate [OF assms(1), of _ rec] by simp
  qed simp
next
  case delete
  from handleDelete_state [OF delete(2)] obtain rec where "OwnerID rec = AuthenticatedUserID user"
    "s' = s\<lparr>ks_db := snd (KV_Delete (cfg_engine cfg) (cfg_wait cfg) (ks_kv s) user_realm rec (ks_db s))\<rparr>"
    by blast
  then show ?thesis using others_KV_Delete [OF assms(1), of _ rec] by simp
qed simp

section \<open>A PUT and a GET of one document\<close>

text \<open>A PUT of one document that the handler accepts, and the document it stores.\<close>

definition document_put :: "request \<Rightarrow> bool" where
  "document_put req \<longleftrightarrow> req_method req = ''PUT'' \<and> \<not> has_form_body req \<and>
     form_get (ParseForm req) ''batch'' \<noteq> ''1'' \<and> \<not> req_body_fail req \<and>
     req_body req \<noteq> [] \<and> length (req_body req) \<le> valueSizeLimit"

definition put_record :: "request \<Rightarrow> string \<Rightarrow> string \<Rightarrow> kv_record" where
  "put_record req uid aud = empty_record\<lparr>
     Collection := Some (if 1 < length (splitN2 slash (req_path req)) then splitN2 slash (req_path req) ! 0 else []),
     Key := req_path req, Value := Some (req_body req),
     ContentType := header_get (req_header req) ''Content-Type'', OwnerID := uid, ClientID := aud\<rparr>"

lemma put_record_simps [simp]:
  "Key (put_record req uid aud) = req_path req" "Value (put_record req uid aud) = Some (req_body req)"
  "ContentType (put_record req uid aud) = header_get (req_header req) ''Content-Type''"
  "OwnerID (put_record req uid aud) = uid" "ClientID (put_record req uid aud) = aud"
  "RequiredScopes (put_record req uid aud) = []"
  by (simp_all add: put_record_def empty_record_def)

lemma document_put_reply:
  assumes "store_working cfg s" and "RecordFromContext (req_ctx req) = (Some user, b)"
    and "StandardClaims user = Some c" and "document_put req"
  shows "handleUserKV cfg req (s, rw) = Returns (s\<lparr>ks_db := (db_tick (ks_db s))\<lparr>db_rows :=
      table_put (cfg_engine cfg)
        (record_row (cfg_engine cfg) user_realm (put_record req (AuthenticatedUserID user) (Audience c)))
        (db_rows (ks_db s))\<rparr>\<rparr>, write_header 200 rw)"
proof -
  let ?r = "put_record req (AuthenticatedUserID user) (Audience c)"
  have st: "storable (cfg_engine cfg) ?r"
    by (rule storable_value [of _ _ "req_body req"]) (use assms in \<open>simp_all add: store_working_def document_put_def\<close>)
  have "CreateOrUpdate (cfg_engine cfg) (cfg_wait cfg) (ks_kv s) user_realm ?r (ks_db s) =
      (Inr (), (db_tick (ks_db s))\<lparr>db_rows := table_put (cfg_engine cfg)
        (record_row (cfg_engine cfg) user_realm ?r) (db_rows (ks_db s))\<rparr>)"
    using assms(1) st CreateOrUpdate_ready [of "cfg_engine cfg" "ks_kv s" "ks_db s" user_realm ?r]
    by (simp add: store_working_def never_faults_def)
  moreover have "read_all_max valueSizeLimit (ParseForm req) rw = (Inr (req_body req), rw)"
    using assms(4) by (simp add: document_put_def read_all_max_def ParseForm_body)
  ultimately show ?thesis
    using assms(2-4) unfolding document_put_def
    by (simp add: handleUserKV_def Let_def handleCreateOrUpdate_def with_audience_def put_record_def)
qed

text \<open>A GET of the same key by the same user and client.\<close>

definition document_get :: "request \<Rightarrow> bool" where
  "document_get req \<longleftrightarrow> req_method req = ''GET'' \<and> form_get (ParseForm req) ''recurse'' \<noteq> ''1''"

lemma document_get_reply:
  assumes "store_working cfg s" and "RecordFromContext (req_ctx req) = (Some user, b)"
    and "StandardClaims user = Some c" and "document_get req"
    and "rec = empty_record\<lparr>Key := req_path req, OwnerID := AuthenticatedUserID user, ClientID := Audience c\<rparr>"
  shows "handleUserKV cfg req (s, rw) = Returns (s\<lparr>ks_db := db_tick (ks_db s)\<rparr>,
    case table_get (cfg_engine cfg) (db_rows (ks_db s)) (record_index (cfg_engine cfg) user_realm rec) of
      None \<Rightarrow> not_found rw
    | Some row \<Rightarrow>
        if client_is (cfg_engine cfg) (Audience c) row
        then reply_entry (form_get (ParseForm req) ''raw'' = ''1'') (view_row (cfg_engine cfg) row) rw
        else not_found rw)"
proof -
  have "Collection rec = None" and c: "ClientID rec = Audience c"
    using assms(5) by (simp_all add: empty_record_def)
  then have g: "Get (cfg_engine cfg) (cfg_wait cfg) (ks_kv s) user_realm rec (ks_db s) =
      (Inr (case table_get (cfg_engine cfg) (db_rows (ks_db s)) (record_index (cfg_engine cfg) user_realm rec) of
          None \<Rightarrow> []
        | Some row \<Rightarrow> if client_is (cfg_engine cfg) (Audience c) row then [view_row (cfg_engine cfg) row] else []),
       db_tick (ks_db s))"
    using assms(1) Get_key_ready [of "cfg_engine cfg" "ks_db s" "ks_kv s" rec user_realm]
    by (simp add: store_working_def never_faults_def split: option.split)
  have e: "rec = empty_record\<lparr>Collection := None, Key := req_path req, OwnerID := AuthenticatedUserID user, ClientID := Audience c\<rparr>"
    using assms(5) by (simp add: empty_record_def)
  have "handleUserKV cfg req (s, rw) = handleGet cfg user_realm (req_path req) user (ParseForm req) (s, rw)"
    using assms(2,4) by (simp add: handleUserKV_def Let_def document_get_def)
  moreover have "handleGet cfg user_realm (req_path req) user (ParseForm req) (s, rw) =
     (case Get (cfg_engine cfg) (cfg_wait cfg) (ks_kv s) user_realm rec (ks_db s) of
        (Inl err, d) \<Rightarrow> Returns (s\<lparr>ks_db := d\<rparr>, http_error [] 500 rw)
      | (Inr result, d) \<Rightarrow> Returns (s\<lparr>ks_db := d\<rparr>,
          if result = [] then not_found rw
          else if 1 < length result then reply_array (req_path req) result rw
          else reply_entry (form_get (ParseForm req) ''raw'' = ''1'') (result ! 0) rw))"
    using assms(3,4) e by (simp add: handleGet_def with_audience_def Let_def document_get_def
        split: prod.split sum.split)
  ultimately show ?thesis by (simp add: g split: option.split)
qed

text \<open>What a PUT leaves in the table, and what a GET gives as long as it is there.\<close>

definition document_stored :: "kvs_config \<Rightarrow> kvs_state \<Rightarrow> request \<Rightarrow> string \<Rightarrow> string \<Rightarrow> bool" where
  "document_stored cfg s preq uid aud \<longleftrightarrow>
     table_get (cfg_engine cfg) (db_rows (ks_db s)) (record_index (cfg_engine cfg) user_realm (put_record preq uid aud)) =
       Some (record_row (cfg_engine cfg) user_realm (put_record preq uid aud))"

lemma document_put_stores:
  assumes "store_working cfg s" and "RecordFromContext (req_ctx preq) = (Some user, b)"
    and "StandardClaims user = Some c" and "document_put preq"
    and "handleUserKV cfg preq (s, rw) = Returns (s', rw')"
  shows "rw' = write_header 200 rw" and "store_working cfg s'"
    and "document_stored cfg s' preq (AuthenticatedUserID user) (Audience c)"
proof -
  let ?e = "cfg_engine cfg" and ?r = "put_record preq (AuthenticatedUserID user) (Audience c)"
  have st: "storable ?e ?r"
    by (rule storable_value [of _ _ "req_body preq"]) (use assms in \<open>simp_all add: store_working_def document_put_def\<close>)
  have s': "s' = s\<lparr>ks_db := (db_tick (ks_db s))\<lparr>db_rows :=
      table_put ?e (record_row ?e user_realm ?r) (db_rows (ks_db s))\<rparr>\<rparr>" and rw': "rw' = write_header 200 rw"
    using document_put_reply [OF assms(1-4), of rw] assms(5) by simp_all
  have ok: "table_ok ?e (db_rows (ks_db s))" using assms(1) by (simp add: store_working_def)
  show "rw' = write_header 200 rw" by (rule rw')
  show "store_working cfg s'" using assms(1) s' by (simp add: store_working_def kvt.inv_put)
  show "document_stored cfg s' preq (AuthenticatedUserID user) (Audience c)"
    using s' st by (simp add: document_stored_def kvt.get_put_same [OF ok])
qed

lemma document_get_stored:
  assumes "store_working cfg s" and "RecordFromContext (req_ctx greq) = (Some user, b)"
    and "StandardClaims user = Some c" and "document_put preq"
    and "document_stored cfg s preq (AuthenticatedUserID user) (Audience c)"
    and "req_path greq = req_path preq" and "document_get greq"
  shows "handleUserKV cfg greq (s, rw) = Returns (s\<lparr>ks_db := db_tick (ks_db s)\<rparr>,
      reply_entry (form_get (ParseForm greq) ''raw'' = ''1'')
        (empty_record\<lparr>Key := req_path preq, Value := Some (req_body preq),
          ContentType := header_get (req_header preq) ''Content-Type''\<rparr>) rw)"
proof -
  let ?e = "cfg_engine cfg" and ?r = "put_record preq (AuthenticatedUserID user) (Audience c)"
  let ?rec = "empty_record\<lparr>Key := req_path greq, OwnerID := AuthenticatedUserID user, ClientID := Audience c\<rparr>"
  have i: "record_index ?e user_realm ?rec = record_index ?e user_realm ?r"
    using assms(6) by (simp add: record_index_def)
  have row: "table_get ?e (db_rows (ks_db s)) (record_index ?e user_realm ?rec) = Some (record_row ?e user_realm ?r)"
    unfolding i using assms(5) by (simp add: document_stored_def)
  have "view_row ?e (record_row ?e user_realm ?r) = empty_record\<lparr>Key := req_path preq,
      Value := Some (req_body preq), ContentType := header_get (req_header preq) ''Content-Type''\<rparr>"
    using view_row_record [of ?e ?r "req_body preq" user_realm] assms(1,4)
    by (simp add: store_working_def document_put_def empty_record_def)
  then show ?thesis using document_get_reply [OF assms(1-3,7) refl, of rw] row by simp
qed

text \<open>What a GET finds right after a PUT.\<close>

lemma get_after_document_put:
  assumes "store_working cfg s" and "RecordFromContext (req_ctx preq) = (Some user, b)"
    and "StandardClaims user = Some c" and "document_put preq"
    and "handleUserKV cfg preq (s, rw) = Returns (s', rw')"
    and "req_ctx greq = req_ctx preq" and "req_path greq = req_path preq" and "document_get greq"
  shows "rw' = write_header 200 rw \<and> store_working cfg s' \<and>
    handleUserKV cfg greq (s', rw2) = Returns (s'\<lparr>ks_db := db_tick (ks_db s')\<rparr>,
      reply_entry (form_get (ParseForm greq) ''raw'' = ''1'')
        (empty_record\<lparr>Key := req_path preq, Value := Some (req_body preq),
          ContentType := header_get (req_header preq) ''Content-Type''\<rparr>) rw2)"
  using document_put_stores [OF assms(1-5)] document_get_stored [OF _ _ assms(3,4) _ assms(7,8), of cfg s' b rw2] assms(2,6)
  by simp

lemma store_working_handle_ok:
  assumes "store_working cfg s"
  shows "handle_ok (ks_kv s)"
proof -
  have r: "kv_ready (ks_kv s)" using assms by (simp add: store_working_def)
  have "kv_stmts (ks_kv s) i = Some (preparedStmts i)" for i using r by (cases i) (simp_all add: kv_ready_def)
  then show ?thesis using r by (simp add: handle_ok_def kv_ready_def fun_eq_iff)
qed

text \<open>Every handler leaves a working store working.\<close>

lemma handler_keeps_working:
  assumes "store_working cfg s" and "RecordFromContext (req_ctx req) = (Some user, b)"
    and "handleUserKV cfg req (s, rw) = Returns (s', rw')"
  shows "store_working cfg s'"
proof -
  have t: "table_ok (cfg_engine cfg) (db_rows (ks_db s))" using assms(1) by (simp add: store_working_def)
  note h = store_working_handle_ok [OF assms(1)]
  have "ks_kv s' = ks_kv s \<and> table_ok (cfg_engine cfg) (db_rows (ks_db s'))"
    using assms(2,3)
  proof (cases rule: handleUserKV_cases)
    case get
    from handleGet_state [OF get(2)] show ?thesis using t by (auto simp: rows_Get [OF h])
  next
    case batch
    from handleBatch_state [OF batch(2)] show ?thesis using t by (auto intro: BatchCreateOrUpdate_table_ok)
  next
    case put
    from handleCreateOrUpdate_state [OF put(2)] show ?thesis using t by (auto intro: CreateOrUpdate_table_ok)
  next
    case delete
    from handleDelete_state [OF delete(2)] show ?thesis using t by (auto intro: KV_Delete_table_ok)
  qed (use t in simp)
  then show ?thesis using assms(1) by (simp add: store_working_def)
qed

section \<open>Properties\<close>

text \<open>C2: whatever a user sends, with any method, path and body, the rows of other users stay as they
  are, faults of the SQL engine included.\<close>

theorem other_users_untouched:
  assumes "handle_ok (ks_kv s)" and "RecordFromContext (req_ctx req) = (Some user, b)"
    and "handleUserKV cfg req (s, rw) = Returns (s', rw')"
  shows "filter (\<lambda>row. \<not> owned (cfg_engine cfg) (AuthenticatedUserID user) row) (db_rows (ks_db s'))
    = filter (\<lambda>row. \<not> owned (cfg_engine cfg) (AuthenticatedUserID user) row) (db_rows (ks_db s))"
  using handler_others [OF assms] by (simp add: others_def)

theorem other_users_untouched_witness:
  "\<exists>s' rw'. handleUserKV sample_cfg (sample_req ''PUT'' [] ''hello'') (sample_state, fresh_rw) = Returns (s', rw') \<and>
     filter (\<lambda>row. \<not> owned sqlite_engine ''alice'' row) (db_rows (ks_db s')) = []"
proof -
  have "document_put (sample_req ''PUT'' [] ''hello'')"
    by (simp add: document_put_def sample_form valueSizeLimit_def)
  then obtain s' rw' where h: "handleUserKV sample_cfg (sample_req ''PUT'' [] ''hello'') (sample_state, fresh_rw) = Returns (s', rw')"
    using document_put_reply [OF sample_working, of "sample_req ''PUT'' [] ''hello''" sample_user True] by simp
  then show ?thesis
    using other_users_untouched [of sample_state "sample_req ''PUT'' [] ''hello''" sample_user True sample_cfg]
    by (simp add: ready_handle_ok)
qed

text \<open>A document comes back as it was sent: after an accepted PUT, a GET of the same path with
  \<open>raw=1\<close> by the same user and client answers 200 with the same bytes and the same content type
  (\<open>application/octet-stream\<close> when none was given).\<close>

theorem put_then_get_raw:
  assumes "store_working cfg s" and "RecordFromContext (req_ctx preq) = (Some user, b)"
    and "StandardClaims user = Some c" and "document_put preq"
    and "handleUserKV cfg preq (s, rw) = Returns (s', rw')" and "rw_reply rw = None"
    and "req_ctx greq = req_ctx preq" and "req_path greq = req_path preq" and "document_get greq"
    and "form_get (ParseForm greq) ''raw'' = ''1''"
  shows "rw_status rw' = Some 200 \<and> (\<exists>s'' rw''. handleUserKV cfg greq (s', fresh_rw) = Returns (s'', rw'') \<and>
    rw_status rw'' = Some 200 \<and> rw_body rw'' = req_body preq \<and>
    header_get (rw_header rw'') ''Content-Type'' =
      (let ct = header_get (req_header preq) ''Content-Type'' in if ct = [] then octet_stream else ct))"
  using get_after_document_put [OF assms(1-5,7-9), of fresh_rw] assms(6,10)
  by (simp add: reply_entry_def rw_status_def header_get_set Let_def)

theorem put_then_get_raw_witness:
  "\<exists>s' rw' s'' rw''. handleUserKV sample_cfg (sample_req ''PUT'' [] ''hello'') (sample_state, fresh_rw) = Returns (s', rw') \<and>
     handleUserKV sample_cfg (sample_req ''GET'' ''raw=1'' []) (s', fresh_rw) = Returns (s'', rw'') \<and>
     rw_body rw'' = ''hello'' \<and> header_get (rw_header rw'') ''Content-Type'' = ''text/plain''"
proof -
  have p: "document_put (sample_req ''PUT'' [] ''hello'')"
    by (simp add: document_put_def sample_form valueSizeLimit_def)
  have g: "document_get (sample_req ''GET'' ''raw=1'' [])" by (simp add: document_get_def sample_form)
  obtain s' rw' where h: "handleUserKV sample_cfg (sample_req ''PUT'' [] ''hello'') (sample_state, fresh_rw) = Returns (s', rw')"
    using document_put_reply [OF sample_working _ _ p, of sample_user True] by simp
  show ?thesis
    using put_then_get_raw [OF sample_working _ _ p h _ _ _ g, of sample_user True] h
    by (auto simp: sample_form)
qed

text \<open>C6: without \<open>raw=1\<close> the reply is a JSON object from which the document can be had back: its key
  is the path; for a document of another type its \<open>content_type\<close> is the stored one and its value is
  the Base64 form of the bytes; for a JSON document the value is the document itself. A stored
  document that claims to be JSON and is not gives 500.\<close>

theorem put_then_get_json:
  assumes "store_working cfg s" and "RecordFromContext (req_ctx preq) = (Some user, b)"
    and "StandardClaims user = Some c" and "document_put preq"
    and "handleUserKV cfg preq (s, rw) = Returns (s', rw')"
    and "req_ctx greq = req_ctx preq" and "req_path greq = req_path preq" and "document_get greq"
    and "form_get (ParseForm greq) ''raw'' \<noteq> ''1''"
    and "utf8_valid (req_path preq)" and "utf8_valid (header_get (req_header preq) ''Content-Type'')"
  shows "\<exists>s'' rw''. handleUserKV cfg greq (s', fresh_rw) = Returns (s'', rw'') \<and>
    (if is_json_type (header_get (req_header preq) ''Content-Type'')
     then (case json_parse (req_body preq) of
             None \<Rightarrow> rw_status rw'' = Some 500
           | Some v \<Rightarrow> rw_status rw'' = Some 200 \<and> (\<exists>j. decode_record_json (rw_body rw'') = (j, True) \<and>
               JKey j = Some (req_path preq) \<and> json_parse (bytes (JValue j)) = Some (html_escape_val v)))
     else rw_status rw'' = Some 200 \<and> (\<exists>j. decode_record_json (rw_body rw'') = (j, True) \<and>
       JKey j = Some (req_path preq) \<and> JContentType j = header_get (req_header preq) ''Content-Type'' \<and>
       b64_decode (trim_byte quot (bytes (JValue j))) = Some (req_body preq)))"
proof -
  let ?r = "empty_record\<lparr>Key := req_path preq, Value := Some (req_body preq),
    ContentType := header_get (req_header preq) ''Content-Type''\<rparr>"
  have h: "handleUserKV cfg greq (s', fresh_rw) =
      Returns (s'\<lparr>ks_db := db_tick (ks_db s')\<rparr>, reply_entry False ?r fresh_rw)"
    using get_after_document_put [OF assms(1-8), of fresh_rw] assms(9) by simp
  show ?thesis
  proof (cases "EncodeToJSON ?r")
    case (Inl err)
    then have "is_json_type (ContentType ?r) \<and> json_parse (req_body preq) = None"
      using EncodeToJSON_error [of ?r err] by simp
    then show ?thesis using h Inl by (simp add: reply_entry_def rw_status_simps)
  next
    case (Inr d)
    then have body: "rw_status (reply_entry False ?r fresh_rw) = Some 200 \<and> rw_body (reply_entry False ?r fresh_rw) = d"
      by (simp add: reply_entry_def rw_status_def)
    obtain v where v: "encoded_value ?r = Some v" and dec: "decode_record_json (d @ []) =
      (\<lparr>JKey = Some (Key ?r), JValue = Some (json_indent 1 v),
        JContentType = (if is_json_type (ContentType ?r) then [] else ContentType ?r)\<rparr>, True)"
      using decode_encoded [OF Inr, of "[]"] assms(10,11) by auto
    show ?thesis
    proof (cases "is_json_type (ContentType ?r)")
      case True
      then obtain u where "json_parse (req_body preq) = Some u" "v = html_escape_val u"
        using v by (auto simp: encoded_value_def marshal_raw_def)
      then show ?thesis
        using h True body dec json_parse_indent [OF encoded_value_wf [OF v], of 1]
        by (simp del: json_indent.simps)
    next
      case False
      then have "v = JStr (b64_encode (req_body preq))" using v by (simp add: encoded_value_def)
      moreover have "quot \<notin> set (b64_encode (req_body preq))"
        using b64_encode_plain(2) by blast
      ultimately have "b64_decode (trim_byte quot (json_indent 1 v)) = Some (req_body preq)"
        by (simp add: trim_byte_quoted b64_decode_encode)
      then show ?thesis using h False body dec by (simp del: json_indent.simps)
    qed
  qed
qed

theorem put_then_get_json_witness:
  "\<exists>s' rw' s'' rw''. handleUserKV sample_cfg (sample_req ''PUT'' [] ''hello'') (sample_state, fresh_rw) = Returns (s', rw') \<and>
     handleUserKV sample_cfg (sample_req ''GET'' [] []) (s', fresh_rw) = Returns (s'', rw'') \<and>
     rw_status rw'' = Some 200 \<and> (\<exists>j. decode_record_json (rw_body rw'') = (j, True) \<and>
       JKey j = Some ''notes/a'' \<and> b64_decode (trim_byte quot (bytes (JValue j))) = Some ''hello'')"
proof -
  have p: "document_put (sample_req ''PUT'' [] ''hello'')"
    by (simp add: document_put_def sample_form valueSizeLimit_def)
  have g: "document_get (sample_req ''GET'' [] [])" by (simp add: document_get_def sample_form)
  have u: "utf8_valid ''notes/a''" "utf8_valid ''text/plain''" "\<not> is_json_type ''text/plain''"
    by code_simp+
  obtain s' rw' where h: "handleUserKV sample_cfg (sample_req ''PUT'' [] ''hello'') (sample_state, fresh_rw) = Returns (s', rw')"
    using document_put_reply [OF sample_working _ _ p, of sample_user True] by simp
  show ?thesis
    using put_then_get_json [OF sample_working _ _ p h _ _ g, of sample_user True] h u
    by (auto simp: sample_form)
qed

text \<open>A document of more than 16 KiB is refused with 400 and nothing is stored.\<close>

theorem put_too_large:
  assumes "RecordFromContext (req_ctx req) = (Some user, b)" and "req_method req = ''PUT''"
    and "\<not> has_form_body req" and "form_get (ParseForm req) ''batch'' \<noteq> ''1''"
    and "valueSizeLimit < length (req_body req)" and "rw_reply rw = None"
  shows "\<exists>rw'. handleUserKV cfg req (s, rw) = Returns (s, rw') \<and> rw_status rw' = Some 400"
  using assms
  by (auto simp: handleUserKV_def Let_def handleCreateOrUpdate_def read_all_max_def ParseForm_body
      rw_status_simps)

theorem put_too_large_witness:
  "\<exists>rw'. handleUserKV sample_cfg (sample_req ''PUT'' [] (replicate 16385 (CHR ''x''))) (sample_state, fresh_rw)
     = Returns (sample_state, rw') \<and> rw_status rw' = Some 400"
  by (rule put_too_large [of _ sample_user True]) (simp_all add: sample_form valueSizeLimit_def)

text \<open>C3: what a user reads depends on the documents of this user and client in the realm only: two
  databases that agree on these give the same reply to every GET, however their other rows differ.\<close>

theorem get_sees_own_rows_only:
  assumes "handle_ok (ks_kv s)" and "ks_kv t = ks_kv s" and "db_calls (ks_db t) = db_calls (ks_db s)"
    and "RecordFromContext (req_ctx req) = (Some user, b)" and "StandardClaims user = Some c"
    and "req_method req = ''GET''"
    and "filter (mine (cfg_engine cfg) (AuthenticatedUserID user) (Audience c) user_realm) (db_rows (ks_db t))
      = filter (mine (cfg_engine cfg) (AuthenticatedUserID user) (Audience c) user_realm) (db_rows (ks_db s))"
  shows "obind (handleUserKV cfg req (s, rw)) (\<lambda>srw. Returns (snd srw))
    = obind (handleUserKV cfg req (t, rw)) (\<lambda>srw. Returns (snd srw))"
proof -
  have g: "fst (Get (cfg_engine cfg) (cfg_wait cfg) (ks_kv s) user_realm (empty_record\<lparr>Collection := x,
        Key := req_path req, OwnerID := AuthenticatedUserID user, ClientID := Audience c\<rparr>) (ks_db s))
      = fst (Get (cfg_engine cfg) (cfg_wait cfg) (ks_kv s) user_realm (empty_record\<lparr>Collection := x,
        Key := req_path req, OwnerID := AuthenticatedUserID user, ClientID := Audience c\<rparr>) (ks_db t))" for x
    by (rule Get_mine [OF assms(1)]) (use assms(3,7) in \<open>simp_all add: empty_record_def\<close>)
  have h: "obind (handleUserKV cfg req (u, rw)) (\<lambda>srw. Returns (snd srw)) =
    (let recurse = form_get (ParseForm req) ''recurse'' = ''1'';
         raw = form_get (ParseForm req) ''raw'' = ''1'' in
     case fst (Get (cfg_engine cfg) (cfg_wait cfg) (ks_kv u) user_realm (empty_record\<lparr>
         Collection := (if recurse then Some (splitN2 slash (req_path req) ! 0) else None),
         Key := req_path req, OwnerID := AuthenticatedUserID user, ClientID := Audience c\<rparr>) (ks_db u)) of
       Inl err \<Rightarrow> Returns (http_error [] 500 rw)
     | Inr result \<Rightarrow> Returns (if \<not> recurse \<and> result = [] then not_found rw
         else if recurse \<or> 1 < length result then reply_array (req_path req) result rw
         else reply_entry raw (result ! 0) rw))" for u
    using assms(4-6)
    by (simp add: handleUserKV_def handleGet_def with_audience_def Let_def split: prod.split sum.split)
  show ?thesis unfolding h Let_def assms(2) g ..
qed

theorem get_sees_own_rows_only_witness:
  "obind (handleUserKV sample_cfg (sample_req ''GET'' [] []) (sample_state, fresh_rw)) (\<lambda>srw. Returns (snd srw))
   = obind (handleUserKV sample_cfg (sample_req ''GET'' [] []) (sample_state\<lparr>ks_db := empty_db\<lparr>db_rows :=
       [record_row sqlite_engine user_realm (sample_record\<lparr>OwnerID := ''bob''\<rparr>)]\<rparr>\<rparr>, fresh_rw))
       (\<lambda>srw. Returns (snd srw))"
  by (rule get_sees_own_rows_only [of _ _ _ sample_user True "\<lparr>Audience = ''web''\<rparr>"])
    (simp_all add: ready_handle_ok mine_def)

text \<open>C15: the reply to a recursive GET is a JSON array: its elements are, in order, the JSON forms of
  the documents found (those under the path when it has a slash) that can be encoded.\<close>

theorem recurse_reply_is_json:
  assumes "form_get req ''recurse'' = ''1''" and "StandardClaims user = Some c"
    and "Get (cfg_engine cfg) (cfg_wait cfg) (ks_kv s) realm (empty_record\<lparr>Collection := Some (splitN2 slash key ! 0),
        Key := key, OwnerID := AuthenticatedUserID user, ClientID := Audience c\<rparr>) (ks_db s) = (Inr result, d)"
  shows "\<exists>rw' vs. handleGet cfg realm key user req (s, fresh_rw) = Returns (s\<lparr>ks_db := d\<rparr>, rw') \<and>
    rw_status rw' = Some 200 \<and> json_parse (rw_body rw') = Some (JArr vs) \<and>
    map Some vs = map json_parse (encoded_docs
      (if 1 < length (splitN2 slash key) then filter (\<lambda>r. has_prefix (Key r) key) result else result))"
proof -
  let ?entries = "if 1 < length (splitN2 slash key) then filter (\<lambda>r. has_prefix (Key r) key) result else result"
  let ?docs = "encoded_docs ?entries"
  have "\<forall>d \<in> set ?docs. \<exists>m. d = json_indent 0 m \<and> wf_val m" using encoded_docs_parse by blast
  then obtain ms where ms: "?docs = map (json_indent 0) ms" "\<forall>m \<in> set ms. wf_val m"
    by (rule docs_are_values)
  have body: "rw_body (reply_array key result fresh_rw) =
      CHR ''['' # CHR 0x0A # join array_sep ?docs @ [CHR '']'', CHR 0x0A]"
    by (simp add: reply_array_def write_entries_body Let_def)
  have "json_parse (rw_body (reply_array key result fresh_rw)) = Some (JArr ms)"
    unfolding body ms(1) by (rule json_parse_docs [OF ms(2)])
  moreover have "map json_parse ?docs = map Some ms"
    using ms by (simp add: json_parse_indent)
  moreover have "rw_status (reply_array key result fresh_rw) = Some 200"
    by (simp add: reply_array_def Let_def rw_status_def write_entries_reply [of _ "(200, header_set Map.empty ''Content-Type'' json_prefix)"])
  ultimately show ?thesis
    using assms by (intro exI [of _ "reply_array key result fresh_rw"] exI [of _ ms])
      (simp add: handleGet_def with_audience_def Let_def)
qed

theorem recurse_reply_is_json_witness:
  "\<exists>s' rw' vs. handleGet sample_cfg user_realm ''notes/a'' sample_user (ParseForm (sample_req ''GET'' ''recurse=1'' []))
     (sample_state, fresh_rw) = Returns (s', rw') \<and> json_parse (rw_body rw') = Some (JArr vs) \<and> vs = []"
proof -
  have "kv_ready ready_kv" by (rule ready_kv_ready)
  then have g: "Get (cfg_engine sample_cfg) (cfg_wait sample_cfg) (ks_kv sample_state) user_realm
      (empty_record\<lparr>Collection := Some (splitN2 slash ''notes/a'' ! 0), Key := ''notes/a'',
        OwnerID := AuthenticatedUserID sample_user, ClientID := Audience \<lparr>Audience = ''web''\<rparr>\<rparr>) (ks_db sample_state)
    = (Inr [], db_tick empty_db)"
    by (simp add: Get_ready)
  show ?thesis
    using recurse_reply_is_json [OF _ _ g, of "ParseForm (sample_req ''GET'' ''recurse=1'' [])"]
    by (auto simp: sample_form split: if_splits)
qed

text \<open>C18: the values of a batch are not stored as sent: a Base64 value is decoded into a buffer that is
  as long as the text with its quotes would allow, so that one or two NUL bytes follow the data
  unless its length is a multiple of three.\<close>

theorem batch_value_padding:
  "decode_value (quot # b64_encode d @ [quot]) =
     Some (d @ replicate ((3 - length d mod 3) mod 3) (CHR 0x00))"
proof -
  have q: "quot \<notin> set (b64_encode d)" using b64_encode_plain(2) by blast
  have "DecodedLen (length (quot # b64_encode d @ [quot])) = (length d + 2) div 3 * 3"
    by (simp add: DecodedLen_def length_b64_encode)
  moreover note pad_length [of "length d"]
  ultimately show ?thesis by (simp add: decode_value_def trim_byte_quoted [OF q] b64_decode_encode)
qed

section \<open>Access\<close>

lemma kvs_user_prefix_nonempty: "kvs_user_prefix \<noteq> []"
  by (simp add: kvs_user_prefix_def kvs_base_def)

lemma check_access_same:
  "header_get (req_header r) ''Authorization'' = header_get (req_header q) ''Authorization'' \<Longrightarrow>
    check_access prov scopes r = check_access prov scopes q"
  by (simp add: check_access_def bearer_token_def)

text \<open>Only a request with access reaches the handler.\<close>

lemma kvs_http_changes:
  assumes "mux_ok (cfg_mux cfg)" and "req_ctx req = None"
    and "kvs_http cfg req (s, rw) = Returns (s', rw')" and "s' \<noteq> s"
  obtains path uid std claims where "check_access (cfg_oidc cfg) (cfg_scopes cfg) req = Inr (uid, std, claims)"
    "uid \<noteq> []"
    "handleUserKV cfg (req\<lparr>req_path := path, req_ctx := Some \<lparr>AuthenticatedUserID = uid, StandardClaims = std, ExtraClaims = Some claims\<rparr>\<rparr>)
       (s, rw) = Returns (s', rw')"
proof -
  have "\<exists>path. AccessTokenRequired (cfg_oidc cfg) (handleUserKV cfg) (cfg_scopes cfg) (req\<lparr>req_path := path\<rparr>) (s, rw)
      = Returns (s', rw')"
    using assms(3,4) mux_okD(1) [OF assms(1), of "map fst (kvs_routes cfg)" req] kvs_user_prefix_nonempty
    by (auto simp: kvs_http_def serve_mux_def kvs_routes_def StripPrefix_def split: if_splits mux_match.splits)
  then obtain path where h: "AccessTokenRequired (cfg_oidc cfg) (handleUserKV cfg) (cfg_scopes cfg)
      (req\<lparr>req_path := path\<rparr>) (s, rw) = Returns (s', rw')" ..
  have same: "check_access (cfg_oidc cfg) (cfg_scopes cfg) (req\<lparr>req_path := path\<rparr>) = check_access (cfg_oidc cfg) (cfg_scopes cfg) req"
    by (rule check_access_same) simp
  show ?thesis
  proof (cases "check_access (cfg_oidc cfg) (cfg_scopes cfg) req")
    case (Inl e)
    then show ?thesis using h same assms(4) by (simp add: AccessTokenRequired_def)
  next
    case (Inr x)
    obtain uid std claims where x: "x = (uid, std, claims)" by (cases x)
    have "uid \<noteq> []" using h same Inr x assms(2,4)
      by (auto simp: AccessTokenRequired_def handleUserKV_def split: if_splits)
    then show ?thesis using h same Inr x that [of uid std claims path]
      by (simp add: AccessTokenRequired_def ContextWithRecord_def)
  qed
qed


text \<open>A request as it comes from the network, with the token that the sample provider knows.\<close>

definition sample_net_req :: request where
  "sample_net_req = (sample_req ''PUT'' [] ''hello'')\<lparr>req_path := ''/api/kvs/v1/kv/user/notes/a'',
     req_header := [''Content-Type'' \<mapsto> [''text/plain''], ''Authorization'' \<mapsto> [''Bearer good'']], req_ctx := None\<rparr>"


section \<open>Batches\<close>

lemma batch_records_keys:
  "batch_records key user irs = Returns (Some rs) \<Longrightarrow>
     list_all2 (\<lambda>ir r. \<exists>j k. ir = Some j \<and> JKey j = Some k \<and> Key r = key @ slash # k \<and>
       ContentType r = JContentType j \<and> OwnerID r = AuthenticatedUserID user) irs rs"
proof (induction irs arbitrary: rs)
  case (Cons ir irs)
  then obtain r rs' where r: "rs = r # rs'" "batch_record key user ir = Returns (Some r)"
    "batch_records key user irs = Returns (Some rs')" unfolding batch_records_Cons by blast
  from r(2) have "\<exists>j k. ir = Some j \<and> JKey j = Some k \<and> Key r = key @ slash # k \<and>
      ContentType r = JContentType j \<and> OwnerID r = AuthenticatedUserID user"
    by (auto simp: batch_record_def with_audience_def Let_def empty_record_def
        split: option.splits if_splits)
  then show ?case using r Cons.IH by simp
qed simp

lemma handleBatch_success:
  assumes "handleBatchCreateOrUpdate cfg realm key user req (s, rw) = Returns (s', rw')" and "rw_reply rw = None"
    and "decode_batch (cfg_reads_past cfg) req rw = (irs, w)"
  shows "rw_status rw' = Some 400 \<and> s' = s \<or>
    (\<exists>js rs res d. irs = Some js \<and> js \<noteq> [] \<and> batch_records key user js = Returns (Some rs) \<and>
      BatchCreateOrUpdate (cfg_engine cfg) (ks_kv s) realm rs (ks_db s) = Returns (res, d) \<and>
      s' = s\<lparr>ks_db := d\<rparr> \<and> rw_status rw' = Some (if isl res then 500 else 200)) \<or>
    irs = Some [] \<and> s' = s \<and> rw_status rw' = Some 200"
proof -
  have w: "rw_reply w = None"
    using assms(2,3) by (auto simp: decode_batch_def Let_def split: if_splits)
  show ?thesis
  proof (cases "irs = None \<or> irs = Some []")
    case True
    then show ?thesis using assms(1,3) w by (auto simp: handleBatchCreateOrUpdate_def rw_status_simps)
  next
    case False
    then obtain i more where i: "irs = Some (i # more)" by (cases irs) (auto simp: neq_Nil_conv)
    obtain x where x: "batch_records key user (i # more) = Returns x"
      using assms(1,3) i by (auto simp: handleBatchCreateOrUpdate_def obind_eq_Returns simp del: batch_records.simps)
    show ?thesis
    proof (cases x)
      case None
      then show ?thesis using assms(1,3) i x w
        by (auto simp: handleBatchCreateOrUpdate_def rw_status_simps simp del: batch_records.simps)
    next
      case (Some rs)
      then obtain res d where b: "BatchCreateOrUpdate (cfg_engine cfg) (ks_kv s) realm rs (ks_db s) = Returns (res, d)"
        "s' = s\<lparr>ks_db := d\<rparr>" "rw' = (case res of Inl err \<Rightarrow> http_error [] 500 w | Inr u \<Rightarrow> write_header 200 w)"
        using assms(1,3) i x
        by (auto simp: handleBatchCreateOrUpdate_def Let_def obind_eq_Returns simp del: batch_records.simps)
      have "rw_status rw' = Some (if isl res then 500 else 200)"
        using b(3) w by (cases res) (simp_all add: rw_status_simps)
      then show ?thesis using i x Some b(1,2) by blast
    qed
  qed
qed


text \<open>A batch of one record, and the record it becomes.\<close>

definition sample_batch :: string where
  "sample_batch = ''[{\"key\":\"b\",\"value\":\"eA==\"}]''"

definition sample_batch_record :: kv_record where
  "sample_batch_record = empty_record\<lparr>Collection := Some ''notes'', Key := ''notes/b'',
     Value := Some [CHR ''x'', CHR 0x00, CHR 0x00], OwnerID := ''alice'', ClientID := ''web''\<rparr>"

lemma sample_batch_decode:
  "decode_batch False (ParseForm (sample_req ''PUT'' ''batch=1'' sample_batch)) fresh_rw =
    (Some [Some \<lparr>JKey = Some ''b'', JValue = Some ''\"eA==\"'', JContentType = []\<rparr>], fresh_rw)"
proof -
  have 1: "json_first (skip_ws sample_batch) = Some (JArr [JObj [(''key'', JStr ''b''), (''value'', JStr ''eA=='')]], [])"
    by code_simp
  have 2: "decode_record_list sample_batch (JArr [JObj [(''key'', JStr ''b''), (''value'', JStr ''eA=='')]])
    = Some [Some \<lparr>JKey = Some ''b'', JValue = Some ''\"eA==\"'', JContentType = []\<rparr>]"
    by code_simp
  have 3: "take batchSizeLimit sample_batch = sample_batch" "\<not> batchSizeLimit < length sample_batch"
    by (simp_all add: batchSizeLimit_def valueSizeLimit_def sample_batch_def)
  show ?thesis by (simp add: decode_batch_def Let_def ParseForm_body 1 2 3)
qed

lemma sample_batch_records:
  "batch_records ''notes'' sample_user [Some \<lparr>JKey = Some ''b'', JValue = Some ''\"eA==\"'', JContentType = []\<rparr>]
   = Returns (Some [sample_batch_record])"
  by code_simp


text \<open>A batch in which some element before the first undecodable value is null, or has no key,
  does not get an answer: the handler dereferences a nil pointer.\<close>

theorem batch_without_key_panics:
  assumes "decode_batch (cfg_reads_past cfg) req rw = (Some (js @ ir # irs), w)"
    and "batch_records key user js = Returns (Some rs)"
    and "ir = None \<or> (\<exists>j. ir = Some j \<and> JKey j = None)"
  shows "\<exists>m. handleBatchCreateOrUpdate cfg realm key user req (s, rw) = Panics m"
proof -
  have "\<exists>m. batch_records key user (js @ ir # irs) = Panics m"
    using assms(2)
  proof (induction js arbitrary: rs)
    case Nil
    then show ?case using assms(3) by (auto simp: batch_record_def)
  next
    case (Cons j js)
    then obtain r rs' where "batch_record key user j = Returns (Some r)"
      "batch_records key user js = Returns (Some rs')" unfolding batch_records_Cons by blast
    then show ?case using Cons.IH by auto
  qed
  then show ?thesis using assms(1)
    by (cases "js @ ir # irs") (auto simp: handleBatchCreateOrUpdate_def simp del: batch_records.simps)
qed

theorem batch_without_key_panics_witness:
  "\<exists>m. handleBatchCreateOrUpdate sample_cfg user_realm ''notes'' sample_user
     (ParseForm (sample_req ''PUT'' ''batch=1'' ''[null]'')) (sample_state, fresh_rw) = Panics m"
proof -
  have 1: "json_first (skip_ws ''[null]'') = Some (JArr [JNull], [])" by code_simp
  have 2: "decode_record_list ''[null]'' (JArr [JNull]) = Some [None]" by code_simp
  have "decode_batch (cfg_reads_past sample_cfg) (ParseForm (sample_req ''PUT'' ''batch=1'' ''[null]'')) fresh_rw
    = (Some ([] @ None # []), fresh_rw)"
    using 1 2 by (simp add: decode_batch_def Let_def ParseForm_body batchSizeLimit_def valueSizeLimit_def)
  then show ?thesis by (rule batch_without_key_panics) simp_all
qed

end
