(* ===== verification/Sticky.thy ===== *)
theory Sticky
  imports Server
begin

text \<open>
  Package \<open>httpproxy\<close> (\<open>src/proxy/httpproxy/sticky.go\<close>, \<open>httpproxy.go\<close>): the rule of a sticky proxy, the
  handler that marks requests and replies with a cookie and headers, and the configuration text given
  to the proxy library. That library (caddy) is not part of the sources; the handler it makes is a
  parameter.
\<close>

section \<open>Sticky rules\<close>

record sticky =
  CookieName :: string
  CookiePath :: string
  HeaderName :: string
  Nocache :: bool
  SetUpstreamHeader :: bool
  SetCookie :: bool

datatype sticky_error = MissingCookie | MissingHeader | MissingPath | UnknownToken string

definition default_sticky :: sticky where
  "default_sticky = \<lparr>CookieName = [], CookiePath = ''/'', HeaderName = [], Nocache = False,
     SetUpstreamHeader = False, SetCookie = False\<rparr>"

text \<open>The loop over the words of the rule; a word that takes an argument consumes the next one.\<close>

fun sticky_rules :: "string list \<Rightarrow> sticky \<Rightarrow> sticky_error + sticky" where
  "sticky_rules [] sph = Inr sph"
| "sticky_rules (t # ts) sph =
     (if t = ''set-cookie'' \<or> t = ''cookie'' then
        (let sph = (if t = ''set-cookie'' then sph\<lparr>SetCookie := True\<rparr> else sph) in
         case ts of
           [] \<Rightarrow> Inl MissingCookie
         | a # ts' \<Rightarrow> sticky_rules ts' (sph\<lparr>CookieName := a\<rparr>))
      else if t = ''set-upstream-header'' then
        (case ts of
           [] \<Rightarrow> Inl MissingHeader
         | a # ts' \<Rightarrow> sticky_rules ts' (sph\<lparr>HeaderName := a, SetUpstreamHeader := True\<rparr>))
      else if t = ''nocache'' then sticky_rules ts (sph\<lparr>Nocache := True\<rparr>)
      else if t = ''cookie-path'' then
        (case ts of
           [] \<Rightarrow> Inl MissingPath
         | a # ts' \<Rightarrow> sticky_rules ts' (sph\<lparr>CookiePath := a\<rparr>))
      else Inl (UnknownToken t))"

definition newStickyProxyHandler :: "string \<Rightarrow> sticky_error + sticky" where
  "newStickyProxyHandler rule = sticky_rules (scan_words [] rule) default_sticky"

section \<open>Cookies\<close>

text \<open>\<open>Request.Cookie\<close>: the value of the first cookie of that name.\<close>

definition req_cookie :: "request \<Rightarrow> string \<Rightarrow> string option" where
  "req_cookie req name = map_of (req_cookies req) name"

text \<open>\<open>http.SetCookie\<close> for a cookie with a path: nothing when the name is not a token.\<close>

definition cookie_value_byte :: "char \<Rightarrow> bool" where
  "cookie_value_byte c \<longleftrightarrow> 32 \<le> byte_of c \<and> byte_of c < 127 \<and> c \<noteq> CHR 0x22 \<and> c \<noteq> CHR '';'' \<and> c \<noteq> CHR 0x5C"

definition cookie_path_byte :: "char \<Rightarrow> bool" where
  "cookie_path_byte c \<longleftrightarrow> 32 \<le> byte_of c \<and> byte_of c < 127 \<and> c \<noteq> CHR '';''"

definition cookie_value :: "string \<Rightarrow> string" where
  "cookie_value v =
     (let v = filter cookie_value_byte v in
      if List.member v (CHR '' '') \<or> List.member v (CHR '','') then CHR 0x22 # v @ [CHR 0x22] else v)"

definition cookie_string :: "string \<Rightarrow> string \<Rightarrow> string \<Rightarrow> string" where
  "cookie_string name v path =
     (if name = [] \<or> \<not> list_all valid_field_byte name then []
      else name @ ''='' @ cookie_value v
        @ (if path = [] then [] else ''; Path='' @ filter cookie_path_byte path))"

definition set_cookie :: "string \<Rightarrow> string \<Rightarrow> string \<Rightarrow> rwriter \<Rightarrow> rwriter" where
  "set_cookie name v path rw =
     (let c = cookie_string name v path in
      if c = [] then rw else rw\<lparr>rw_header := header_add (rw_header rw) ''Set-Cookie'' c\<rparr>)"

section \<open>The handler\<close>

text \<open>The cookie of the request, or a new random value \<open>rnd\<close> when one is to be set; whether it is to
  be set in the reply; and the value, empty when there is none.\<close>

definition sticky_value :: "sticky \<Rightarrow> string \<Rightarrow> request \<Rightarrow> string \<times> bool" where
  "sticky_value sph rnd req =
     (if CookieName sph \<noteq> [] then
        (case req_cookie req (CookieName sph) of
           Some v \<Rightarrow> (v, False)
         | None \<Rightarrow> if SetCookie sph then (rnd, True) else ([], False))
      else ([], False))"

definition sticky_request :: "sticky \<Rightarrow> string \<Rightarrow> request \<Rightarrow> request" where
  "sticky_request sph v req =
     (if CookieName sph \<noteq> [] \<and> SetUpstreamHeader sph \<and> HeaderName sph \<noteq> [] \<and> v \<noteq> []
      then req\<lparr>req_header := header_set (req_header req) (HeaderName sph) v\<rparr> else req)"

text \<open>The random value is drawn for each request: \<open>rnd\<close> depends on the state.\<close>

definition sticky_Handler :: "sticky \<Rightarrow> ('s \<Rightarrow> string) \<Rightarrow> 's proxy_handler \<Rightarrow> 's proxy_handler" where
  "sticky_Handler sph rnd nextp req srw =
     (let (v, setc) = sticky_value sph (rnd (fst srw)) req;
          req = sticky_request sph v req;
          rw = snd srw;
          rw = (if Nocache sph \<and> header_get (rw_header rw) ''Cache-Control'' = []
                then set_header ''Cache-Control'' ''nocache'' rw else rw);
          rw = (if setc then set_cookie (CookieName sph) v (CookiePath sph) rw else rw)
      in nextp req (fst srw, rw))"

section \<open>The configuration of a proxy\<close>

text \<open>Decimal digits, and \<open>time.Duration\<close> (in nanoseconds) as \<open>Duration.String\<close> prints it.\<close>

fun digits_of :: "nat \<Rightarrow> string" where
  "digits_of n = (if n < 10 then [char_of (48 + n)] else digits_of (n div 10) @ [char_of (48 + n mod 10)])"

declare digits_of.simps [simp del]

text \<open>\<open>fmtFrac\<close>: the last \<open>prec\<close> digits as a fraction without trailing zeros.\<close>

fun frac_digits :: "nat \<Rightarrow> nat \<Rightarrow> bool \<Rightarrow> string \<Rightarrow> string" where
  "frac_digits v 0 printed acc = (if printed then CHR ''.'' # acc else acc)"
| "frac_digits v (Suc p) printed acc =
     (let d = v mod 10; printed' = (printed \<or> d \<noteq> 0) in
      frac_digits (v div 10) p printed' (if printed' then char_of (48 + d) # acc else acc))"

definition duration_string :: "nat \<Rightarrow> string" where
  "duration_string u =
     (if u = 0 then ''0s''
      else if u < 1000 then digits_of u @ ''ns''
      else if u < 1000000 then digits_of (u div 1000) @ frac_digits u 3 False [] @ [char_of (194 :: nat), char_of (181 :: nat)] @ ''s''
      else if u < 1000000000 then digits_of (u div 1000000) @ frac_digits u 6 False [] @ ''ms''
      else
        (let secs = u div 1000000000; mins = secs div 60; hours = mins div 60 in
         (if hours = 0 then [] else digits_of hours @ ''h'')
         @ (if mins = 0 then [] else digits_of (mins mod 60) @ ''m'')
         @ digits_of (secs mod 60) @ frac_digits u 9 False [] @ ''s''))"

record configuration =
  Policy :: string
  FailTimeout :: nat
  MaxFails :: nat
  MaxConns :: nat
  Keepalive :: nat
  TryDuration :: nat
  TryInterval :: nat
  StickyRule :: string
  Extra :: "string list"

definition DefaultConfiguration :: configuration where
  "DefaultConfiguration = \<lparr>Policy = ''random'', FailTimeout = 0, MaxFails = 1, MaxConns = 0,
     Keepalive = 8, TryDuration = 0, TryInterval = 250 * 1000000, StickyRule = [], Extra = []\<rparr>"

definition cline :: "string \<Rightarrow> string" where
  "cline s = CHR 0x0A # CHR 0x09 # CHR 0x09 # s"

text \<open>The template: two tabs before each line of the block, and around each element of a range the
  line breaks of the template.\<close>

definition configuration_text :: "configuration \<Rightarrow> string list \<Rightarrow> string" where
  "configuration_text c uris =
     CHR 0x0A # CHR 0x09 # ''proxy / {'' @ cline ''transparent'' @ [CHR 0x0A]
     @ cline (''policy '' @ Policy c)
     @ cline (''fail_timeout '' @ duration_string (FailTimeout c))
     @ cline (''max_fails '' @ digits_of (MaxFails c))
     @ cline (''max_conns '' @ digits_of (MaxConns c))
     @ cline (''keepalive '' @ digits_of (Keepalive c))
     @ cline (''try_duration '' @ duration_string (TryDuration c))
     @ cline (''try_interval '' @ duration_string (TryInterval c)) @ [CHR 0x0A]
     @ cline (concat (map (\<lambda>u. cline (''upstream unix://'' @ u) @ cline []) uris)) @ [CHR 0x0A]
     @ cline (concat (map (\<lambda>x. cline x @ cline []) (Extra c)))
     @ CHR 0x0A # CHR 0x09 # ''}'' @ [CHR 0x0A]"

definition makeProxyHandler ::
  "configuration \<Rightarrow> ('s \<Rightarrow> string) \<Rightarrow> 's proxy_handler \<Rightarrow> sticky_error + 's proxy_handler" where
  "makeProxyHandler c rnd nextp =
     (if StickyRule c = [] then Inr nextp
      else (case newStickyProxyHandler (StickyRule c) of
              Inl err \<Rightarrow> Inl err
            | Inr sph \<Rightarrow> Inr (sticky_Handler sph rnd nextp)))"

datatype proxy_error = UpstreamsError | StickyError sticky_error

text \<open>\<open>New\<close>: \<open>upstreams\<close> is the library's \<open>NewStaticUpstreams\<close> with the proxy over them.\<close>

definition NewProxy ::
  "(string \<Rightarrow> 's proxy_handler option) \<Rightarrow> string list \<Rightarrow> configuration option \<Rightarrow> ('s \<Rightarrow> string)
     \<Rightarrow> proxy_error + 's proxy_handler" where
  "NewProxy upstreams uris conf rnd =
     (let c = (case conf of None \<Rightarrow> DefaultConfiguration | Some c \<Rightarrow> c) in
      case upstreams (configuration_text c uris) of
        None \<Rightarrow> Inl UpstreamsError
      | Some p \<Rightarrow>
          (case makeProxyHandler c rnd p of Inl err \<Rightarrow> Inl (StickyError err) | Inr h \<Rightarrow> Inr h))"

lemma frac_digits_numeral:
  "frac_digits v (numeral k) printed acc =
     (let d = v mod 10; printed' = (printed \<or> d \<noteq> 0) in
      frac_digits (v div 10) (pred_numeral k) printed' (if printed' then char_of (48 + d) # acc else acc))"
  by (subst numeral_eq_Suc [of k]) (simp only: frac_digits.simps)

lemma digit_chars:
  "char_of (48 :: nat) = CHR ''0''" "char_of (49 :: nat) = CHR ''1''" "char_of (53 :: nat) = CHR ''5''"
  by code_simp+

lemma duration_samples:
  "duration_string 0 = ''0s''" "duration_string (500 * 1000000) = ''500ms''"
  "duration_string (50 * 1000000) = ''50ms''" "duration_string (1000 * 1000000) = ''1s''"
  "duration_string (1500 * 1000000) = ''1.5s''"
  by (simp_all add: duration_string_def digits_of.simps frac_digits_numeral Let_def digit_chars)

section \<open>Facts\<close>

text \<open>A rule without errors says exactly what it is made of.\<close>

datatype directive = DCookie bool string | DHeader string | DNocache | DPath string

fun directive_words :: "directive \<Rightarrow> string list" where
  "directive_words (DCookie True a) = [''set-cookie'', a]"
| "directive_words (DCookie False a) = [''cookie'', a]"
| "directive_words (DHeader a) = [''set-upstream-header'', a]"
| "directive_words DNocache = [''nocache'']"
| "directive_words (DPath a) = [''cookie-path'', a]"

fun apply_directive :: "directive \<Rightarrow> sticky \<Rightarrow> sticky" where
  "apply_directive (DCookie b a) sph = (if b then sph\<lparr>SetCookie := True\<rparr> else sph)\<lparr>CookieName := a\<rparr>"
| "apply_directive (DHeader a) sph = sph\<lparr>HeaderName := a, SetUpstreamHeader := True\<rparr>"
| "apply_directive DNocache sph = sph\<lparr>Nocache := True\<rparr>"
| "apply_directive (DPath a) sph = sph\<lparr>CookiePath := a\<rparr>"

lemma sticky_rules_directives:
  "sticky_rules (concat (map directive_words ds)) sph = Inr (fold apply_directive ds sph)"
proof (induction ds arbitrary: sph)
  case (Cons d ds)
  then show ?case by (cases d rule: directive_words.cases) simp_all
qed simp

lemma sticky_rules_complete:
  "sticky_rules ts sph = Inr sph' \<Longrightarrow> \<exists>ds. ts = concat (map directive_words ds) \<and> sph' = fold apply_directive ds sph"
proof (induction ts sph rule: sticky_rules.induct)
  case (1 sph)
  then show ?case by (intro exI [of _ "[]"]) simp
next
  case (2 t ts sph)
  have step: "\<exists>ds. t # ts = concat (map directive_words ds) \<and> sph' = fold apply_directive ds sph"
    if "t # ts = directive_words d @ ts'" "sticky_rules ts' (apply_directive d sph) = Inr sph'"
      "\<exists>ds. ts' = concat (map directive_words ds) \<and> sph' = fold apply_directive ds (apply_directive d sph)" for d ts'
  proof -
    from that(3) obtain ds where "ts' = concat (map directive_words ds)"
      "sph' = fold apply_directive ds (apply_directive d sph)" by blast
    then show ?thesis using that(1) by (intro exI [of _ "d # ds"]) simp
  qed
  consider (setc) "t = ''set-cookie''" | (cookie) "t = ''cookie''" | (header) "t = ''set-upstream-header''"
    | (nocache) "t = ''nocache''" | (path) "t = ''cookie-path''"
    using "2.prems" by (auto split: if_splits)
  then show ?case
  proof cases
    case setc
    then obtain a ts' where "ts = a # ts'" using "2.prems" by (cases ts) auto
    then show ?thesis using step [of "DCookie True a" ts'] setc "2.prems" "2.IH"(1) by auto
  next
    case cookie
    then obtain a ts' where "ts = a # ts'" using "2.prems" by (cases ts) auto
    then show ?thesis using step [of "DCookie False a" ts'] cookie "2.prems" "2.IH"(1) by auto
  next
    case header
    then obtain a ts' where "ts = a # ts'" using "2.prems" by (cases ts) auto
    then show ?thesis using step [of "DHeader a" ts'] header "2.prems" "2.IH"(2) by auto
  next
    case nocache
    then show ?thesis using step [of DNocache ts] "2.prems" "2.IH"(3) by auto
  next
    case path
    then obtain a ts' where "ts = a # ts'" using "2.prems" by (cases ts) auto
    then show ?thesis using step [of "DPath a" ts'] path "2.prems" "2.IH"(4) by auto
  qed
qed

lemma header_get_canonical: "canonical_key k = canonical_key k' \<Longrightarrow> header_get h k = header_get h k'"
  by (simp add: header_get_def)

section \<open>Properties\<close>

text \<open>C21: the rule parser accepts exactly the sequences of directives, each with its argument, and the
  handler it returns is what the directives make of the default one, in order.\<close>

theorem sticky_rule_grammar:
  "newStickyProxyHandler rule = Inr sph \<longleftrightarrow>
     (\<exists>ds. scan_words [] rule = concat (map directive_words ds) \<and> sph = fold apply_directive ds default_sticky)"
  using sticky_rules_directives sticky_rules_complete
  by (fastforce simp: newStickyProxyHandler_def)



end
