(* ===== verification/Pubs.thy ===== *)
theory Pubs
  imports KV_Record Mux Sticky "HOL-Library.Word"
begin

text \<open>
  The plugin \<open>pubs\<close> (\<open>src/plugins/pubs\<close>): webhooks that publish to a topic, one-time keys for websocket
  streams, and the messages of a stream. \<open>models.go\<close>, \<open>json.go\<close>, \<open>handlers.go\<close>, \<open>http.go\<close> and
  \<open>plugin.go\<close> are here; the stream side is in \<open>Pubs_Stream\<close>.

  Not part of the sources, and so parameters: the random strings, the signed tokens (securecookie),
  the URLs of named routes (mux), the websocket upgrade and the connection. The broker (pubsub) is
  seen through the calls made to it, which the state records. The concurrent maps are maps whose
  operations are atomic.
\<close>

section \<open>Models and their JSON\<close>

record webhookPubTokenData =
  td_id :: string
  td_topic :: string

record streamEnvelope =
  se_type :: string
  se_data :: string
  se_info :: string
  se_state :: string

record streamTopicDefinition =
  st_ref :: string
  st_topics :: "string list"

definition json_members_or_empty :: "(bool \<times> string \<times> jval) list \<Rightarrow> (string \<times> jval) list" where
  "json_members_or_empty ms = map snd (filter fst ms)"

definition topic_definition_json :: "streamTopicDefinition \<Rightarrow> jval" where
  "topic_definition_json t = JObj (json_members_or_empty
     [(st_ref t \<noteq> [], ''ref'', marshal_str (st_ref t)),
      (st_topics t \<noteq> [], ''topics'', JArr (map marshal_str (st_topics t)))])"

text \<open>A raw message is written as it is; \<open>None\<close> when it is not JSON. An empty one is left out.\<close>

definition raw_or_empty :: "string \<Rightarrow> jval option" where
  "raw_or_empty raw = (if raw = [] then Some JNull else marshal_raw (Some raw))"

definition envelope_json :: "streamEnvelope \<Rightarrow> jval option" where
  "envelope_json e =
     (case (raw_or_empty (se_data e), raw_or_empty (se_info e)) of
        (Some d, Some i) \<Rightarrow> Some (JObj (json_members_or_empty
          [(True, ''type'', marshal_str (se_type e)), (se_data e \<noteq> [], ''data'', d),
           (se_info e \<noteq> [], ''info'', i), (se_state e \<noteq> [], ''state'', marshal_str (se_state e))]))
      | _ \<Rightarrow> None)"

text \<open>\<open>PrettyJSON\<close> of a value, and \<open>WriteJSON\<close>, whose encoder ends with a line break.\<close>

definition PrettyJSON :: "jval \<Rightarrow> string" where
  "PrettyJSON v = marshal_indent v"

definition defaultJSONContentType :: string where
  "defaultJSONContentType = ''application/json; encoding=utf-8''"

definition WriteJSON :: "nat \<Rightarrow> jval \<Rightarrow> string \<Rightarrow> rwriter \<Rightarrow> rwriter" where
  "WriteJSON code v contentType rw =
     rw_write (PrettyJSON v @ [CHR 0x0A])
       (write_header code
         (set_header (if contentType = [] then ''Content-Type'' else ''content-Type'')
           (if contentType = [] then defaultJSONContentType else contentType) rw))"

definition streamEnvelopeTypeEvent :: string where
  "streamEnvelopeTypeEvent = ''event''"

text \<open>The event that a message to some topics becomes.\<close>

definition event_envelope :: "string \<Rightarrow> string list \<Rightarrow> string \<Rightarrow> streamEnvelope" where
  "event_envelope ref topics msg =
     \<lparr>se_type = streamEnvelopeTypeEvent, se_data = msg,
      se_info = PrettyJSON (topic_definition_json \<lparr>st_ref = ref, st_topics = topics\<rparr>), se_state = []\<rparr>"

section \<open>State and configuration\<close>

text \<open>Calls of the broker; a channel is named by a number, its place among the calls.\<close>

datatype broker_call =
    Sub nat string
  | AddSub nat "string list"
  | Unsub nat "string list"
  | UnsubAll nat
  | Pub string "string list"
  | Shutdown

record keyRecord =
  kr_when :: int
  kr_user :: "string option"

text \<open>\<open>ps_now\<close> is the clock in seconds, \<open>ps_random\<close> the number of random strings drawn so far.\<close>

record pubs_state =
  ps_keys :: "string \<rightharpoonup> keyRecord"
  ps_count :: "64 word"
  ps_connections :: "string set"
  ps_calls :: "broker_call list"
  ps_random :: nat
  ps_now :: int

datatype upgrade = Upgraded | HandshakeFailed | UpgradeFailed

record pubs_config =
  pc_oidc :: oidc
  pc_mux :: mux
  pc_cors :: "(pubs_state handler \<Rightarrow> pubs_state handler) option"
  pc_scopes :: "string list"
  pc_rnd :: "nat \<Rightarrow> nat \<Rightarrow> string"
  pc_encode :: "nat \<Rightarrow> webhookPubTokenData \<Rightarrow> string option"
  pc_decode :: "string \<Rightarrow> webhookPubTokenData option"
  pc_url :: "string \<Rightarrow> (string \<times> string) list \<Rightarrow> string option"
  pc_upgrade :: "request \<Rightarrow> rwriter \<Rightarrow> upgrade \<times> rwriter"
  pc_connection :: bool
  pc_broadcast :: string

type_synonym pubs_handler = "pubs_state handler"

text \<open>\<open>rndm.GenerateRandomString\<close>: the next string of that size.\<close>

definition draw :: "pubs_config \<Rightarrow> nat \<Rightarrow> pubs_state \<Rightarrow> string \<times> pubs_state" where
  "draw cfg n s = (pc_rnd cfg (ps_random s) n, s\<lparr>ps_random := Suc (ps_random s)\<rparr>)"

definition broker :: "broker_call \<Rightarrow> pubs_state \<Rightarrow> pubs_state" where
  "broker c s = s\<lparr>ps_calls := ps_calls s @ [c]\<rparr>"

section \<open>Webhooks\<close>

definition maxRequestSize :: nat where
  "maxRequestSize = 1024 * 5"

definition webhookRouterIdentifier :: string where
  "webhookRouterIdentifier = ''webhook-by-id-and-token''"

definition websocketRouteIdentifier :: string where
  "websocketRouteIdentifier = ''stream-websocket''"

definition webhook_response :: "string \<Rightarrow> string \<Rightarrow> string \<Rightarrow> jval" where
  "webhook_response rid topic url =
     JObj [(''id'', marshal_str rid), (''topic'', marshal_str topic), (''pubUrl'', marshal_str url)]"

text \<open>\<open>handleWebhookRegister\<close>: \<open>False\<close> for an error, which the HTTP handler answers with 500.\<close>

definition handleWebhookRegister :: "pubs_config \<Rightarrow> request \<Rightarrow> pubs_state \<times> rwriter \<Rightarrow> (pubs_state \<times> rwriter) \<times> bool" where
  "handleWebhookRegister cfg req srw =
     (let req = ParseForm req; s = fst srw; rw = snd srw;
          topic = form_get req ''topic'';
          (topic, s) = (if topic = [] then draw cfg 32 s else (topic, s));
          (rid, s) = draw cfg 32 s
      in case pc_encode cfg (ps_random s) \<lparr>td_id = rid, td_topic = topic\<rparr> of
           None \<Rightarrow> ((s, rw), False)
         | Some token \<Rightarrow>
             (case pc_url cfg webhookRouterIdentifier [(''id'', rid), (''token'', token)] of
                None \<Rightarrow> ((s, rw), False)
              | Some url \<Rightarrow> ((s, WriteJSON 200 (webhook_response rid topic url) [] rw), True)))"

text \<open>The message of a publish request: at most the first 5 KiB of the body; \<open>None\<close> when reading them
  fails. With an envelope it is put into a text that is meant to be JSON.\<close>

definition read_limited :: "nat \<Rightarrow> request \<Rightarrow> string option" where
  "read_limited n req =
     (if length (req_body req) < n \<and> req_body_fail req then None else Some (take n (req_body req)))"

definition with_envelope :: "string \<Rightarrow> string \<Rightarrow> string" where
  "with_envelope envelope msg =
     (if envelope = [] then msg
      else ''{\"type\":\"'' @ envelope @ ''\",\"data\":'' @ msg @ ''}'')"

definition handleWebhookPublish ::
  "pubs_config \<Rightarrow> (string \<times> string) list \<Rightarrow> request \<Rightarrow> pubs_state \<times> rwriter \<Rightarrow> pubs_state \<times> rwriter" where
  "handleWebhookPublish cfg vars req srw =
     (let s = fst srw; rw = snd srw in
      case map_of vars ''token'' of
        None \<Rightarrow> (s, not_found rw)
      | Some token \<Rightarrow>
          (case pc_decode cfg token of
             None \<Rightarrow> (s, http_error [] 422 rw)
           | Some td \<Rightarrow>
               (let req = ParseForm req; vtoken = form_get req ''validationToken'' in
                if vtoken \<noteq> []
                then (s, rw_write vtoken (write_header 200 (set_header ''Content-Type'' ''text/plain'' rw)))
                else
                  (case read_limited maxRequestSize req of
                     None \<Rightarrow> (s, http_error [] 400 rw)
                   | Some msg \<Rightarrow>
                       (let envelope = (case map_of vars ''envelope'' of None \<Rightarrow> [] | Some e \<Rightarrow> e);
                            msg = with_envelope envelope msg
                        in case envelope_json (event_envelope (td_id td) [td_topic td] msg) of
                             None \<Rightarrow> (s, http_error [] 400 rw)
                           | Some ev \<Rightarrow> (broker (Pub (PrettyJSON ev) [td_topic td]) s, write_header 204 rw))))))"

section \<open>Websocket streams\<close>

definition connectKeySize :: nat where
  "connectKeySize = 24"

text \<open>\<open>handleWebsocketConnect\<close>: a new key for an authenticated user, or an error.\<close>

definition handleWebsocketConnect :: "pubs_config \<Rightarrow> ctx \<Rightarrow> pubs_state \<Rightarrow> string option \<times> pubs_state" where
  "handleWebsocketConnect cfg c s =
     (let (key, s) = draw cfg connectKeySize s; uid = fst (AuthenticatedUserIDFromContext c) in
      if uid = [] then (None, s)
      else (Some key, s\<lparr>ps_keys := (ps_keys s)(key \<mapsto> \<lparr>kr_when = ps_now s, kr_user = Some uid\<rparr>)\<rparr>))"

text \<open>\<open>handleWebsocketConnection\<close>: the key is taken out of the table in any case. \<open>False\<close> is an error;
  the id of the new connection is given when there is one.\<close>

definition handleWebsocketConnection ::
  "pubs_config \<Rightarrow> string \<Rightarrow> request \<Rightarrow> pubs_state \<times> rwriter \<Rightarrow> (pubs_state \<times> rwriter) \<times> bool \<times> string option" where
  "handleWebsocketConnection cfg key req srw =
     (let s = fst srw; rw = snd srw in
      case ps_keys s key of
        None \<Rightarrow> ((s, not_found rw), True, None)
      | Some kr \<Rightarrow>
          (let s = s\<lparr>ps_keys := (ps_keys s)(key := None)\<rparr> in
           if kr_user kr = None \<or> kr_user kr = Some [] then ((s, http_error [] 403 rw), True, None)
           else (case pc_upgrade cfg req rw of
                   (HandshakeFailed, rw) \<Rightarrow> ((s, rw), True, None)
                 | (UpgradeFailed, rw) \<Rightarrow> ((s, rw), False, None)
                 | (Upgraded, rw) \<Rightarrow>
                     (let s = s\<lparr>ps_count := ps_count s + 1\<rparr>; cid = digits_of (unat (ps_count s)) in
                      if pc_connection cfg then ((s, rw), True, Some cid) else ((s, rw), False, None)))))"

text \<open>\<open>serveWebsocketConnection\<close>: the connection is listed while it is served.\<close>

definition serve_begin :: "string \<Rightarrow> pubs_state \<Rightarrow> pubs_state" where
  "serve_begin cid s = s\<lparr>ps_connections := insert cid (ps_connections s)\<rparr>"

definition serve_end :: "string \<Rightarrow> pubs_state \<Rightarrow> pubs_state" where
  "serve_end cid s = s\<lparr>ps_connections := ps_connections s - {cid}\<rparr>"

definition connectExpiration :: int where
  "connectExpiration = 30"

definition purgeExpiredKeys :: "pubs_state \<Rightarrow> pubs_state" where
  "purgeExpiredKeys s = s\<lparr>ps_keys := (\<lambda>k. case ps_keys s k of
     None \<Rightarrow> None
   | Some kr \<Rightarrow> if kr_when kr < ps_now s - connectExpiration then None else Some kr)\<rparr>"

section \<open>HTTP handlers and routes\<close>

definition MakeHTTPWebhookRegisterHandler :: "pubs_config \<Rightarrow> pubs_handler" where
  "MakeHTTPWebhookRegisterHandler cfg req srw =
     (case handleWebhookRegister cfg req srw of
        ((s, rw), ok) \<Rightarrow> Returns (s, if ok then rw else http_error [] 500 rw))"

definition MakeHTTPWebhookPublishHandler :: "pubs_config \<Rightarrow> (string \<times> string) list \<Rightarrow> pubs_handler" where
  "MakeHTTPWebhookPublishHandler cfg vars req srw = Returns (handleWebhookPublish cfg vars req srw)"

definition connect_response :: "string \<Rightarrow> jval" where
  "connect_response url = JObj [(''streamUrl'', marshal_str url)]"

definition MakeHTTPWebsocketConnectHandler :: "pubs_config \<Rightarrow> pubs_handler" where
  "MakeHTTPWebsocketConnectHandler cfg req srw =
     (case handleWebsocketConnect cfg (req_ctx req) (fst srw) of
        (None, s) \<Rightarrow> Returns (s, http_error [] 500 (snd srw))
      | (Some key, s) \<Rightarrow>
          (case pc_url cfg websocketRouteIdentifier [(''key'', key)] of
             None \<Rightarrow> Returns (s, http_error [] 500 (snd srw))
           | Some url \<Rightarrow> Returns (s, WriteJSON 200 (connect_response url) [] (snd srw))))"

definition HTTPWebsocketHandler :: "pubs_config \<Rightarrow> (string \<times> string) list \<Rightarrow> pubs_handler" where
  "HTTPWebsocketHandler cfg vars req srw =
     (if req_method req \<noteq> ''GET'' then Returns (fst srw, http_error [] 405 (snd srw))
      else (case map_of vars ''key'' of
              None \<Rightarrow> Returns (fst srw, not_found (snd srw))
            | Some key \<Rightarrow>
                (case handleWebsocketConnection cfg key req srw of
                   ((s, rw), ok, conn) \<Rightarrow> Returns (s, if ok then rw else http_error [] 500 rw))))"

definition pubs_base :: string where
  "pubs_base = ''/api/pubs/v1/''"

definition pubs_template :: "seg list \<Rightarrow> route_path" where
  "pubs_template ss = Template ([Lit ''api'', Lit ''pubs'', Lit ''v1''] @ ss)"

definition pubs_routes :: "pubs_config \<Rightarrow> (route \<times> ((string \<times> string) list \<Rightarrow> pubs_handler)) list" where
  "pubs_routes cfg =
     [(\<lparr>route_path = pubs_template [Lit ''webhook'', Var ''id'', Var ''token'', Var ''envelope''],
        route_methods = [''POST'']\<rparr>, \<lambda>vars. MakeHTTPWebhookPublishHandler cfg vars),
      (\<lparr>route_path = pubs_template [Lit ''webhook'', Var ''id'', Var ''token''],
        route_methods = [''POST'']\<rparr>, \<lambda>vars. MakeHTTPWebhookPublishHandler cfg vars),
      (\<lparr>route_path = pubs_template [Lit ''webhook''], route_methods = [''POST'']\<rparr>,
        \<lambda>vars. AccessTokenRequired (pc_oidc cfg) (MakeHTTPWebhookRegisterHandler cfg) (pc_scopes cfg)),
      (\<lparr>route_path = pubs_template [Lit ''stream'', Lit ''connect''], route_methods = []\<rparr>,
        \<lambda>vars. AccessTokenRequired (pc_oidc cfg) (MakeHTTPWebsocketConnectHandler cfg) (pc_scopes cfg)),
      (\<lparr>route_path = pubs_template [Lit ''stream'', Lit ''websocket'', Var ''key''], route_methods = [''GET'']\<rparr>,
        \<lambda>vars. HTTPWebsocketHandler cfg vars)]"

definition pubs_http :: "pubs_config \<Rightarrow> pubs_handler" where
  "pubs_http cfg = serve_mux (pc_mux cfg) (pubs_routes cfg)"

definition pubs_ServeHTTP :: "pubs_config \<Rightarrow> pubs_state plugin" where
  "pubs_ServeHTTP cfg req srw =
     (if has_prefix (req_path req) pubs_base
      then obind ((case pc_cors cfg of None \<Rightarrow> pubs_http cfg | Some wrap \<Rightarrow> wrap (pubs_http cfg)) req srw)
             (\<lambda>srw'. Returns (srw', True, False))
      else Returns (srw, False, False))"

interpretation pubs_path: answering_plugin "pubs_ServeHTTP cfg" "\<lambda>req. has_prefix (req_path req) pubs_base"
  for cfg :: pubs_config
  by standard (auto simp: pubs_ServeHTTP_def obind_eq_Returns)

section \<open>Setting up\<close>

text \<open>The secret key from the environment (\<open>hex.DecodeString\<close>), or 64 random bytes. The length of the
  key is checked; the routes were made before the scopes are read.\<close>

fun hex_decode :: "string \<Rightarrow> string option" where
  "hex_decode [] = Some []"
| "hex_decode (a # b # r) =
     (case (hex_val a, hex_val b) of
        (Some x, Some y) \<Rightarrow> map_option (\<lambda>t. char_of (16 * x + y) # t) (hex_decode r)
      | _ \<Rightarrow> None)"
| "hex_decode [a] = None"

datatype pubs_error = KeyInvalid | KeyTooSmall

text \<open>\<open>pu_max_age\<close> is the age that signed tokens may reach, 0 for any; \<open>pu_all_origins\<close> whether a
  websocket may come from any origin; \<open>pu_capacity\<close> how many messages a channel of the broker holds.\<close>

record pubs_setup =
  pu_hashKey :: string
  pu_max_age :: nat
  pu_read_buffer :: nat
  pu_write_buffer :: nat
  pu_all_origins :: bool
  pu_cors :: bool
  pu_route_scopes :: "string list"
  pu_scopesRequired :: "string list"
  pu_capacity :: nat
  pu_broadcast :: string

definition websocketReadBufferSize :: nat where
  "websocketReadBufferSize = 1024 * 10"

definition websocketWriteBufferSize :: nat where
  "websocketWriteBufferSize = 1024 * 10"

definition pubs_scopesRequired :: "string list" where
  "pubs_scopesRequired = [''kopano/pubs'']"

definition pubs_Initialize ::
  "string list \<Rightarrow> string \<Rightarrow> string \<Rightarrow> (string \<Rightarrow> string) \<Rightarrow> pubs_error + pubs_setup" where
  "pubs_Initialize scopesRequired rnd64 rnd32 getenv =
     (let keyString = getenv ''KOPANO_PUBS_SECRET_KEY'' in
      case (if keyString \<noteq> [] then hex_decode keyString else Some rnd64) of
        None \<Rightarrow> Inl KeyInvalid
      | Some hashKey \<Rightarrow>
          if length hashKey < 32 then Inl KeyTooSmall
          else (let scopes = getenv ''KOPANO_PUBS_REQUIRED_SCOPES'' in
                Inr \<lparr>pu_hashKey = hashKey, pu_max_age = 0, pu_read_buffer = websocketReadBufferSize,
                  pu_write_buffer = websocketWriteBufferSize, pu_all_origins = True,
                  pu_cors = (getenv ''KOPANO_PUBS_ALLOW_CORS'' = ''1''),
                  pu_route_scopes = scopesRequired,
                  pu_scopesRequired = (if scopes \<noteq> [] then split_all (CHR '' '') scopes else scopesRequired),
                  pu_capacity = 256, pu_broadcast = rnd32\<rparr>))"

text \<open>The state that \<open>Initialize\<close> makes: empty tables.\<close>

definition pubs_start :: "int \<Rightarrow> pubs_state" where
  "pubs_start now = \<lparr>ps_keys = Map.empty, ps_count = 0, ps_connections = {}, ps_calls = [], ps_random = 0, ps_now = now\<rparr>"

text \<open>\<open>NumActive\<close>: the connections that are listed.\<close>

definition NumActive :: "pubs_state \<Rightarrow> 64 word" where
  "NumActive s = word_of_nat (card (ps_connections s))"

definition pubs_Close :: "pubs_state \<Rightarrow> pubs_state" where
  "pubs_Close = broker Shutdown"

end
