(* ===== verification/Pubs_Stream.thy ===== *)
theory Pubs_Stream
  imports Pubs
begin

text \<open>
  The stream side of the plugin \<open>pubs\<close> (\<open>src/plugins/pubs/pubsub.go\<close>, \<open>events.go\<close>): what a connected
  websocket client can ask for, and what is sent to it. The connection (kwmserver's \<open>signaling\<close>
  package) calls \<open>OnConnect\<close>, \<open>OnText\<close>, \<open>OnDisconnect\<close> and \<open>OnError\<close>; whether its \<open>RawSend\<close> succeeds
  is a parameter, a function of the number of the attempt. The broker is seen through the calls made
  to it.
\<close>

section \<open>Messages of the client\<close>

definition streamEnvelopeTypeNameSub :: string where "streamEnvelopeTypeNameSub = ''sub''"
definition streamEnvelopeTypeNameUnsub :: string where "streamEnvelopeTypeNameUnsub = ''unsub''"
definition streamEnvelopeTypeNamePub :: string where "streamEnvelopeTypeNamePub = ''pub''"
definition streamEnvelopeTypeHello :: string where "streamEnvelopeTypeHello = ''hello''"
definition streamEnvelopeTypeAck :: string where "streamEnvelopeTypeAck = ''ack''"

lemmas stream_types = streamEnvelopeTypeNameSub_def streamEnvelopeTypeNameUnsub_def
  streamEnvelopeTypeNamePub_def streamEnvelopeTypeHello_def streamEnvelopeTypeAck_def
  streamEnvelopeTypeEvent_def

definition empty_envelope :: streamEnvelope where
  "empty_envelope = \<lparr>se_type = [], se_data = [], se_info = [], se_state = []\<rparr>"

text \<open>\<open>Unmarshal\<close> into a string field: a string is stored, null is ignored, anything else is an error
  that is reported at the end (the flag).\<close>

definition set_string :: "jval \<Rightarrow> string \<Rightarrow> string \<times> bool" where
  "set_string v old =
     (case v of JStr s \<Rightarrow> (unquoted s, True) | JNull \<Rightarrow> (old, True) | _ \<Rightarrow> (old, False))"

definition set_envelope_field :: "string \<times> string \<times> jval \<Rightarrow> streamEnvelope \<times> bool \<Rightarrow> streamEnvelope \<times> bool" where
  "set_envelope_field m st =
     (case (m, st) of ((k, t, v), (e, ok)) \<Rightarrow>
        (if field_matches ''type'' k
         then (let (x, good) = set_string v (se_type e) in (e\<lparr>se_type := x\<rparr>, ok \<and> good))
         else if field_matches ''data'' k then (e\<lparr>se_data := t\<rparr>, ok)
         else if field_matches ''info'' k then (e\<lparr>se_info := t\<rparr>, ok)
         else if field_matches ''state'' k
         then (let (x, good) = set_string v (se_state e) in (e\<lparr>se_state := x\<rparr>, ok \<and> good))
         else (e, ok)))"

text \<open>The whole text: \<open>None\<close> when it is not JSON or a value has the wrong type.\<close>

definition decode_envelope :: "string \<Rightarrow> streamEnvelope option" where
  "decode_envelope msg =
     (case json_parse msg of
        Some JNull \<Rightarrow> Some empty_envelope
      | Some (JObj ms) \<Rightarrow>
          (case fold set_envelope_field (object_members msg) (empty_envelope, True) of
             (e, ok) \<Rightarrow> if ok then Some e else None)
      | _ \<Rightarrow> None)"

text \<open>\<open>Unmarshal\<close> into a slice of strings reuses the slice it finds: \<open>sl_back\<close> is its backing array, as
  long as its capacity. An element null leaves what is there, which matters only for an object that
  names its topics more than once.\<close>

record slice =
  sl_len :: nat
  sl_back :: "string list"

definition empty_slice :: slice where
  "empty_slice = \<lparr>sl_len = 0, sl_back = []\<rparr>"

definition slice_list :: "slice \<Rightarrow> string list" where
  "slice_list sl = take (sl_len sl) (sl_back sl)"

definition grow :: "nat \<Rightarrow> slice \<Rightarrow> slice" where
  "grow i sl =
     (let cap = length (sl_back sl); newcap = max 4 (cap + cap div 2);
          back = (if cap \<le> i then take (sl_len sl) (sl_back sl) @ replicate (newcap - sl_len sl) []
                  else sl_back sl)
      in \<lparr>sl_len = max (sl_len sl) (Suc i), sl_back = back\<rparr>)"

fun set_elements :: "jval list \<Rightarrow> nat \<Rightarrow> slice \<Rightarrow> bool \<Rightarrow> slice \<times> bool" where
  "set_elements [] i sl ok = (if i = 0 then empty_slice else sl\<lparr>sl_len := i\<rparr>, ok)"
| "set_elements (v # vs) i sl ok =
     (let sl = grow i sl; (x, good) = set_string v (sl_back sl ! i) in
      set_elements vs (Suc i) (sl\<lparr>sl_back := (sl_back sl)[i := x]\<rparr>) (ok \<and> good))"

definition set_topic_field :: "string \<times> string \<times> jval \<Rightarrow> (string \<times> slice) \<times> bool \<Rightarrow> (string \<times> slice) \<times> bool" where
  "set_topic_field m st =
     (case (m, st) of ((k, t, v), ((ref, sl), ok)) \<Rightarrow>
        (if field_matches ''ref'' k
         then (let (x, good) = set_string v ref in ((x, sl), ok \<and> good))
         else if field_matches ''topics'' k
         then (case v of
                 JNull \<Rightarrow> ((ref, empty_slice), ok)
               | JArr vs \<Rightarrow> (let (sl', good) = set_elements vs 0 sl True in ((ref, sl'), ok \<and> good))
               | _ \<Rightarrow> ((ref, sl), False))
         else ((ref, sl), ok)))"

definition decode_topics :: "string \<Rightarrow> streamTopicDefinition option" where
  "decode_topics info =
     (case json_parse info of
        Some JNull \<Rightarrow> Some \<lparr>st_ref = [], st_topics = []\<rparr>
      | Some (JObj ms) \<Rightarrow>
          (case fold set_topic_field (object_members info) (([], empty_slice), True) of
             ((ref, sl), ok) \<Rightarrow> if ok then Some \<lparr>st_ref = ref, st_topics = slice_list sl\<rparr> else None)
      | _ \<Rightarrow> None)"

section \<open>Connections\<close>

record pubsubBinder =
  binder_id :: string
  binder_ch :: nat

record conn =
  cn_bound :: "pubsubBinder option"
  cn_sent :: "string list"
  cn_attempts :: nat
  cn_closed :: bool

definition new_conn :: conn where
  "new_conn = \<lparr>cn_bound = None, cn_sent = [], cn_attempts = 0, cn_closed = False\<rparr>"

definition RawSend :: "(nat \<Rightarrow> bool) \<Rightarrow> string \<Rightarrow> conn \<Rightarrow> conn \<times> bool" where
  "RawSend send_ok msg c =
     (let ok = send_ok (cn_attempts c) in
      (c\<lparr>cn_attempts := Suc (cn_attempts c), cn_sent := cn_sent c @ (if ok then [msg] else [])\<rparr>, ok))"

datatype stream_error =
    MessageInvalid
  | InfoInvalid
  | UnknownPubsubType
  | WithoutTopics
  | MarshalFailed
  | SendFailed

text \<open>A callback changes the plugin and the connection and ends with an error or without; the library
  closes the connection after an error.\<close>

type_synonym callback_result = "((pubs_state \<times> conn) \<times> stream_error option) outcome"

text \<open>\<open>onSubInit\<close>: a new channel, named by the number of the call, is subscribed to the broadcast topic
  and bound to the connection with a random id, which is told to the client.\<close>

definition hello_envelope :: "string \<Rightarrow> streamEnvelope" where
  "hello_envelope bid = \<lparr>se_type = streamEnvelopeTypeHello, se_data = [],
     se_info = PrettyJSON (topic_definition_json \<lparr>st_ref = bid, st_topics = []\<rparr>), se_state = []\<rparr>"

definition onSubInit :: "pubs_config \<Rightarrow> (nat \<Rightarrow> bool) \<Rightarrow> pubs_state \<times> conn \<Rightarrow> (pubs_state \<times> conn) \<times> stream_error option" where
  "onSubInit cfg send_ok sc =
     (let s = fst sc; ch = length (ps_calls s);
          s = broker (Sub ch (pc_broadcast cfg)) s;
          (bid, s) = draw cfg 32 s;
          c = (snd sc)\<lparr>cn_bound := Some \<lparr>binder_id = bid, binder_ch = ch\<rparr>\<rparr>
      in case envelope_json (hello_envelope bid) of
           None \<Rightarrow> ((s, c), None)
         | Some ev \<Rightarrow>
             (case RawSend send_ok (PrettyJSON ev) c of
                (c, ok) \<Rightarrow> ((s, c), if ok then None else Some SendFailed)))"

text \<open>The goroutine that forwards what the channel delivers, \<open>None\<close> standing for the nil of a closed
  channel; what it leaves in the channel is the second component. A failed send closes the
  connection.\<close>

fun forward :: "(nat \<Rightarrow> bool) \<Rightarrow> string option list \<Rightarrow> conn \<Rightarrow> conn \<times> string option list" where
  "forward send_ok [] c = (c, [])"
| "forward send_ok (None # ps) c = (c, ps)"
| "forward send_ok (Some msg # ps) c =
     (case RawSend send_ok msg c of
        (c, True) \<Rightarrow> forward send_ok ps c
      | (c, False) \<Rightarrow> (c\<lparr>cn_closed := True\<rparr>, ps))"

text \<open>The type assertion on what is bound to the connection panics when nothing is.\<close>

definition with_binder :: "conn \<Rightarrow> (pubsubBinder \<Rightarrow> callback_result) \<Rightarrow> callback_result" where
  "with_binder c f =
     (case cn_bound c of None \<Rightarrow> Panics ''interface conversion: interface is nil'' | Some b \<Rightarrow> f b)"

definition onSub :: "streamTopicDefinition \<Rightarrow> pubs_state \<times> conn \<Rightarrow> callback_result" where
  "onSub td sc =
     (if st_topics td = [] then Returns (sc, Some WithoutTopics)
      else with_binder (snd sc) (\<lambda>b.
        Returns ((broker (AddSub (binder_ch b) (st_topics td)) (fst sc), snd sc), None)))"

definition onUnsubAll :: "pubs_state \<times> conn \<Rightarrow> callback_result" where
  "onUnsubAll sc =
     with_binder (snd sc) (\<lambda>b. Returns ((broker (UnsubAll (binder_ch b)) (fst sc), snd sc), None))"

definition onUnsub :: "streamTopicDefinition \<Rightarrow> pubs_state \<times> conn \<Rightarrow> callback_result" where
  "onUnsub td sc =
     (if st_topics td = [] then Returns (sc, Some WithoutTopics)
      else with_binder (snd sc) (\<lambda>b.
        Returns ((broker (Unsub (binder_ch b) (st_topics td)) (fst sc), snd sc), None)))"

definition onPub :: "streamTopicDefinition \<Rightarrow> string \<Rightarrow> pubs_state \<times> conn \<Rightarrow> callback_result" where
  "onPub td msg sc =
     (if st_topics td = [] then Returns (sc, Some WithoutTopics)
      else with_binder (snd sc) (\<lambda>b.
        case envelope_json (event_envelope (binder_id b) (st_topics td) msg) of
          None \<Rightarrow> Returns (sc, Some MarshalFailed)
        | Some ev \<Rightarrow> Returns ((broker (Pub (PrettyJSON ev) (st_topics td)) (fst sc), snd sc), None)))"

definition onPubSub :: "streamEnvelope \<Rightarrow> pubs_state \<times> conn \<Rightarrow> callback_result" where
  "onPubSub e sc =
     (case (if se_info e \<noteq> [] then decode_topics (se_info e) else Some \<lparr>st_ref = [], st_topics = []\<rparr>) of
        None \<Rightarrow> Returns (sc, Some InfoInvalid)
      | Some td \<Rightarrow>
          if se_type e = streamEnvelopeTypeNameSub then onSub td sc
          else if se_type e = streamEnvelopeTypeNameUnsub then onUnsub td sc
          else if se_type e = streamEnvelopeTypeNamePub then onPub td (se_data e) sc
          else Returns (sc, Some UnknownPubsubType))"

section \<open>Events of a connection\<close>

definition OnConnect :: "pubs_config \<Rightarrow> (nat \<Rightarrow> bool) \<Rightarrow> pubs_state \<times> conn \<Rightarrow> callback_result" where
  "OnConnect cfg send_ok sc = Returns (onSubInit cfg send_ok sc)"

definition OnDisconnect :: "pubs_state \<times> conn \<Rightarrow> callback_result" where
  "OnDisconnect sc = onUnsubAll sc"

definition OnBeforeDisconnect :: "pubs_state \<times> conn \<Rightarrow> stream_error \<Rightarrow> callback_result" where
  "OnBeforeDisconnect sc err = Returns (sc, None)"

definition ack_envelope :: "string \<Rightarrow> streamEnvelope" where
  "ack_envelope st = \<lparr>se_type = streamEnvelopeTypeAck, se_data = [], se_info = [], se_state = st\<rparr>"

definition OnText :: "(nat \<Rightarrow> bool) \<Rightarrow> string \<Rightarrow> pubs_state \<times> conn \<Rightarrow> callback_result" where
  "OnText send_ok msg sc =
     (case decode_envelope msg of
        None \<Rightarrow> Returns (sc, Some MessageInvalid)
      | Some e \<Rightarrow>
          if se_type e \<in> {streamEnvelopeTypeNameSub, streamEnvelopeTypeNameUnsub, streamEnvelopeTypeNamePub}
          then obind (onPubSub e sc) (\<lambda>(sc, err).
            if err \<noteq> None \<or> se_state e = [] then Returns (sc, err)
            else (case envelope_json (ack_envelope (se_state e)) of
                    None \<Rightarrow> Returns (sc, Some MarshalFailed)
                  | Some ev \<Rightarrow>
                      (case RawSend send_ok (PrettyJSON ev) (snd sc) of
                         (c, ok) \<Rightarrow> Returns ((fst sc, c), if ok then None else Some SendFailed))))
          else Returns (sc, None))"

definition OnError :: "pubs_state \<times> conn \<Rightarrow> stream_error option \<Rightarrow> callback_result" where
  "OnError sc err = Returns (sc, err)"

section \<open>A running connection\<close>

text \<open>What happens at one connection while others work on the plugin: messages and the end of the
  connection, with the plugin changed in any way in between.\<close>

datatype stream_event = Message string | Gone

definition stream_event :: "(nat \<Rightarrow> bool) \<Rightarrow> stream_event \<Rightarrow> pubs_state \<times> conn \<Rightarrow> callback_result" where
  "stream_event send_ok e sc = (case e of Message m \<Rightarrow> OnText send_ok m sc | Gone \<Rightarrow> OnDisconnect sc)"

end
