(* ===== verification/Pubs_Facts.thy ===== *)
theory Pubs_Facts
  imports Pubs_Stream
begin

text \<open>
  Facts on the plugin \<open>pubs\<close>: the JSON of its messages and what a reader gets back from it, the runs of
  the table of one-time keys, and what the callbacks of a connection can ask of the broker.
\<close>

section \<open>Quoted text has nothing left to escape\<close>

lemma html_escape_raw_inerts:
  "\<forall>c \<in> set x. html_inert c \<Longrightarrow> html_escape_raw (x @ t) = x @ html_escape_raw t"
  by (induction x) (simp_all add: html_escape_raw_inert del: html_escape_raw.simps(2))

lemma html_escape_raw_other:
  assumes "c \<noteq> CHR 0xE2" and "128 \<le> byte_of c"
  shows "html_escape_raw (c # cs) = c # html_escape_raw cs"
proof -
  have "c \<noteq> CHR ''<''" "c \<noteq> CHR ''>''" "c \<noteq> CHR ''&''" using assms(2) by (auto simp: byte_of_def)
  then show ?thesis using assms(1) by (simp add: line_separators_def html_escape_def)
qed

lemma html_escape_raw_conts:
  "\<forall>c \<in> set x. is_cont c \<Longrightarrow> html_escape_raw (x @ t) = x @ html_escape_raw t"
proof (induction x)
  case (Cons c x)
  then have "128 \<le> byte_of c" "c \<noteq> CHR 0xE2" by (auto simp: is_cont_def byte_of_def)
  then show ?case using Cons by (simp add: html_escape_raw_other del: html_escape_raw.simps(2))
qed simp

lemma utf8_len_conts:
  "utf8_len (c # cs) = Suc k \<Longrightarrow> \<forall>x \<in> set (take k cs). is_cont x"
  by (auto simp: Let_def split: if_splits list.splits)

lemma utf8_len_E2: "utf8_len (CHR 0xE2 # cs) = Suc k \<Longrightarrow> k = 2"
  by (auto simp: Let_def byte_of_def split: if_splits list.splits)

lemma hex_digit_inert: "n < 16 \<Longrightarrow> html_inert (hex_digit n)"
  using inert_escapes(3) hex_digit_val by simp

lemma escape_byte_inert:
  assumes "byte_of c < 128"
  shows "\<forall>x \<in> set (escape_byte c). html_inert x"
proof -
  have b: "html_inert quot" "html_inert bslash" "html_inert (CHR ''n'')" "html_inert (CHR ''r'')"
    "html_inert (CHR ''t'')" "html_inert (CHR ''u'')" "html_inert (CHR ''0'')" by code_simp+
  have "byte_of c div 16 < 16" "byte_of c mod 16 < 16" using assms by simp_all
  then show ?thesis
    using assms b hex_digit_inert
    by (auto simp: escape_byte_def unicode_escape_def html_inert_def)
qed

lemma separators_inert: "map_of line_separators r = Some e \<Longrightarrow> \<forall>x \<in> set e. html_inert x"
proof -
  have "\<forall>x \<in> set (bslash # ''u2028'') \<union> set (bslash # ''u2029''). html_inert x" by code_simp
  then show "map_of line_separators r = Some e \<Longrightarrow> \<forall>x \<in> set e. html_inert x"
    by (auto simp: line_separators_def split: if_splits)
qed

lemma escape_rune_no_html:
  assumes k: "utf8_len (c # cs) = Suc k"
  shows "html_escape_raw (escape_rune (take (Suc k) (c # cs)) @ t)
    = escape_rune (take (Suc k) (c # cs)) @ html_escape_raw t"
proof (cases k)
  case 0
  then have "byte_of c < 128" using k utf8_len_ascii by simp
  then show ?thesis using 0 by (simp add: escape_rune_def html_escape_raw_inerts escape_byte_inert)
next
  case (Suc k')
  have l: "length (take k cs) = k" using utf8_len_le [of "c # cs"] k by simp
  let ?r = "take (Suc k) (c # cs)"
  have w: "escape_rune ?r = (case map_of line_separators ?r of Some e \<Rightarrow> e | None \<Rightarrow> ?r)"
    using Suc l by (intro escape_rune_wide) simp
  show ?thesis
  proof (cases "map_of line_separators ?r")
    case (Some e)
    then show ?thesis using w by (simp add: html_escape_raw_inerts separators_inert)
  next
    case None
    have conts: "html_escape_raw (take k cs @ t) = take k cs @ html_escape_raw t"
      using utf8_len_conts [OF k] by (rule html_escape_raw_conts)
    have "html_escape_raw (c # take k cs @ t) = c # html_escape_raw (take k cs @ t)"
    proof (cases "c = CHR 0xE2")
      case True
      then have "k = 2" using k utf8_len_E2 by blast
      then have "map_of line_separators (c # take 2 (take k cs @ t)) = None" using None l by simp
      moreover have "html_escape c = [c]" using True by (simp add: html_escape_def)
      ultimately show ?thesis by simp
    next
      case False
      have "128 \<le> byte_of c" using utf8_len_wide [of "c # cs" k' c] k Suc by simp
      with False show ?thesis by (rule html_escape_raw_other)
    qed
    then show ?thesis using None w conts by simp
  qed
qed

lemma quote_no_html: "html_escape_raw (quote_body s) = quote_body s"
proof (induction s rule: quote_body.induct)
  case (2 c cs)
  show ?case
  proof (cases "utf8_len (c # cs)")
    case 0
    have "\<forall>x \<in> set (bslash # ''ufffd''). html_inert x" by code_simp
    then have "html_escape_raw ((bslash # ''ufffd'') @ quote_body cs) = (bslash # ''ufffd'') @ html_escape_raw (quote_body cs)"
      by (rule html_escape_raw_inerts)
    then show ?thesis using 0 "2.IH"(1) [OF 0] by (simp del: utf8_len.simps html_escape_raw.simps)
  next
    case (Suc k)
    show ?thesis using Suc "2.IH"(2) [OF Suc] escape_rune_no_html [OF Suc]
      by (simp del: utf8_len.simps html_escape_raw.simps)
  qed
qed simp

lemma marshal_str_no_html: "html_escape_val (marshal_str s) = marshal_str s"
  by (simp add: marshal_str_def quote_no_html)

section \<open>The JSON of a message\<close>

lemma topic_names: "wf_str ''ref''" "wf_str ''topics''" "html_escape_raw ''ref'' = ''ref''"
  "html_escape_raw ''topics'' = ''topics''"
  by code_simp+

lemma topic_json_wf: "wf_val (topic_definition_json td)"
  by (auto simp: topic_definition_json_def json_members_or_empty_def topic_names marshal_str_wf list_all_iff)

lemma topic_json_no_html: "html_escape_val (topic_definition_json td) = topic_definition_json td"
proof -
  have "html_escape_val \<circ> marshal_str = marshal_str" by (auto simp: marshal_str_no_html)
  then show ?thesis
    by (simp add: topic_definition_json_def json_members_or_empty_def topic_names marshal_str_no_html
        del: html_escape_raw.simps)
qed

lemma PrettyJSON_nonempty: "wf_val v \<Longrightarrow> json_indent d v \<noteq> []"
  by (metis json_indent_head neq_Nil_conv)

lemma raw_PrettyJSON:
  assumes "wf_val v"
  shows "raw_or_empty (PrettyJSON v) = Some (html_escape_val v)"
  using PrettyJSON_nonempty [OF assms, of 0] json_parse_indent [OF assms, of 0]
  by (simp add: raw_or_empty_def PrettyJSON_def marshal_indent_def marshal_raw_def)

lemma raw_or_empty_wf: "raw_or_empty raw = Some v \<Longrightarrow> wf_val v"
  by (auto simp: raw_or_empty_def marshal_raw_wf split: if_splits)

text \<open>An event as a JSON value.\<close>

definition event_json :: "string \<Rightarrow> string list \<Rightarrow> jval option \<Rightarrow> jval" where
  "event_json ref topics d = JObj ([(''type'', JStr ''event'')] @ (case d of None \<Rightarrow> [] | Some v \<Rightarrow> [(''data'', v)])
     @ [(''info'', topic_definition_json \<lparr>st_ref = ref, st_topics = topics\<rparr>)])"

definition event_data :: "string \<Rightarrow> jval option option" where
  "event_data msg =
     (if msg = [] then Some None else map_option (\<lambda>v. Some (html_escape_val v)) (json_parse msg))"

lemma envelope_event:
  "envelope_json (event_envelope ref topics msg) = map_option (event_json ref topics) (event_data msg)"
proof -
  have info: "raw_or_empty (PrettyJSON (topic_definition_json td)) = Some (topic_definition_json td)" for td
    using raw_PrettyJSON [OF topic_json_wf] by (simp add: topic_json_no_html)
  have ne: "PrettyJSON (topic_definition_json td) \<noteq> []" for td
    using PrettyJSON_nonempty [OF topic_json_wf] by (simp add: PrettyJSON_def marshal_indent_def)
  have ev: "marshal_str ''event'' = JStr ''event''" by code_simp
  have d: "raw_or_empty msg = (if msg = [] then Some JNull else map_option html_escape_val (json_parse msg))"
    "raw_or_empty [] = Some JNull"
    by (simp_all add: raw_or_empty_def marshal_raw_def)
  show ?thesis
    by (cases "msg = []"; cases "json_parse msg")
      (simp_all add: envelope_json_def event_envelope_def event_json_def event_data_def info ne d
        json_members_or_empty_def streamEnvelopeTypeEvent_def ev)
qed

lemma event_names:
  "wf_str ''type''" "wf_str ''event''" "wf_str ''data''" "wf_str ''info''" "unquoted ''event'' = ''event''"
  "field_matches ''type'' ''type''" "\<not> field_matches ''type'' ''data''" "\<not> field_matches ''type'' ''info''"
  "field_matches ''data'' ''data''" "\<not> field_matches ''data'' ''info''" "field_matches ''info'' ''info''"
  "field_matches ''ref'' ''ref''" "\<not> field_matches ''ref'' ''topics''" "field_matches ''topics'' ''topics''"
  by code_simp+

lemma event_json_wf: "event_data msg = Some d \<Longrightarrow> wf_val (event_json ref topics d)"
  by (auto simp: event_json_def event_data_def event_names topic_json_wf wf_html_escape_val
      dest: json_parse_wf split: if_splits)

section \<open>What a reader of the message gets\<close>

lemma grow_at_end:
  assumes "sl_len sl = i" and "i \<le> length (sl_back sl)"
  shows "sl_len (grow i sl) = Suc i" "i < length (sl_back (grow i sl))"
    "take i (sl_back (grow i sl)) = take i (sl_back sl)"
  using assms by (auto simp: grow_def Let_def)

lemma set_elements_strings:
  assumes "sl_len sl = i" and "i \<le> length (sl_back sl)"
  shows "snd (set_elements (map JStr rs) i sl ok) = ok \<and>
    slice_list (fst (set_elements (map JStr rs) i sl ok)) = take i (sl_back sl) @ map unquoted rs"
  using assms
proof (induction rs arbitrary: i sl ok)
  case Nil
  then show ?case by (auto simp: slice_list_def empty_slice_def)
next
  case (Cons r rs)
  note g = grow_at_end [OF Cons.prems]
  let ?sl = "(grow i sl)\<lparr>sl_back := (sl_back (grow i sl))[i := unquoted r]\<rparr>"
  have "take (Suc i) (sl_back ?sl) = take i (sl_back sl) @ [unquoted r]"
    using g by (simp add: take_Suc_conv_app_nth)
  then show ?case
    using Cons.IH [of ?sl "Suc i" ok] g by (simp add: set_string_def Let_def)
qed

lemma decode_topics_print:
  assumes "utf8_valid ref" and "list_all utf8_valid topics"
  shows "decode_topics (json_indent d (topic_definition_json \<lparr>st_ref = ref, st_topics = topics\<rparr>))
    = Some \<lparr>st_ref = ref, st_topics = topics\<rparr>"
proof -
  let ?v = "topic_definition_json \<lparr>st_ref = ref, st_topics = topics\<rparr>"
  let ?ms = "json_members_or_empty [(ref \<noteq> [], ''ref'', marshal_str ref),
    (topics \<noteq> [], ''topics'', JArr (map marshal_str topics))]"
  have v: "?v = JObj ?ms" by (simp add: topic_definition_json_def)
  have p: "json_parse (json_indent d ?v) = Some (JObj ?ms)"
    using json_parse_indent [OF topic_json_wf] v by metis
  have mem: "object_members (json_indent d ?v) = map (\<lambda>(k, v). (k, json_indent (Suc d) v, v)) ?ms"
  proof (cases "?ms = []")
    case True
    show ?thesis unfolding v True by (simp add: object_members_def is_ws_def)
  next
    case False
    have "wf_val (JObj ?ms)" using topic_json_wf v by metis
    from object_members_print [OF this False, of d "[]"] show ?thesis using v by simp
  qed
  have m: "map marshal_str topics = map JStr (map quote_body topics)" by (simp add: marshal_str_def)
  have u: "map unquoted (map quote_body topics) = topics"
    using assms(2) by (induction topics) (simp_all add: unquoted_quote)
  obtain sl good where sl: "set_elements (map marshal_str topics) 0 empty_slice True = (sl, good)" by fastforce
  then have "slice_list sl = topics" "good"
    using set_elements_strings [of empty_slice 0 "map quote_body topics" True] u
    by (simp_all add: m empty_slice_def)
  then show ?thesis
    using p mem sl unquoted_quote [OF assms(1)]
    by (auto simp: decode_topics_def json_members_or_empty_def set_topic_field_def event_names
        set_string_def marshal_str_def slice_list_def empty_slice_def)
qed

lemma decode_event_print:
  assumes "event_data msg = Some d"
  shows "decode_envelope (PrettyJSON (event_json ref topics d)) =
    Some \<lparr>se_type = streamEnvelopeTypeEvent, se_data = (case d of None \<Rightarrow> [] | Some v \<Rightarrow> json_indent 1 v),
      se_info = json_indent 1 (topic_definition_json \<lparr>st_ref = ref, st_topics = topics\<rparr>), se_state = []\<rparr>"
proof -
  let ?td = "topic_definition_json \<lparr>st_ref = ref, st_topics = topics\<rparr>"
  obtain ms where ms: "event_json ref topics d = JObj ms" "ms \<noteq> []"
    "ms = [(''type'', JStr ''event'')] @ (case d of None \<Rightarrow> [] | Some v \<Rightarrow> [(''data'', v)]) @ [(''info'', ?td)]"
    by (simp add: event_json_def)
  have wf: "wf_val (JObj ms)" using event_json_wf [OF assms, of ref topics] ms(1) by simp
  have p: "json_parse (PrettyJSON (JObj ms)) = Some (JObj ms)"
    using json_parse_indent [OF wf] by (simp only: PrettyJSON_def marshal_indent_def)
  have mem: "object_members (PrettyJSON (JObj ms)) = map (\<lambda>(k, v). (k, json_indent (Suc 0) v, v)) ms"
    using object_members_print [OF wf ms(2), of 0 "[]"] by (simp only: PrettyJSON_def marshal_indent_def append_Nil2)
  show ?thesis
    unfolding ms(1) decode_envelope_def p mem option.case jval.case
    by (cases d)
      (simp_all add: ms(3) set_envelope_field_def event_names set_string_def empty_envelope_def
        streamEnvelopeTypeEvent_def del: json_indent.simps)
qed

end
