(* ===== verification/Pubs_Keys.thy ===== *)
theory Pubs_Keys
  imports Pubs
begin

text \<open>
  The one-time keys of the plugin \<open>pubs\<close>: every operation that the plugin runs on its state, any run of
  them in any order (each of them is atomic, as its access to the concurrent maps is), and what holds
  of the keys after it.
\<close>

section \<open>Runs\<close>

datatype pubs_op =
    Connect ctx
  | Connection string request rwriter
  | Register request rwriter
  | Publish "(string \<times> string) list" request rwriter
  | Purge
  | Tick nat
  | Begin string
  | Finish string

text \<open>What a client sees: the key it was given and for which user, or that its key was good for a
  connection of that number.\<close>

datatype key_log = Issued string string | Connected string string

definition pubs_op :: "pubs_config \<Rightarrow> pubs_op \<Rightarrow> pubs_state \<Rightarrow> pubs_state \<times> key_log list" where
  "pubs_op cfg op s =
     (case op of
        Connect c \<Rightarrow>
          (case handleWebsocketConnect cfg c s of
             (Some key, s') \<Rightarrow> (s', [Issued key (fst (AuthenticatedUserIDFromContext c))])
           | (None, s') \<Rightarrow> (s', []))
      | Connection key req rw \<Rightarrow>
          (case handleWebsocketConnection cfg key req (s, rw) of
             ((s', _), _, Some cid) \<Rightarrow> (s', [Connected key cid])
           | ((s', _), _, None) \<Rightarrow> (s', []))
      | Register req rw \<Rightarrow> (fst (fst (handleWebhookRegister cfg req (s, rw))), [])
      | Publish vars req rw \<Rightarrow> (fst (handleWebhookPublish cfg vars req (s, rw)), [])
      | Purge \<Rightarrow> (purgeExpiredKeys s, [])
      | Tick n \<Rightarrow> (s\<lparr>ps_now := ps_now s + int n\<rparr>, [])
      | Begin cid \<Rightarrow> (serve_begin cid s, [])
      | Finish cid \<Rightarrow> (serve_end cid s, []))"

fun pubs_run :: "pubs_config \<Rightarrow> pubs_op list \<Rightarrow> pubs_state \<Rightarrow> pubs_state \<times> key_log list" where
  "pubs_run cfg [] s = (s, [])"
| "pubs_run cfg (op # ops) s =
     (let (s', l) = pubs_op cfg op s; (s'', l') = pubs_run cfg ops s' in (s'', l @ l'))"

section \<open>The clean-up\<close>

definition connectCleanupInterval :: nat where
  "connectCleanupInterval = 60"

text \<open>The goroutine that \<open>Initialize\<close> starts, as what it is told by its ticker and the context of the
  server; after the end of the context it has returned.\<close>

datatype cleanup_event = TickerFires | ContextDone

fun cleanup :: "cleanup_event list \<Rightarrow> pubs_state \<Rightarrow> pubs_state" where
  "cleanup [] s = s"
| "cleanup (TickerFires # es) s = cleanup es (purgeExpiredKeys s)"
| "cleanup (ContextDone # es) s = s"

lemma cleanup_run:
  "cleanup es s = fst (pubs_run cfg (map (\<lambda>e. Purge) (takeWhile (\<lambda>e. e = TickerFires) es)) s)"
  by (induction es s rule: cleanup.induct) (simp_all add: pubs_op_def case_prod_beta Let_def)

section \<open>What an operation does to the keys\<close>

lemmas pubs_op_defs = pubs_op_def purgeExpiredKeys_def serve_begin_def serve_end_def

lemma draw_simps [simp]:
  "ps_keys (snd (draw cfg n s)) = ps_keys s" "ps_now (snd (draw cfg n s)) = ps_now s"
  "ps_calls (snd (draw cfg n s)) = ps_calls s"
  by (simp_all add: draw_def)

lemma broker_simps [simp]:
  "ps_keys (broker c s) = ps_keys s" "ps_now (broker c s) = ps_now s"
  "ps_calls (broker c s) = ps_calls s @ [c]"
  by (simp_all add: broker_def)

lemma register_frame [frame]:
  "ps_keys (fst (fst (handleWebhookRegister cfg req srw))) = ps_keys (fst srw) \<and>
   ps_now (fst (fst (handleWebhookRegister cfg req srw))) = ps_now (fst srw) \<and>
   ps_calls (fst (fst (handleWebhookRegister cfg req srw))) = ps_calls (fst srw)"
  by (simp add: handleWebhookRegister_def Let_def draw_def split: option.split)

lemma publish_frame [frame]:
  "ps_keys (fst (handleWebhookPublish cfg vars req srw)) = ps_keys (fst srw) \<and>
   ps_now (fst (handleWebhookPublish cfg vars req srw)) = ps_now (fst srw)"
  by (simp add: handleWebhookPublish_def Let_def split: option.split)

lemma connect_cases:
  obtains (refused) "fst (AuthenticatedUserIDFromContext c) = []"
    "handleWebsocketConnect cfg c s = (None, snd (draw cfg connectKeySize s))"
  | (issued) key uid where "uid = fst (AuthenticatedUserIDFromContext c)" "uid \<noteq> []"
    "key = fst (draw cfg connectKeySize s)"
    "handleWebsocketConnect cfg c s =
       (Some key, (snd (draw cfg connectKeySize s))\<lparr>ps_keys := (ps_keys s)(key \<mapsto> \<lparr>kr_when = ps_now s, kr_user = Some uid\<rparr>)\<rparr>)"
  by (auto simp: handleWebsocketConnect_def draw_def Let_def)

lemma connection_frame:
  "ps_keys (fst (fst (handleWebsocketConnection cfg key req (s, rw)))) = (ps_keys s)(key := None) \<and>
   ps_now (fst (fst (handleWebsocketConnection cfg key req (s, rw)))) = ps_now s \<and>
   ps_calls (fst (fst (handleWebsocketConnection cfg key req (s, rw)))) = ps_calls s \<and>
   (snd (snd (handleWebsocketConnection cfg key req (s, rw))) \<noteq> None \<longrightarrow> ps_keys s key \<noteq> None)"
  by (auto simp: handleWebsocketConnection_def Let_def split: option.split prod.split upgrade.split)

section \<open>Each key once\<close>

definition issues :: "string \<Rightarrow> key_log list \<Rightarrow> nat" where
  "issues key l = length (filter (\<lambda>e. \<exists>uid. e = Issued key uid) l)"

definition uses :: "string \<Rightarrow> key_log list \<Rightarrow> nat" where
  "uses key l = length (filter (\<lambda>e. \<exists>cid. e = Connected key cid) l)"

lemma log_counts [simp]:
  "issues key [] = 0" "issues key (l @ l') = issues key l + issues key l'"
  "issues key [Issued k u] = (if k = key then 1 else 0)" "issues key [Connected k c] = 0"
  "uses key [] = 0" "uses key (l @ l') = uses key l + uses key l'"
  "uses key [Connected k c] = (if k = key then 1 else 0)" "uses key [Issued k u] = 0"
  by (simp_all add: issues_def uses_def)

definition held :: "string \<Rightarrow> pubs_state \<Rightarrow> nat" where
  "held key s = (if ps_keys s key = None then 0 else 1)"

text \<open>An operation gives a key away at most as often as it puts it into the table.\<close>

lemma pubs_op_balance:
  "uses key (snd (pubs_op cfg op s)) + held key (fst (pubs_op cfg op s)) \<le> issues key (snd (pubs_op cfg op s)) + held key s"
proof (cases op)
  case (Connect c)
  then show ?thesis by (cases rule: connect_cases [of c cfg s]) (auto simp: pubs_op_def held_def draw_def)
next
  case (Connection k req rw)
  then show ?thesis using connection_frame [of cfg k req s rw]
    by (auto simp: pubs_op_def held_def split: prod.splits option.splits)
qed (auto simp: pubs_op_defs held_def frame split: option.splits)

lemma pubs_run_balance:
  "uses key (snd (pubs_run cfg ops s)) + held key (fst (pubs_run cfg ops s)) \<le>
     issues key (snd (pubs_run cfg ops s)) + held key s"
proof (induction ops arbitrary: s)
  case (Cons op ops)
  let ?s = "fst (pubs_op cfg op s)"
  have "uses key (snd (pubs_run cfg ops ?s)) + held key (fst (pubs_run cfg ops ?s)) \<le>
      issues key (snd (pubs_run cfg ops ?s)) + held key ?s"
    by (rule Cons.IH)
  then show ?case using pubs_op_balance [of key cfg op s] by (simp add: case_prod_beta Let_def)
qed simp

section \<open>Who a key belongs to\<close>

definition keys_logged :: "key_log list \<Rightarrow> pubs_state \<Rightarrow> bool" where
  "keys_logged l s \<longleftrightarrow>
     (\<forall>k kr. ps_keys s k = Some kr \<longrightarrow> (\<exists>uid. uid \<noteq> [] \<and> kr_user kr = Some uid \<and> Issued k uid \<in> set l))"

lemma pubs_op_logged:
  assumes "keys_logged l s"
  shows "keys_logged (l @ snd (pubs_op cfg op s)) (fst (pubs_op cfg op s))"
proof (cases op)
  case (Connect c)
  then show ?thesis using assms
    by (cases rule: connect_cases [of c cfg s]) (force simp: pubs_op_def keys_logged_def)+
next
  case (Connection k req rw)
  then show ?thesis using assms connection_frame [of cfg k req s rw]
    by (auto simp: pubs_op_def keys_logged_def split: prod.splits option.splits if_splits)
qed (use assms in \<open>auto simp: pubs_op_defs keys_logged_def frame split: option.splits if_splits\<close>)

lemma pubs_run_logged:
  "keys_logged l s \<Longrightarrow> keys_logged (l @ snd (pubs_run cfg ops s)) (fst (pubs_run cfg ops s))"
proof (induction ops arbitrary: s l)
  case (Cons op ops)
  from Cons.IH [OF pubs_op_logged [OF Cons.prems, of cfg op]]
  show ?case by (simp add: case_prod_beta Let_def)
qed simp

section \<open>How old a key gets\<close>

text \<open>The seconds since the last purge, or since the start.\<close>

definition idle :: "nat \<Rightarrow> pubs_op list \<Rightarrow> nat" where
  "idle = foldl (\<lambda>d op. case op of Purge \<Rightarrow> 0 | Tick n \<Rightarrow> d + n | _ \<Rightarrow> d)"

definition keys_young :: "nat \<Rightarrow> pubs_state \<Rightarrow> bool" where
  "keys_young d s \<longleftrightarrow>
     (\<forall>k kr. ps_keys s k = Some kr \<longrightarrow> kr_when kr \<le> ps_now s \<and> ps_now s - kr_when kr \<le> connectExpiration + int d)"

lemma pubs_op_young:
  assumes "keys_young d s"
  shows "keys_young (idle d [op]) (fst (pubs_op cfg op s))"
proof (cases op)
  case (Connect c)
  then show ?thesis using assms
    by (cases rule: connect_cases [of c cfg s]) (auto simp: pubs_op_def keys_young_def idle_def connectExpiration_def)
next
  case (Connection k req rw)
  then show ?thesis using assms connection_frame [of cfg k req s rw]
    by (auto simp: pubs_op_def keys_young_def idle_def split: prod.splits option.splits if_splits)
next
  case (Tick n)
  then show ?thesis using assms by (fastforce simp: pubs_op_def keys_young_def idle_def)
next
  case Purge
  then show ?thesis using assms
    by (auto simp: pubs_op_def keys_young_def idle_def purgeExpiredKeys_def split: option.splits if_splits)
qed (use assms in \<open>auto simp: pubs_op_defs keys_young_def idle_def frame\<close>)

lemma pubs_run_young: "keys_young d s \<Longrightarrow> keys_young (idle d ops) (fst (pubs_run cfg ops s))"
proof (induction ops arbitrary: s d)
  case (Cons op ops)
  have "idle d (op # ops) = idle (idle d [op]) ops" by (simp add: idle_def)
  then show ?case using Cons.IH [OF pubs_op_young [OF Cons.prems, of op cfg]]
    by (simp add: case_prod_beta Let_def)
qed (simp add: idle_def)

end
