(* ===== verification/Pubs_Props.thy ===== *)
theory Pubs_Props
  imports Pubs_Facts Pubs_Keys
begin

text \<open>
  The properties of the plugin \<open>pubs\<close> that concern its HTTP handlers: webhooks and one-time keys, each
  with a witness on a small plugin.
\<close>

section \<open>Publishing\<close>

lemma publish_eq:
  assumes "map_of vars ''token'' = Some token" and "pc_decode cfg token = Some td"
    and "form_get (ParseForm req) ''validationToken'' = []"
  shows "handleWebhookPublish cfg vars req (s, rw) =
    (case read_limited maxRequestSize (ParseForm req) of
       None \<Rightarrow> (s, http_error [] 400 rw)
     | Some msg \<Rightarrow>
         (case event_data (with_envelope (case map_of vars ''envelope'' of None \<Rightarrow> [] | Some e \<Rightarrow> e) msg) of
            None \<Rightarrow> (s, http_error [] 400 rw)
          | Some d \<Rightarrow> (broker (Pub (PrettyJSON (event_json (td_id td) [td_topic td] d)) [td_topic td]) s,
              write_header 204 rw)))"
  using assms by (auto simp: handleWebhookPublish_def envelope_event Let_def split: option.splits)

lemma publish_changes:
  assumes "handleWebhookPublish cfg vars req (s, rw) = (s', rw')" and "s' \<noteq> s"
  shows "\<exists>token td msg. map_of vars ''token'' = Some token \<and> pc_decode cfg token = Some td \<and>
    s' = broker (Pub msg [td_topic td]) s"
  using assms by (auto simp: handleWebhookPublish_def Let_def split: option.splits if_splits)

section \<open>What a request can change\<close>

lemma pubs_http_cases:
  assumes "mux_ok (pc_mux cfg)" and "pubs_http cfg req (s, rw) = Returns (s', rw')" and "s' \<noteq> s"
  obtains (publish) ss vars where "match_path (pubs_template ss) (req_path req) = Some vars"
      "req_method req = ''POST''" "handleWebhookPublish cfg vars req (s, rw) = (s', rw')"
  | (register) "AccessTokenRequired (pc_oidc cfg) (MakeHTTPWebhookRegisterHandler cfg) (pc_scopes cfg) req (s, rw) = Returns (s', rw')"
  | (connect) "match_path (pubs_template [Lit ''stream'', Lit ''connect'']) (req_path req) \<noteq> None"
      "AccessTokenRequired (pc_oidc cfg) (MakeHTTPWebsocketConnectHandler cfg) (pc_scopes cfg) req (s, rw) = Returns (s', rw')"
  | (websocket) key ok conn rw'' where "handleWebsocketConnection cfg key req (s, rw) = ((s', rw''), ok, conn)"
proof -
  let ?rs = "map fst (pubs_routes cfg)"
  have five: "length (pubs_routes cfg) = 5" by (simp add: pubs_routes_def)
  obtain i vars where m: "pc_mux cfg ?rs req = Matched i vars"
    and h: "snd (pubs_routes cfg ! i) vars req (s, rw) = Returns (s', rw')"
    using assms(2,3) by (auto simp: pubs_http_def serve_mux_def split: mux_match.splits)
  have i: "i < 5" and r: "match_route (fst (pubs_routes cfg ! i)) req = Some vars"
    using mux_okD(1,2) [OF assms(1) m] five by simp_all
  from i consider "i = 0" | "i = 1" | "i = 2" | "i = 3" | "i = 4" by linarith
  then show ?thesis
  proof cases
    case 1
    then show ?thesis using h r publish [of _ vars]
      by (auto simp: pubs_routes_def match_route_def MakeHTTPWebhookPublishHandler_def split: if_splits)
  next
    case 2
    then show ?thesis using h r publish [of _ vars]
      by (auto simp: pubs_routes_def match_route_def MakeHTTPWebhookPublishHandler_def split: if_splits)
  next
    case 3
    then show ?thesis using h register by (simp add: pubs_routes_def)
  next
    case 4
    then show ?thesis using h r connect by (simp add: pubs_routes_def match_route_def)
  next
    case 5
    then show ?thesis using h assms(3) websocket
      by (auto simp: pubs_routes_def HTTPWebsocketHandler_def split: if_splits option.splits prod.splits)
  qed
qed

lemma pubs_served:
  assumes "AddContext None (ServeHTTP [pubs_ServeHTTP cfg]) req (s, rw) = Returns (s', rw')" and "s' \<noteq> s"
    and "pc_cors cfg = None"
  shows "has_prefix (req_path req) pubs_base \<and> pubs_http cfg (req\<lparr>req_ctx := None\<rparr>) (s, rw) = Returns (s', rw')"
  using assms
  by (auto simp: AddContext_def ServeHTTP_def HealthCheckHandler_def pubs_ServeHTTP_def obind_eq_Returns split: if_splits)

lemma register_handler_frame:
  "MakeHTTPWebhookRegisterHandler cfg req (s, rw) = Returns (s', rw') \<Longrightarrow>
     ps_keys s' = ps_keys s \<and> ps_calls s' = ps_calls s"
  using register_frame [of cfg req "(s, rw)"]
  by (auto simp: MakeHTTPWebhookRegisterHandler_def split: prod.splits)

lemma connect_handler_keys:
  assumes "MakeHTTPWebsocketConnectHandler cfg req (s, rw) = Returns (s', rw')"
  shows "ps_calls s' = ps_calls s \<and>
    (ps_keys s' = ps_keys s \<or> (\<exists>key. ps_keys s' = (ps_keys s)(key \<mapsto>
       \<lparr>kr_when = ps_now s, kr_user = Some (fst (AuthenticatedUserIDFromContext (req_ctx req)))\<rparr>) \<and>
       fst (AuthenticatedUserIDFromContext (req_ctx req)) \<noteq> []))"
proof (cases rule: connect_cases [of "req_ctx req" cfg s])
  case refused
  then show ?thesis using assms by (auto simp: MakeHTTPWebsocketConnectHandler_def)
next
  case (issued key uid)
  then show ?thesis using assms by (auto simp: MakeHTTPWebsocketConnectHandler_def split: option.splits)
qed

section \<open>A small plugin\<close>

text \<open>Tokens that hold the length of the id in unary, the id and the topic; random strings that grow.\<close>

definition sample_encode :: "nat \<Rightarrow> webhookPubTokenData \<Rightarrow> string option" where
  "sample_encode n td = Some (replicate (length (td_id td)) (CHR ''1'') @ CHR ''0'' # td_id td @ td_topic td)"

definition sample_decode :: "string \<Rightarrow> webhookPubTokenData option" where
  "sample_decode t =
     (let n = length (takeWhile (\<lambda>c. c = CHR ''1'') t); r = drop (Suc n) t
      in Some \<lparr>td_id = take n r, td_topic = drop n r\<rparr>)"

lemma sample_codec: "sample_encode n td = Some t \<Longrightarrow> sample_decode t = Some td"
  by (auto simp: sample_encode_def sample_decode_def Let_def takeWhile_append)

definition pubs_sample_cfg :: pubs_config where
  "pubs_sample_cfg = \<lparr>pc_oidc = sample_oidc, pc_mux = plain_mux, pc_cors = None, pc_scopes = pubs_scopesRequired,
     pc_rnd = (\<lambda>i n. replicate (Suc i) (CHR ''r'')), pc_encode = sample_encode, pc_decode = sample_decode,
     pc_url = (\<lambda>name vars. Some (concat (map snd vars))), pc_upgrade = (\<lambda>req rw. (Upgraded, rw)),
     pc_connection = True, pc_broadcast = ''all''\<rparr>"

lemma pubs_sample_simps: "pc_mux pubs_sample_cfg = plain_mux" "pc_cors pubs_sample_cfg = None"
  "pc_oidc pubs_sample_cfg = sample_oidc"
  by (simp_all add: pubs_sample_cfg_def)

definition pubs_sample_state :: pubs_state where
  "pubs_sample_state = \<lparr>ps_keys = Map.empty, ps_count = 0, ps_connections = {}, ps_calls = [],
     ps_random = 0, ps_now = 0\<rparr>"

definition pubs_request :: "string \<Rightarrow> string \<Rightarrow> string \<Rightarrow> request" where
  "pubs_request method path body = \<lparr>req_method = method, req_path = path, req_rawquery = [],
     req_header = [''Authorization'' \<mapsto> [''Bearer good'']], req_cookies = [], req_body = body,
     req_body_fail = False, req_form = [], req_ctx = None\<rparr>"

lemma pubs_request_form:
  "\<not> has_form_body (pubs_request m p b)" "req_form (ParseForm (pubs_request m p b)) = []"
  "req_body (ParseForm (pubs_request m p b)) = b" "\<not> req_body_fail (pubs_request m p b)"
proof -
  have "canonical_key ''Content-Type'' \<noteq> ''Authorization''" "media_type [] \<noteq> form_media_type" by code_simp+
  then have no: "\<not> has_form_body (pubs_request m p b)" for m p b
    by (simp add: has_form_body_def pubs_request_def header_get_def)
  then show "\<not> has_form_body (pubs_request m p b)" .
  have "parse_query [] = []" by code_simp
  then show "req_form (ParseForm (pubs_request m p b)) = []"
    using no [of m p b] by (simp add: ParseForm_def Let_def) (simp add: pubs_request_def)
  show "req_body (ParseForm (pubs_request m p b)) = b"
    using no [of m p b] by (simp add: ParseForm_body) (simp add: pubs_request_def)
  show "\<not> req_body_fail (pubs_request m p b)" by (simp add: pubs_request_def)
qed

section \<open>Properties\<close>

text \<open>C24: a webhook works from its registration to its publications. The reply to a registration names the
  id, the topic (the one asked for, or a random one) and a URL made of the id and the token; a POST
  with that token, at any later time, of a body of at most 5 KiB that is JSON publishes once, to that
  topic alone, an event with the body as its data and the webhook's id as its source, and answers 204.\<close>

theorem webhook_round_trip:
  assumes codec: "\<forall>n d t. pc_encode cfg n d = Some t \<longrightarrow> pc_decode cfg t = Some d"
    and reg: "handleWebhookRegister cfg req (s, rw) = ((s1, rw1), True)"
    and post: "\<not> has_form_body req2" "\<not> req_body_fail req2" "form_get (ParseForm req2) ''validationToken'' = []"
      "length (req_body req2) \<le> maxRequestSize" "json_parse (req_body req2) = Some v"
  shows "\<exists>rid topic token url.
    pc_url cfg webhookRouterIdentifier [(''id'', rid), (''token'', token)] = Some url \<and>
    rw1 = WriteJSON 200 (webhook_response rid topic url) [] rw \<and>
    form_get (ParseForm req) ''topic'' \<in> {[], topic} \<and>
    handleWebhookPublish cfg [(''id'', rid), (''token'', token)] req2 (s2, rw2) =
      (broker (Pub (PrettyJSON (event_json rid [topic] (Some (html_escape_val v)))) [topic]) s2, write_header 204 rw2)"
proof -
  obtain rid topic token url n where r: "pc_encode cfg n \<lparr>td_id = rid, td_topic = topic\<rparr> = Some token"
    "pc_url cfg webhookRouterIdentifier [(''id'', rid), (''token'', token)] = Some url"
    "rw1 = WriteJSON 200 (webhook_response rid topic url) [] rw"
    "form_get (ParseForm req) ''topic'' \<in> {[], topic}"
    using reg by (auto simp: handleWebhookRegister_def Let_def split: option.splits if_splits prod.splits)
  have ne: "req_body req2 \<noteq> []" using post(5) by (auto simp: json_parse_def json_first_def parse_fuel_def eval_nat_numeral)
  have d: "event_data (req_body req2) = Some (Some (html_escape_val v))" using ne post(5) by (simp add: event_data_def)
  have "handleWebhookPublish cfg [(''id'', rid), (''token'', token)] req2 (s2, rw2) =
      (broker (Pub (PrettyJSON (event_json rid [topic] (Some (html_escape_val v)))) [topic]) s2, write_header 204 rw2)"
    using publish_eq [of "[(''id'', rid), (''token'', token)]" token cfg "\<lparr>td_id = rid, td_topic = topic\<rparr>" req2]
      codec [rule_format, OF r(1)] post d
    by (simp add: read_limited_def ParseForm_body with_envelope_def)
  then show ?thesis using r by blast
qed

theorem webhook_round_trip_witness:
  "\<exists>rid topic token rw1. rw1 = fst (handleWebhookRegister pubs_sample_cfg (pubs_request ''POST'' ''/api/pubs/v1/webhook'' []) (pubs_sample_state, fresh_rw)) \<and>
     handleWebhookPublish pubs_sample_cfg [(''id'', rid), (''token'', token)] (pubs_request ''POST'' ''/'' ''{\"a\":1}'') (pubs_sample_state, fresh_rw) =
      (broker (Pub (PrettyJSON (event_json rid [topic] (Some (JObj [(''a'', JNum ''1'')])))) [topic]) pubs_sample_state, write_header 204 fresh_rw)"
proof -
  let ?reg = "pubs_request ''POST'' ''/api/pubs/v1/webhook'' []" and ?req2 = "pubs_request ''POST'' ''/'' ''{\"a\":1}''"
  have reg: "snd (handleWebhookRegister pubs_sample_cfg ?reg (pubs_sample_state, fresh_rw))"
    by (simp add: handleWebhookRegister_def form_get_def pubs_request_form draw_def pubs_sample_cfg_def sample_encode_def Let_def)
  obtain s1 rw1 where r: "handleWebhookRegister pubs_sample_cfg ?reg (pubs_sample_state, fresh_rw) = ((s1, rw1), True)"
    using reg by (cases "handleWebhookRegister pubs_sample_cfg ?reg (pubs_sample_state, fresh_rw)") auto
  have codec: "\<forall>n d t. pc_encode pubs_sample_cfg n d = Some t \<longrightarrow> pc_decode pubs_sample_cfg t = Some d"
    unfolding pubs_sample_cfg_def pubs_config.select_convs by (intro allI impI) (rule sample_codec)
  have b: "req_body ?req2 = ''{\"a\":1}''" "\<not> req_body_fail ?req2" by (simp_all add: pubs_request_def)
  have v: "json_parse ''{\"a\":1}'' = Some (JObj [(''a'', JNum ''1'')])"
    "html_escape_val (JObj [(''a'', JNum ''1'')]) = JObj [(''a'', JNum ''1'')]" by code_simp+
  have vt: "form_get (ParseForm ?req2) ''validationToken'' = []" by (simp add: form_get_def pubs_request_form)
  have len: "length (req_body ?req2) \<le> maxRequestSize" by (simp add: b maxRequestSize_def)
  have p: "json_parse (req_body ?req2) = Some (JObj [(''a'', JNum ''1'')])" unfolding b(1) by (rule v(1))
  from webhook_round_trip [where rw = fresh_rw and ?s2.0 = pubs_sample_state and ?rw2.0 = fresh_rw,
      OF codec r pubs_request_form(1) b(2) vt len p]
  show ?thesis
    unfolding v(2) by (elim exE conjE) (intro exI conjI, rule refl, assumption)
qed

text \<open>A body of more than 5 KiB is not refused for its size; what comes after the limit is ignored, a
  broken connection there included, and the rest published if it happens to be JSON.\<close>

theorem publish_ignores_excess:
  assumes "\<not> has_form_body req" and "maxRequestSize \<le> length (req_body req)"
  shows "handleWebhookPublish cfg vars req srw =
    handleWebhookPublish cfg vars (req\<lparr>req_body := take maxRequestSize (req_body req), req_body_fail := False\<rparr>) srw"
proof -
  let ?req = "req\<lparr>req_body := take maxRequestSize (req_body req), req_body_fail := False\<rparr>"
  have f: "\<not> has_form_body ?req" using assms(1) by (simp add: has_form_body_def)
  have "form_get (ParseForm ?req) k = form_get (ParseForm req) k" for k
    using assms(1) f by (simp add: form_get_def ParseForm_def Let_def)
  moreover have "read_limited maxRequestSize (ParseForm ?req) = read_limited maxRequestSize (ParseForm req)"
    using assms f by (simp add: read_limited_def ParseForm_body)
  ultimately show ?thesis by (simp add: handleWebhookPublish_def Let_def split: option.split)
qed

theorem publish_ignores_excess_witness:
  "handleWebhookPublish pubs_sample_cfg [(''token'', ''0t'')] (pubs_request ''POST'' ''/'' (replicate 6000 (CHR ''1''))) (s, rw) =
     handleWebhookPublish pubs_sample_cfg [(''token'', ''0t'')]
       ((pubs_request ''POST'' ''/'' (replicate 6000 (CHR ''1'')))\<lparr>req_body := replicate 5120 (CHR ''1''), req_body_fail := False\<rparr>) (s, rw)"
proof -
  have b: "req_body (pubs_request ''POST'' ''/'' (replicate n c)) = replicate n c" for n c
    by (simp add: pubs_request_def)
  show ?thesis
    using publish_ignores_excess [OF pubs_request_form(1), of "''POST''" "''/''" "replicate 6000 (CHR ''1'')"
        pubs_sample_cfg "[(''token'', ''0t'')]" "(s, rw)"]
    by (simp add: b maxRequestSize_def)
qed


definition pubs_publish_req :: request where
  "pubs_publish_req = pubs_request ''POST'' ''/api/pubs/v1/webhook/w/10wt'' []"

lemma pubs_sample_publish:
  "\<exists>rw'. AddContext None (ServeHTTP [pubs_ServeHTTP pubs_sample_cfg]) pubs_publish_req (pubs_sample_state, fresh_rw) =
    Returns (broker (Pub (PrettyJSON (event_json ''w'' [''t''] None)) [''t'']) pubs_sample_state, rw')"
proof -
  have p: "has_prefix ''/api/pubs/v1/webhook/w/10wt'' pubs_base" "''/api/pubs/v1/webhook/w/10wt'' \<noteq> ''/health-check''"
    by code_simp+
  have m: "plain_mux (map fst (pubs_routes pubs_sample_cfg)) (pubs_publish_req\<lparr>req_ctx := None\<rparr>)
      = Matched 1 [(''id'', ''w''), (''token'', ''10wt'')]"
    unfolding plain_mux_def pubs_routes_def pubs_publish_req_def pubs_request_def list.map fst_conv
    by (simp add: match_route_def match_path_def pubs_template_def)
  have d: "sample_decode ''10wt'' = Some \<lparr>td_id = ''w'', td_topic = ''t''\<rparr>" by code_simp
  have r: "(pubs_publish_req\<lparr>req_ctx := None\<rparr>) = pubs_publish_req"
    by (simp add: pubs_publish_req_def pubs_request_def)
  have h: "handleWebhookPublish pubs_sample_cfg [(''id'', ''w''), (''token'', ''10wt'')] pubs_publish_req (pubs_sample_state, fresh_rw)
      = (broker (Pub (PrettyJSON (event_json ''w'' [''t''] None)) [''t'']) pubs_sample_state, write_header 204 fresh_rw)"
    by (subst publish_eq [of _ "''10wt''" _ "\<lparr>td_id = ''w'', td_topic = ''t''\<rparr>"])
      (simp_all add: pubs_sample_cfg_def d pubs_publish_req_def form_get_def pubs_request_form read_limited_def
        maxRequestSize_def with_envelope_def event_data_def)
  have path: "req_path pubs_publish_req = ''/api/pubs/v1/webhook/w/10wt''"
    by (simp add: pubs_publish_req_def pubs_request_def)
  have route: "snd (pubs_routes pubs_sample_cfg ! 1) = MakeHTTPWebhookPublishHandler pubs_sample_cfg"
    by (simp add: pubs_routes_def)
  show ?thesis
    using m h p by (simp add: AddContext_def r ServeHTTP_def pubs_ServeHTTP_def pubs_http_def serve_mux_def path
        pubs_sample_simps route [simplified] MakeHTTPWebhookPublishHandler_def)
qed



definition pubs_connect_req :: request where
  "pubs_connect_req = pubs_request ''POST'' ''/api/pubs/v1/stream/connect'' []"

lemma pubs_sample_connect:
  "\<exists>s' rw'. AddContext None (ServeHTTP [pubs_ServeHTTP pubs_sample_cfg]) pubs_connect_req (pubs_sample_state, fresh_rw) =
    Returns (s', rw') \<and> ps_keys s' ''r'' = Some \<lparr>kr_when = 0, kr_user = Some ''alice''\<rparr>"
proof -
  have p: "has_prefix ''/api/pubs/v1/stream/connect'' pubs_base" "''/api/pubs/v1/stream/connect'' \<noteq> ''/health-check''"
    by code_simp+
  have m: "plain_mux (map fst (pubs_routes pubs_sample_cfg)) (pubs_connect_req\<lparr>req_ctx := None\<rparr>) = Matched 3 []"
    unfolding plain_mux_def pubs_routes_def pubs_connect_req_def pubs_request_def list.map fst_conv
    by (simp add: match_route_def match_path_def pubs_template_def)
  have r: "(pubs_connect_req\<lparr>req_ctx := None\<rparr>) = pubs_connect_req"
    and path: "req_path pubs_connect_req = ''/api/pubs/v1/stream/connect''"
    by (simp_all add: pubs_connect_req_def pubs_request_def)
  have route: "snd (pubs_routes pubs_sample_cfg ! 3) = (\<lambda>vars. AccessTokenRequired sample_oidc
      (MakeHTTPWebsocketConnectHandler pubs_sample_cfg) pubs_scopesRequired)"
    by (simp add: pubs_routes_def) (simp add: pubs_sample_cfg_def)
  have auth: "header_get (req_header pubs_connect_req) ''Authorization'' = ''Bearer good''"
    unfolding pubs_connect_req_def pubs_request_def request.select_convs by code_simp
  have tok: "splitN2 (CHR '' '') ''Bearer good'' = [''Bearer'', ''good'']" by code_simp
  have k: "handleWebsocketConnect pubs_sample_cfg (Some \<lparr>AuthenticatedUserID = ''alice'', StandardClaims = std, ExtraClaims = ext\<rparr>) pubs_sample_state
      = (Some ''r'', pubs_sample_state\<lparr>ps_random := 1, ps_keys := [''r'' \<mapsto> \<lparr>kr_when = 0, kr_user = Some ''alice''\<rparr>]\<rparr>)" for std ext
    by (simp add: handleWebsocketConnect_def draw_def pubs_sample_cfg_def pubs_sample_state_def)
  have url: "pc_url pubs_sample_cfg n vars = Some (concat (map snd vars))" for n vars by (simp add: pubs_sample_cfg_def)
  show ?thesis
    using m p by (simp add: AddContext_def r ServeHTTP_def pubs_ServeHTTP_def pubs_http_def serve_mux_def path
        pubs_sample_simps route [simplified] AccessTokenRequired_def check_access_def bearer_token_def auth tok
        sample_oidc_def ContextWithRecord_def MakeHTTPWebsocketConnectHandler_def k url)
qed


text \<open>C27: however the operations of the plugin interleave, a key opens at most as many connections as it was
  issued times, one each time; a key that is still in the table has been issued once more than used,
  to an authenticated user, so that no connection is ever refused for want of a user.\<close>

theorem one_time_keys:
  assumes "ps_keys s = Map.empty" and "pubs_run cfg ops s = (s', l)"
  shows "uses key l \<le> issues key l \<and>
    (ps_keys s' key = None \<or>
     uses key l < issues key l \<and>
     (\<exists>uid kr. uid \<noteq> [] \<and> ps_keys s' key = Some kr \<and> kr_user kr = Some uid \<and> Issued key uid \<in> set l))"
proof -
  have "uses key l + held key s' \<le> issues key l"
    using pubs_run_balance [of key cfg ops s] assms by (simp add: held_def)
  moreover have "keys_logged l s'"
    using pubs_run_logged [of "[]" s cfg ops] assms by (simp add: keys_logged_def)
  ultimately show ?thesis by (auto simp: held_def keys_logged_def)
qed

definition alice_ctx :: ctx where
  "alice_ctx = Some \<lparr>AuthenticatedUserID = ''alice'', StandardClaims = None, ExtraClaims = None\<rparr>"

definition sample_ops :: "pubs_op list" where
  "sample_ops = [Connect alice_ctx, Tick 20, Purge, Connection ''r'' (pubs_request ''GET'' ''/'' []) fresh_rw,
     Connection ''r'' (pubs_request ''GET'' ''/'' []) fresh_rw, Connect alice_ctx, Tick 50]"

lemma sample_digits: "digits_of (Suc 0) = ''1''"
  by (simp add: digits_of.simps digit_chars)

lemma sample_ops_run:
  "\<exists>s'. pubs_run pubs_sample_cfg sample_ops pubs_sample_state =
     (s', [Issued ''r'' ''alice'', Connected ''r'' ''1'', Issued ''rr'' ''alice'']) \<and>
     ps_keys s' = [''rr'' \<mapsto> \<lparr>kr_when = 20, kr_user = Some ''alice''\<rparr>] \<and> ps_now s' = 70"
  by (simp add: sample_ops_def pubs_op_def handleWebsocketConnect_def handleWebsocketConnection_def draw_def
      pubs_sample_cfg_def pubs_sample_state_def alice_ctx_def purgeExpiredKeys_def connectExpiration_def
      Let_def sample_digits fun_upd_def cong: if_cong)

theorem one_time_keys_witness:
  "\<exists>s' l. pubs_run pubs_sample_cfg sample_ops pubs_sample_state = (s', l) \<and> uses ''r'' l = 1 \<and> issues ''r'' l = 1 \<and>
     uses ''rr'' l < issues ''rr'' l"
proof -
  have e: "ps_keys pubs_sample_state = Map.empty" by (simp add: pubs_sample_state_def)
  obtain s' l where r: "pubs_run pubs_sample_cfg sample_ops pubs_sample_state = (s', l)"
    and l: "l = [Issued ''r'' ''alice'', Connected ''r'' ''1'', Issued ''rr'' ''alice'']"
    and k: "ps_keys s' = [''rr'' \<mapsto> \<lparr>kr_when = 20, kr_user = Some ''alice''\<rparr>]"
    using sample_ops_run by blast
  have "uses ''rr'' l < issues ''rr'' l" using one_time_keys [OF e r, of "''rr''"] k by simp
  then show ?thesis using r l by (auto simp: uses_def issues_def)
qed

text \<open>C28: a key that can still be used is at most 30 seconds older than the last run of the clean-up, or
  than the start; with the clean-up every 60 seconds this makes 90.\<close>

theorem keys_expire:
  assumes "ps_keys s = Map.empty" and "pubs_run cfg ops s = (s', l)" and "ps_keys s' key = Some kr"
  shows "kr_when kr \<le> ps_now s' \<and> ps_now s' - kr_when kr \<le> 30 + int (idle 0 ops)"
  using pubs_run_young [of 0 s ops cfg] assms by (simp add: keys_young_def connectExpiration_def)

theorem keys_expire_witness:
  "\<exists>s' l kr. pubs_run pubs_sample_cfg sample_ops pubs_sample_state = (s', l) \<and> ps_keys s' ''rr'' = Some kr \<and>
     ps_now s' - kr_when kr \<le> 80"
proof -
  have e: "ps_keys pubs_sample_state = Map.empty" by (simp add: pubs_sample_state_def)
  obtain s' l where r: "pubs_run pubs_sample_cfg sample_ops pubs_sample_state = (s', l)"
    and k: "ps_keys s' ''rr'' = Some \<lparr>kr_when = 20, kr_user = Some ''alice''\<rparr>"
    using sample_ops_run by (metis fun_upd_same)
  have "idle 0 sample_ops = 50" by (simp add: idle_def sample_ops_def)
  then show ?thesis using keys_expire [OF e r k] r k by auto
qed

end
