(* ===== verification/Pubs_System.thy ===== *)
theory Pubs_System
  imports Pubs_Facts Pubs_Keys Systems
begin

text \<open>
  The streams of the plugin \<open>pubs\<close> as a system: any number of connections, the handlers and the
  clean-up, interleaved in any way; the invariant of its channels, and the properties of streams.
\<close>

section \<open>Many connections at once\<close>

text \<open>The plugin with its connections, by number. The label of a step is the connection that acts;
  the steps without one are those of the HTTP handlers, of the clean-up and of closing.\<close>

type_synonym stream_sys = "pubs_state \<times> (nat \<rightharpoonup> conn)"

inductive stream_step :: "pubs_config \<Rightarrow> nat option \<Rightarrow> stream_sys \<Rightarrow> stream_sys \<Rightarrow> bool" for cfg where
  opened: "conns i = None \<Longrightarrow> OnConnect cfg ok (s, new_conn) = Returns ((s', c), err) \<Longrightarrow>
    stream_step cfg (Some i) (s, conns) (s', conns(i \<mapsto> c))"
| event: "conns i = Some c \<Longrightarrow> stream_event ok e (s, c) = Returns ((s', c'), err) \<Longrightarrow>
    stream_step cfg (Some i) (s, conns) (s', conns(i \<mapsto> c'))"
| forwarded: "conns i = Some c \<Longrightarrow> forward ok ps c = (c', left) \<Longrightarrow>
    stream_step cfg (Some i) (s, conns) (s, conns(i \<mapsto> c'))"
| handler: "pubs_op cfg op s = (s', l) \<Longrightarrow> stream_step cfg None (s, conns) (s', conns)"
| shut: "stream_step cfg None (s, conns) (pubs_Close s, conns)"

inductive_cases stream_stepE: "stream_step cfg a (s, conns) (s', conns')"

definition stream_any :: "pubs_config \<Rightarrow> stream_sys \<Rightarrow> stream_sys \<Rightarrow> bool" where
  "stream_any cfg x y \<longleftrightarrow> (\<exists>a. stream_step cfg a x y)"

definition stream_reach :: "pubs_config \<Rightarrow> stream_sys \<Rightarrow> bool" where
  "stream_reach cfg y \<longleftrightarrow> (\<exists>s. (stream_any cfg)\<^sup>*\<^sup>* (s, Map.empty) y)"

lemma stream_reach_start: "stream_reach cfg (s, Map.empty)"
  unfolding stream_reach_def by blast

lemma stream_reach_step: "stream_reach cfg x \<Longrightarrow> stream_step cfg a x y \<Longrightarrow> stream_reach cfg y"
  unfolding stream_reach_def stream_any_def by (blast intro: rtranclp.rtrancl_into_rtrancl)

text \<open>Whether a call of the broker is about a channel, and whether it is one that the holder of a
  binder may make: about its own channel, or publishing under its own id.\<close>

fun mentions :: "nat \<Rightarrow> broker_call \<Rightarrow> bool" where
  "mentions ch (Sub c t) = (c = ch)"
| "mentions ch (AddSub c ts) = (c = ch)"
| "mentions ch (Unsub c ts) = (c = ch)"
| "mentions ch (UnsubAll c) = (c = ch)"
| "mentions ch (Pub m ts) = False"
| "mentions ch Shutdown = False"

fun own_call :: "pubsubBinder \<Rightarrow> broker_call \<Rightarrow> bool" where
  "own_call b (AddSub c ts) = (c = binder_ch b \<and> ts \<noteq> [])"
| "own_call b (Unsub c ts) = (c = binder_ch b \<and> ts \<noteq> [])"
| "own_call b (UnsubAll c) = (c = binder_ch b)"
| "own_call b (Pub m ts) = (ts \<noteq> [] \<and> (\<exists>d. m = PrettyJSON (event_json (binder_id b) ts d)))"
| "own_call b _ = False"

lemma RawSend_bound [simp]: "cn_bound (fst (RawSend ok m c)) = cn_bound c"
  by (simp add: RawSend_def Let_def)

lemma onPubSub_own:
  assumes "cn_bound c = Some b"
  shows "\<exists>s' err. onPubSub e (s, c) = Returns ((s', c), err) \<and> (s' = s \<or> (\<exists>call. s' = broker call s \<and> own_call b call))"
proof (cases "if se_info e \<noteq> [] then decode_topics (se_info e) else Some \<lparr>st_ref = [], st_topics = []\<rparr>")
  case None
  then show ?thesis using assms by (simp add: onPubSub_def)
next
  case (Some td)
  have pub: "\<exists>s' err. onPub td (se_data e) (s, c) = Returns ((s', c), err) \<and>
      (s' = s \<or> (\<exists>call. s' = broker call s \<and> own_call b call))"
  proof (cases "event_data (se_data e)")
    case None
    then show ?thesis using assms by (simp add: onPub_def with_binder_def envelope_event)
  next
    case (Some d)
    then show ?thesis using assms
      by (auto simp: onPub_def with_binder_def envelope_event intro!: exI [of _ "Pub m t" for m t])
  qed
  have sub: "\<exists>s' err. onSub td (s, c) = Returns ((s', c), err) \<and> (s' = s \<or> (\<exists>call. s' = broker call s \<and> own_call b call))"
    using assms by (auto simp: onSub_def with_binder_def intro!: exI [of _ "AddSub m t" for m t])
  have unsub: "\<exists>s' err. onUnsub td (s, c) = Returns ((s', c), err) \<and> (s' = s \<or> (\<exists>call. s' = broker call s \<and> own_call b call))"
    using assms by (auto simp: onUnsub_def with_binder_def intro!: exI [of _ "Unsub m t" for m t])
  show ?thesis using Some pub sub unsub by (simp add: onPubSub_def split: if_splits)
qed

lemma stream_event_own:
  assumes "cn_bound c = Some b"
  shows "\<exists>s' c' err. stream_event ok e (s, c) = Returns ((s', c'), err) \<and> cn_bound c' = Some b \<and>
    (s' = s \<or> (\<exists>call. s' = broker call s \<and> own_call b call))"
proof (cases e)
  case Gone
  then show ?thesis using assms
    by (auto simp: stream_event_def OnDisconnect_def onUnsubAll_def with_binder_def intro!: exI [of _ "UnsubAll m" for m])
next
  case (Message m)
  show ?thesis
  proof (cases "decode_envelope m")
    case None
    then show ?thesis using assms Message by (simp add: stream_event_def OnText_def)
  next
    case (Some env)
    obtain s' err where r: "onPubSub env (s, c) = Returns ((s', c), err)"
      and s': "s' = s \<or> (\<exists>call. s' = broker call s \<and> own_call b call)"
      using onPubSub_own [OF assms, of env s] by blast
    then show ?thesis using assms Message Some
      by (auto simp: stream_event_def OnText_def RawSend_def Let_def split: option.splits)
  qed
qed

section \<open>Channels are private\<close>

definition stream_inv :: "pubs_config \<Rightarrow> stream_sys \<Rightarrow> bool" where
  "stream_inv cfg sys \<longleftrightarrow>
     (\<forall>i c. snd sys i = Some c \<longrightarrow> (\<exists>b. cn_bound c = Some b \<and> binder_ch b < length (ps_calls (fst sys)) \<and>
        ps_calls (fst sys) ! binder_ch b = Sub (binder_ch b) (pc_broadcast cfg))) \<and>
     (\<forall>i j c d b b'. snd sys i = Some c \<and> snd sys j = Some d \<and> cn_bound c = Some b \<and> cn_bound d = Some b' \<and>
        binder_ch b = binder_ch b' \<longrightarrow> i = j)"

lemma onSubInit_facts:
  assumes "onSubInit cfg ok (s, c) = ((s', c'), err)"
  shows "ps_calls s' = ps_calls s @ [Sub (length (ps_calls s)) (pc_broadcast cfg)]"
    "\<exists>bid. cn_bound c' = Some \<lparr>binder_id = bid, binder_ch = length (ps_calls s)\<rparr>"
  using assms by (auto simp: onSubInit_def draw_def broker_def RawSend_def Let_def split: option.splits prod.splits)

lemma pubs_op_calls:
  assumes "pubs_op cfg op s = (s', l)"
  shows "ps_calls s' = ps_calls s \<or> (\<exists>m ts. ps_calls s' = ps_calls s @ [Pub m ts])"
proof (cases op)
  case (Connect c)
  then show ?thesis using assms
    by (cases rule: connect_cases [of c cfg s]) (auto simp: pubs_op_def)
next
  case (Connection k req rw)
  then show ?thesis using connection_frame [of cfg k req s rw] assms
    by (auto simp: pubs_op_def split: prod.splits option.splits)
next
  case (Publish vars req rw)
  then show ?thesis using assms
    by (auto simp: pubs_op_def handleWebhookPublish_def Let_def split: option.splits if_splits)
qed (use assms in \<open>auto simp: pubs_op_defs frame\<close>)

lemma stream_inv_update:
  assumes inv: "stream_inv cfg (s, conns)" and c: "conns i = Some c" and b: "cn_bound c' = cn_bound c"
    and calls: "ps_calls s' = ps_calls s @ cs"
  shows "stream_inv cfg (s', conns(i \<mapsto> c'))"
proof -
  have eq: "(conns(i \<mapsto> c')) j = Some d \<Longrightarrow> \<exists>d'. conns j = Some d' \<and> cn_bound d' = cn_bound d" for j d
    using c b by (auto split: if_splits)
  have "\<exists>b. cn_bound d = Some b \<and> binder_ch b < length (ps_calls s') \<and>
      ps_calls s' ! binder_ch b = Sub (binder_ch b) (pc_broadcast cfg)" if "(conns(i \<mapsto> c')) j = Some d" for j d
    using inv eq [OF that] calls unfolding stream_inv_def by (fastforce simp: nth_append)
  moreover have "j = k" if "(conns(i \<mapsto> c')) j = Some d" "(conns(i \<mapsto> c')) k = Some d'"
      "cn_bound d = Some b1" "cn_bound d' = Some b2" "binder_ch b1 = binder_ch b2" for j k d d' b1 b2
    using inv eq [OF that(1)] eq [OF that(2)] that(3-5) unfolding stream_inv_def fst_conv snd_conv by metis
  ultimately show ?thesis unfolding stream_inv_def fst_conv snd_conv by blast
qed

lemma stream_inv_calls:
  "stream_inv cfg (s, conns) \<Longrightarrow> ps_calls s' = ps_calls s @ cs \<Longrightarrow> stream_inv cfg (s', conns)"
  unfolding stream_inv_def by (fastforce simp: nth_append)

lemma stream_inv_open:
  assumes inv: "stream_inv cfg (s, conns)" and i: "conns i = None"
    and o: "onSubInit cfg ok (s, new_conn) = ((s', c), err)"
  shows "stream_inv cfg (s', conns(i \<mapsto> c))"
proof -
  let ?n = "length (ps_calls s)"
  from onSubInit_facts [OF o] obtain bid where calls: "ps_calls s' = ps_calls s @ [Sub ?n (pc_broadcast cfg)]"
    and b: "cn_bound c = Some \<lparr>binder_id = bid, binder_ch = ?n\<rparr>" by blast
  have old: "\<exists>b. cn_bound d = Some b \<and> binder_ch b < ?n" if "conns j = Some d" for j d
    using inv that unfolding stream_inv_def by fastforce
  have "\<exists>b. cn_bound d = Some b \<and> binder_ch b < length (ps_calls s') \<and>
      ps_calls s' ! binder_ch b = Sub (binder_ch b) (pc_broadcast cfg)" if "(conns(i \<mapsto> c)) j = Some d" for j d
    using inv that calls b unfolding stream_inv_def by (fastforce simp: nth_append split: if_splits)
  moreover have "j = k" if "(conns(i \<mapsto> c)) j = Some d" "(conns(i \<mapsto> c)) k = Some d'"
      "cn_bound d = Some b1" "cn_bound d' = Some b2" "binder_ch b1 = binder_ch b2" for j k d d' b1 b2
  proof (cases "j = i \<or> k = i")
    case True
    show ?thesis using True that b old [of j d] old [of k d'] by (auto split: if_splits)
  next
    case False
    then show ?thesis using inv that unfolding stream_inv_def fst_conv snd_conv by (metis fun_upd_other)
  qed
  ultimately show ?thesis unfolding stream_inv_def fst_conv snd_conv by blast
qed

lemma stream_step_inv:
  assumes "stream_step cfg a x y" and "stream_inv cfg x"
  shows "stream_inv cfg y"
  using assms
proof cases
  case (opened conns i ok s s' c err)
  then show ?thesis using stream_inv_open [of cfg s conns i ok s' c err] assms(2) by (simp add: OnConnect_def)
next
  case (event conns i c ok e s s' c' err)
  then obtain b where b: "cn_bound c = Some b" using assms(2) unfolding stream_inv_def by fastforce
  then have "cn_bound c' = cn_bound c \<and> (\<exists>cs. ps_calls s' = ps_calls s @ cs)"
    using stream_event_own [OF b, of ok e s] event by auto
  then show ?thesis using stream_inv_update assms(2) event by blast
next
  case (forwarded conns i c ok ps c' left s)
  have "cn_bound (fst (forward ok ps c)) = cn_bound c" for ps c
    by (induction ok ps c rule: forward.induct) (auto simp: RawSend_def Let_def split: prod.splits bool.splits)
  then have "cn_bound c' = cn_bound c" using forwarded by (metis fst_conv)
  then show ?thesis using stream_inv_update [of cfg s conns i c c' s "[]"] assms(2) forwarded by simp
next
  case (handler op s s' l conns)
  then show ?thesis using pubs_op_calls [of cfg op s s' l] stream_inv_calls assms(2) by fastforce
next
  case (shut s conns)
  then show ?thesis using stream_inv_calls [of cfg s conns "pubs_Close s" "[Shutdown]"] assms(2)
    by (simp add: pubs_Close_def)
qed

interpretation streams: transition_system "\<lambda>x. snd x = Map.empty" "stream_any cfg" "stream_inv cfg"
  for cfg :: pubs_config
proof unfold_locales
  fix x y
  show "snd x = Map.empty \<Longrightarrow> stream_inv cfg x" by (simp add: stream_inv_def)
  show "stream_any cfg x y \<Longrightarrow> stream_inv cfg x \<Longrightarrow> stream_inv cfg y"
    unfolding stream_any_def by (elim exE) (rule stream_step_inv)
qed

lemma stream_reach_inv: "stream_reach cfg x \<Longrightarrow> stream_inv cfg x"
  unfolding stream_reach_def by (elim exE) (rule streams.inv_reach, simp_all)

section \<open>A small system\<close>

definition stream_sample_cfg :: pubs_config where
  "stream_sample_cfg = \<lparr>pc_oidc = sample_oidc, pc_mux = plain_mux, pc_cors = None, pc_scopes = [],
     pc_rnd = (\<lambda>i n. replicate (Suc i) (CHR ''r'')), pc_encode = (\<lambda>n td. None), pc_decode = (\<lambda>t. None),
     pc_url = (\<lambda>name vars. None), pc_upgrade = (\<lambda>req rw. (Upgraded, rw)),
     pc_connection = True, pc_broadcast = ''all''\<rparr>"

definition empty_state :: pubs_state where
  "empty_state = \<lparr>ps_keys = Map.empty, ps_count = 0, ps_connections = {}, ps_calls = [],
     ps_random = 0, ps_now = 0\<rparr>"

text \<open>Connections 0 and 1 are open.\<close>

lemma open_connection:
  "\<exists>s' c err bid. OnConnect cfg ok (s, new_conn) = Returns ((s', c), err) \<and>
     ps_calls s' = ps_calls s @ [Sub (length (ps_calls s)) (pc_broadcast cfg)] \<and>
     cn_bound c = Some \<lparr>binder_id = bid, binder_ch = length (ps_calls s)\<rparr>"
proof -
  obtain s' c err where o: "onSubInit cfg ok (s, new_conn) = ((s', c), err)" by (metis surj_pair)
  show ?thesis using onSubInit_facts [OF o] o by (auto simp: OnConnect_def)
qed

lemma two_connections:
  "\<exists>s conns c0 c1 b0 b1. stream_reach cfg (s, conns) \<and> conns 0 = Some c0 \<and> conns 1 = Some c1 \<and>
     cn_bound c0 = Some b0 \<and> cn_bound c1 = Some b1 \<and> binder_ch b0 = 0 \<and> binder_ch b1 = 1"
proof -
  obtain s0 c0 e0 bid0 where o: "OnConnect cfg (\<lambda>n. True) (empty_state, new_conn) = Returns ((s0, c0), e0)"
    "ps_calls s0 = [Sub 0 (pc_broadcast cfg)]" "cn_bound c0 = Some \<lparr>binder_id = bid0, binder_ch = 0\<rparr>"
    using open_connection [of cfg "\<lambda>n. True" empty_state] by (auto simp: empty_state_def)
  obtain s1 c1 e1 bid1 where p: "OnConnect cfg (\<lambda>n. True) (s0, new_conn) = Returns ((s1, c1), e1)"
    "cn_bound c1 = Some \<lparr>binder_id = bid1, binder_ch = 1\<rparr>"
    using open_connection [of cfg "\<lambda>n. True" s0] o(2) by auto
  have "stream_step cfg (Some 0) (empty_state, Map.empty) (s0, [0 \<mapsto> c0])" by (rule opened) (use o in simp_all)
  then have "stream_reach cfg (s0, [0 \<mapsto> c0])" by (rule stream_reach_step [OF stream_reach_start])
  moreover have "stream_step cfg (Some 1) (s0, [0 \<mapsto> c0]) (s1, [0 \<mapsto> c0, 1 \<mapsto> c1])"
    by (rule opened) (use p in simp_all)
  ultimately have "stream_reach cfg (s1, [0 \<mapsto> c0, 1 \<mapsto> c1])" by (rule stream_reach_step)
  then show ?thesis using o(3) p(2)
    by (intro exI [of _ s1] exI [of _ "[0 \<mapsto> c0, 1 \<mapsto> c1]"] exI [of _ c0] exI [of _ c1]
        exI [of _ "\<lparr>binder_id = bid0, binder_ch = 0\<rparr>"] exI [of _ "\<lparr>binder_id = bid1, binder_ch = 1\<rparr>"]) simp
qed

section \<open>What a step of others does\<close>

text \<open>A step that is not of connection \<open>j\<close> makes only calls that are not about its channel, and leaves it.\<close>

lemma stream_step_others:
  assumes inv: "stream_inv cfg (s, conns)" and st: "stream_step cfg a (s, conns) (s', conns')"
    and j: "conns j = Some c" "cn_bound c = Some b" and a: "a \<noteq> Some j"
  shows "\<exists>cs. ps_calls s' = ps_calls s @ cs \<and> (\<forall>call \<in> set cs. \<not> mentions (binder_ch b) call) \<and> conns' j = Some c"
proof -
  have lt: "binder_ch b < length (ps_calls s)" using inv j unfolding stream_inv_def by fastforce
  from st show ?thesis
  proof (cases rule: stream_stepE [consumes 1, case_names opened event forwarded handler shut])
    case (opened i ok d err)
    then show ?thesis using onSubInit_facts(1) [of cfg ok s new_conn s' d err] lt j a
      by (auto simp: OnConnect_def)
  next
    case (event i d ok e d' err)
    obtain b' where b': "cn_bound d = Some b'" using inv event unfolding stream_inv_def by fastforce
    have other: "binder_ch b' \<noteq> binder_ch b" using inv event j a b' unfolding stream_inv_def by fastforce
    have "ps_calls s' = ps_calls s \<or> (\<exists>call. ps_calls s' = ps_calls s @ [call] \<and> own_call b' call)"
      using stream_event_own [OF b', of ok e s] event by auto
    moreover have "\<not> mentions (binder_ch b) call" if "own_call b' call" for call
      using that other by (cases call) auto
    ultimately show ?thesis using event j a by auto
  next
    case (forwarded i d ok ps d' left)
    then show ?thesis using j a by auto
  next
    case (handler op l)
    then show ?thesis using pubs_op_calls [of cfg op s s' l] j by auto
  next
    case shut
    then show ?thesis using j by (simp add: pubs_Close_def)
  qed
qed

section \<open>Properties\<close>

text \<open>C29: connections cannot touch each other. In every reachable state, a step of another connection, of a
  handler, of the clean-up or of closing makes no call about a connection's channel, so that what the
  connection is subscribed to is its own doing alone, and leaves the connection itself as it is.\<close>

theorem stream_isolation:
  assumes "stream_reach cfg (s, conns)" and "stream_step cfg a (s, conns) (s', conns')"
    and "conns j = Some c" and "cn_bound c = Some b" and "a \<noteq> Some j"
  shows "filter (mentions (binder_ch b)) (ps_calls s') = filter (mentions (binder_ch b)) (ps_calls s) \<and>
    conns' j = Some c"
  using stream_step_others [OF stream_reach_inv [OF assms(1)] assms(2-5)] by auto

theorem stream_isolation_witness:
  "\<exists>s conns s' conns'. stream_reach stream_sample_cfg (s, conns) \<and> stream_step stream_sample_cfg (Some 1) (s, conns) (s', conns') \<and>
     ps_calls s' = ps_calls s @ [UnsubAll 1] \<and> filter (mentions 0) (ps_calls s') = filter (mentions 0) (ps_calls s)"
proof -
  obtain s conns c0 c1 b0 b1 where r: "stream_reach stream_sample_cfg (s, conns)" "conns 0 = Some c0" "conns 1 = Some c1"
    "cn_bound c0 = Some b0" "cn_bound c1 = Some b1" "binder_ch b0 = 0" "binder_ch b1 = 1"
    using two_connections [of stream_sample_cfg] by (elim exE conjE)
  have st: "stream_step stream_sample_cfg (Some 1) (s, conns) (broker (UnsubAll 1) s, conns(1 \<mapsto> c1))"
    by (rule event [where i = 1 and conns = conns and c = c1 and ok = "\<lambda>n. True" and e = Gone and err = None, OF r(3)])
      (simp add: stream_event_def OnDisconnect_def onUnsubAll_def with_binder_def r(5,7))
  have "filter (mentions 0) (ps_calls (broker (UnsubAll 1) s)) = filter (mentions 0) (ps_calls s)"
    using stream_isolation [OF r(1) st r(2,4)] r(6) by simp
  then show ?thesis
    using r(1) st by (intro exI [of _ s] exI [of _ conns] exI [of _ "broker (UnsubAll 1) s"] exI [of _ "conns(1 \<mapsto> c1)"]) simp
qed

text \<open>C30: a connection is bound before anything else happens to it and stays bound, so that no message,
  whatever its text, and no disconnect makes a callback panic.\<close>

theorem stream_never_panics:
  assumes "stream_reach cfg (s, conns)" and "conns i = Some c"
  shows "returns (stream_event ok e (s, c))"
proof -
  obtain b where "cn_bound c = Some b"
    using stream_reach_inv [OF assms(1)] assms(2) unfolding stream_inv_def by fastforce
  then show ?thesis using stream_event_own [of c b ok e s] by auto
qed

theorem stream_never_panics_witness:
  "\<exists>s conns c. stream_reach stream_sample_cfg (s, conns) \<and> conns 1 = Some c \<and> returns (stream_event (\<lambda>n. False) Gone (s, c))"
proof -
  obtain s conns c where r: "stream_reach stream_sample_cfg (s, conns)" "conns 1 = Some c"
    using two_connections [of stream_sample_cfg] by blast
  then show ?thesis using stream_never_panics [OF r, of "\<lambda>n. False" Gone] by blast
qed

text \<open>C31: a client's message of type pub with topics and JSON data publishes once, to these topics, an event
  whose source is the id of the client's own connection: the \<open>ref\<close> the client may have sent is not
  used. A client state is acknowledged afterwards, and the error is that of sending it.\<close>

theorem stream_publish:
  assumes "cn_bound c = Some b" and "decode_envelope m = Some e" and "se_type e = streamEnvelopeTypeNamePub"
    and "se_info e \<noteq> []" and "decode_topics (se_info e) = Some td" and "st_topics td \<noteq> []"
    and "event_data (se_data e) = Some d"
  shows "\<exists>c' err. OnText ok m (s, c) =
      Returns ((broker (Pub (PrettyJSON (event_json (binder_id b) (st_topics td) d)) (st_topics td)) s, c'), err) \<and>
    cn_sent c' = cn_sent c @ (if se_state e \<noteq> [] \<and> ok (cn_attempts c)
      then [PrettyJSON (JObj [(''type'', JStr ''ack''), (''state'', marshal_str (se_state e))])] else []) \<and>
    err = (if se_state e \<noteq> [] \<and> \<not> ok (cn_attempts c) then Some SendFailed else None)"
proof -
  have "marshal_str ''ack'' = JStr ''ack''" by code_simp
  then have ack: "se_state e \<noteq> [] \<Longrightarrow> envelope_json (ack_envelope (se_state e)) =
      Some (JObj [(''type'', JStr ''ack''), (''state'', marshal_str (se_state e))])"
    by (simp add: envelope_json_def ack_envelope_def raw_or_empty_def json_members_or_empty_def streamEnvelopeTypeAck_def)
  have types: "streamEnvelopeTypeNamePub \<noteq> streamEnvelopeTypeNameSub" "streamEnvelopeTypeNamePub \<noteq> streamEnvelopeTypeNameUnsub"
    by (simp_all add: stream_types)
  show ?thesis using assms ack types
    by (auto simp: OnText_def onPubSub_def onPub_def with_binder_def envelope_event RawSend_def Let_def)
qed

definition pub_text :: string where
  "pub_text = ''{\"type\":\"pub\",\"info\":{\"ref\":\"x\",\"topics\":[\"t\"]},\"data\":1}''"

lemma pub_text_decoded:
  "decode_envelope pub_text = Some \<lparr>se_type = ''pub'', se_data = ''1'',
     se_info = ''{\"ref\":\"x\",\"topics\":[\"t\"]}'', se_state = []\<rparr>"
  "decode_topics ''{\"ref\":\"x\",\"topics\":[\"t\"]}'' = Some \<lparr>st_ref = ''x'', st_topics = [''t'']\<rparr>"
  "event_data ''1'' = Some (Some (JNum ''1''))"
  by code_simp+

theorem stream_publish_witness:
  "\<exists>c'. OnText (\<lambda>n. True) pub_text (empty_state, new_conn\<lparr>cn_bound := Some \<lparr>binder_id = ''me'', binder_ch = 0\<rparr>\<rparr>) =
     Returns ((broker (Pub (PrettyJSON (event_json ''me'' [''t''] (Some (JNum ''1'')))) [''t'']) empty_state, c'), None)"
  using stream_publish [OF _ pub_text_decoded(1), of "new_conn\<lparr>cn_bound := Some \<lparr>binder_id = ''me'', binder_ch = 0\<rparr>\<rparr>"
      "\<lparr>binder_id = ''me'', binder_ch = 0\<rparr>" "\<lparr>st_ref = ''x'', st_topics = [''t'']\<rparr>" "Some (JNum ''1'')" "\<lambda>n. True" empty_state]
    pub_text_decoded(2,3)
  by (auto simp: streamEnvelopeTypeNamePub_def)

text \<open>C32: what the plugin writes for an event reads back as that event: its type, its source and topics, and
  data that is the same JSON value up to the escaping of HTML characters inside strings.\<close>

theorem event_round_trip:
  assumes "envelope_json (event_envelope ref topics msg) = Some ev" and "utf8_valid ref" and "list_all utf8_valid topics"
  shows "\<exists>e. decode_envelope (PrettyJSON ev) = Some e \<and> se_type e = streamEnvelopeTypeEvent \<and> se_state e = [] \<and>
    decode_topics (se_info e) = Some \<lparr>st_ref = ref, st_topics = topics\<rparr> \<and>
    (if msg = [] then se_data e = []
     else json_parse (se_data e) = map_option html_escape_val (json_parse msg))"
proof -
  obtain d where d: "event_data msg = Some d" and ev: "ev = event_json ref topics d"
    using assms(1) by (auto simp: envelope_event)
  have data: "if msg = [] then d = None else \<exists>v. json_parse msg = Some v \<and> d = Some (html_escape_val v)"
    using d by (auto simp: event_data_def)
  show ?thesis
    using decode_event_print [OF d, of ref topics] decode_topics_print [OF assms(2,3), of 1] data
      json_parse_indent [OF wf_html_escape_val [OF json_parse_wf], of msg _ 1]
    by (auto simp: ev split: if_splits simp del: json_indent.simps)
qed

theorem event_round_trip_witness:
  "\<exists>ev e. envelope_json (event_envelope ''me'' [''t''] ''1'') = Some ev \<and> decode_envelope (PrettyJSON ev) = Some e \<and>
     decode_topics (se_info e) = Some \<lparr>st_ref = ''me'', st_topics = [''t'']\<rparr>"
proof -
  have ev: "envelope_json (event_envelope ''me'' [''t''] ''1'') = Some (event_json ''me'' [''t''] (Some (JNum ''1'')))"
    by (simp add: envelope_event pub_text_decoded(3))
  have u: "utf8_valid ''me''" "list_all utf8_valid [''t'']" by code_simp+
  show ?thesis using event_round_trip [OF ev u] ev by blast
qed

end
