(* ===== verification/Pubs_Broker.thy ===== *)
theory Pubs_Broker
  imports Pubs_Props Pubs_System
begin

text \<open>
  From a publication to the clients: the plugin \<open>pubs\<close> with the broker behind it. The broker
  (\<open>github.com/cskr/pubsub\<close>) is not part of the sources: it is the parameter \<open>deliver\<close>, what its channels
  have delivered after a sequence of calls, and \<open>broker_ok\<close> states what its documentation says of it.
\<close>

section \<open>The contract of the broker\<close>

text \<open>The topics to which a channel is subscribed after some calls, as they are documented; \<open>None\<close> before
  the channel is made and after it has lost its last topic, when the broker closes it.\<close>

fun subscribe :: "broker_call \<Rightarrow> nat \<Rightarrow> string set option \<Rightarrow> string set option" where
  "subscribe (Sub c t) ch T = (if c = ch then Some {t} else T)"
| "subscribe (AddSub c ts) ch T = (if c = ch then map_option (\<lambda>T. T \<union> set ts) T else T)"
| "subscribe (Unsub c ts) ch T =
     (if c = ch then (case T of None \<Rightarrow> None | Some T \<Rightarrow> if T - set ts = {} then None else Some (T - set ts)) else T)"
| "subscribe (UnsubAll c) ch T = (if c = ch then None else T)"
| "subscribe (Pub m ts) ch T = T"
| "subscribe Shutdown ch T = None"

definition subscribed :: "broker_call list \<Rightarrow> nat \<Rightarrow> string set option" where
  "subscribed calls ch = foldl (\<lambda>T c. subscribe c ch T) None calls"

text \<open>A message that is published reaches, at least once, every open channel that is subscribed to one of
  its topics, behind what was delivered before; an open channel that is not gets nothing of it; and no
  other call delivers anything to an open channel.\<close>

definition broker_ok :: "(broker_call list \<Rightarrow> nat \<Rightarrow> string list) \<Rightarrow> bool" where
  "broker_ok deliver \<longleftrightarrow> (\<forall>calls c ch T. subscribed calls ch = Some T \<longrightarrow>
     (\<exists>new. deliver (calls @ [c]) ch = deliver calls ch @ new \<and>
        set new = (case c of Pub m ts \<Rightarrow> if T \<inter> set ts = {} then {} else {m} | _ \<Rightarrow> {})))"

lemma subscribed_snoc: "subscribed (calls @ [c]) ch = subscribe c ch (subscribed calls ch)"
  by (simp add: subscribed_def)

lemma subscribe_other: "\<not> mentions ch c \<Longrightarrow> c \<noteq> Shutdown \<Longrightarrow> subscribe c ch T = T"
  by (cases c) auto

lemma subscribed_others:
  "\<forall>c \<in> set cs. \<not> mentions ch c \<and> c \<noteq> Shutdown \<Longrightarrow> subscribed (calls @ cs) ch = subscribed calls ch"
  by (induction cs rule: rev_induct) (simp_all add: append_assoc [symmetric] subscribed_snoc subscribe_other del: append_assoc)

lemma broker_okD:
  assumes "broker_ok deliver" and "subscribed calls ch = Some T"
  shows "\<exists>new. deliver (calls @ [Pub m ts]) ch = deliver calls ch @ new \<and> set new = (if T \<inter> set ts = {} then {} else {m})"
  using assms(1) [unfolded broker_ok_def, THEN spec, THEN spec, THEN spec, THEN spec, THEN mp, OF assms(2), of "Pub m ts"]
  by (simp only: broker_call.case)

lemma deliver_pub:
  assumes "broker_ok deliver" and "subscribed calls ch = Some T" and "T \<inter> set ts \<noteq> {}"
  shows "\<exists>k > 0. deliver (calls @ [Pub m ts]) ch = deliver calls ch @ replicate k m"
proof (rule exE [OF broker_okD [OF assms(1,2), of m ts]])
  fix new
  assume new: "deliver (calls @ [Pub m ts]) ch = deliver calls ch @ new \<and> set new = (if T \<inter> set ts = {} then {} else {m})"
  then have m: "set new = {m}" using assms(3) by simp
  then have "replicate (length new) m = new" by (intro replicate_length_same) simp
  moreover have "0 < length new" using m by (cases new) simp_all
  ultimately show ?thesis using new by (intro exI [of _ "length new"]) simp
qed

section \<open>While the others work\<close>

text \<open>Any number of steps, none of them of connection \<open>i\<close>.\<close>

inductive steps_of_others :: "pubs_config \<Rightarrow> nat \<Rightarrow> stream_sys \<Rightarrow> stream_sys \<Rightarrow> bool" for cfg i x where
  refl: "steps_of_others cfg i x x"
| step: "steps_of_others cfg i x y \<Longrightarrow> stream_step cfg a y z \<Longrightarrow> a \<noteq> Some i \<Longrightarrow> steps_of_others cfg i x z"

lemma steps_of_others_keep:
  assumes "steps_of_others cfg i x y" and "stream_inv cfg x" and "snd x i = Some c" and "cn_bound c = Some b"
  shows "stream_inv cfg y \<and> snd y i = Some c \<and>
    (\<exists>cs. ps_calls (fst y) = ps_calls (fst x) @ cs \<and> (\<forall>call \<in> set cs. \<not> mentions (binder_ch b) call))"
  using assms
proof (induction rule: steps_of_others.induct)
  case (step y a z)
  then have y: "stream_inv cfg y" "snd y i = Some c" by simp_all
  obtain s conns s' conns' where yz: "y = (s, conns)" "z = (s', conns')" by (metis surj_pair)
  have st: "stream_step cfg a (s, conns) (s', conns')" using step.hyps(2) yz by simp
  from stream_step_others [OF _ st, of i c b] y yz assms(4) step.hyps(3)
  obtain cs' where cs': "ps_calls s' = ps_calls s @ cs'" "\<forall>call \<in> set cs'. \<not> mentions (binder_ch b) call" "conns' i = Some c"
    by auto
  show ?case using step.IH step.prems cs' yz stream_step_inv [OF step.hyps(2) y(1)] by auto
qed simp

section \<open>Subscribing\<close>

lemma OnText_sub:
  assumes "cn_bound c = Some b" and "decode_envelope m = Some e" and "se_type e = streamEnvelopeTypeNameSub"
    and "se_info e \<noteq> []" and "decode_topics (se_info e) = Some td" and "st_topics td \<noteq> []"
    and "OnText ok m (s, c) = Returns ((s', c'), err)"
  shows "s' = broker (AddSub (binder_ch b) (st_topics td)) s" and "cn_bound c' = Some b"
  using assms by (auto simp: OnText_def onPubSub_def onSub_def with_binder_def RawSend_def Let_def split: option.splits if_splits)

text \<open>A subscription lasts while others work.\<close>

lemma subscription_lasts:
  assumes "stream_reach cfg (s0, conns)" and "conns i = Some c" and "cn_bound c = Some b"
    and "subscribed (ps_calls s0) (binder_ch b) \<noteq> None"
    and "decode_envelope m = Some e" and "se_type e = streamEnvelopeTypeNameSub"
    and "se_info e \<noteq> []" and "decode_topics (se_info e) = Some td" and "st_topics td \<noteq> []"
    and "OnText ok m (s0, c) = Returns ((s1, c1), None)"
    and "steps_of_others cfg i (s1, conns(i \<mapsto> c1)) (s2, conns2)" and "Shutdown \<notin> set (ps_calls s2)"
  shows "\<exists>T. subscribed (ps_calls s2) (binder_ch b) = Some (T \<union> set (st_topics td))"
proof -
  let ?ch = "binder_ch b"
  note sub = OnText_sub [OF assms(3,5-10)]
  obtain T where T: "subscribed (ps_calls s0) ?ch = Some T" using assms(4) by blast
  have T1: "subscribed (ps_calls s1) ?ch = Some (T \<union> set (st_topics td))"
    using sub(1) T by (simp add: subscribed_snoc)
  have "stream_step cfg (Some i) (s0, conns) (s1, conns(i \<mapsto> c1))"
    by (rule event [of conns i c ok "Message m" s0 s1 c1 None]) (use assms(2,10) in \<open>simp_all add: stream_event_def\<close>)
  then have inv: "stream_inv cfg (s1, conns(i \<mapsto> c1))"
    by (rule stream_step_inv [OF _ stream_reach_inv [OF assms(1)]])
  obtain cs where cs: "ps_calls s2 = ps_calls s1 @ cs" "\<forall>call \<in> set cs. \<not> mentions ?ch call"
    using steps_of_others_keep [OF assms(11) inv _ sub(2)] by auto
  then have "subscribed (ps_calls s2) ?ch = Some (T \<union> set (st_topics td))"
    using subscribed_others [of cs ?ch "ps_calls s1"] T1 assms(12) by auto
  then show ?thesis by blast
qed

text \<open>What a POST of JSON to a webhook publishes.\<close>

lemma publish_call:
  assumes "map_of vars ''token'' = Some token" and "map_of vars ''envelope'' = None" and "pc_decode cfg token = Some wd"
    and "\<not> has_form_body req" and "\<not> req_body_fail req" and "form_get (ParseForm req) ''validationToken'' = []"
    and "length (req_body req) \<le> maxRequestSize" and "json_parse (req_body req) = Some v"
    and "handleWebhookPublish cfg vars req (s, rw) = (s', rw')"
  shows "event_data (req_body req) = Some (Some (html_escape_val v))"
    and "s' = broker (Pub (PrettyJSON (event_json (td_id wd) [td_topic wd] (Some (html_escape_val v)))) [td_topic wd]) s"
proof -
  have "req_body req \<noteq> []" using assms(8) by (auto simp: json_parse_def json_first_def parse_fuel_def eval_nat_numeral)
  then show d: "event_data (req_body req) = Some (Some (html_escape_val v))" using assms(8) by (simp add: event_data_def)
  show "s' = broker (Pub (PrettyJSON (event_json (td_id wd) [td_topic wd] (Some (html_escape_val v)))) [td_topic wd]) s"
    using publish_eq [OF assms(1,3,6), of s rw] assms(2,4,5,7,9) d
    by (simp add: read_limited_def ParseForm_body with_envelope_def)
qed

lemma forward_all: "cn_sent (fst (forward (\<lambda>n. True) (map Some ms) c)) = cn_sent c @ ms"
  by (induction ms arbitrary: c) (simp_all add: RawSend_def Let_def)

section \<open>Properties\<close>

text \<open>C23: what is posted to a webhook arrives at the clients that asked for it. A client subscribes its stream
  to topics, one of which is that of the webhook, and gets no error; then any number of other connections,
  requests and clean-ups take their steps; then a POST with the token of the webhook and a body that is JSON
  of at most 5 KiB makes the broker deliver to the client's channel, at least once and behind what was there,
  an event. It reads back with the webhook's id as the source, its topic, and as its data the JSON that was
  posted; and the forwarder of the stream sends to the client what is delivered.\<close>

theorem webhook_reaches_subscriber:
  assumes "broker_ok deliver" and "stream_reach cfg (s0, conns)" and "conns i = Some c" and "cn_bound c = Some b"
    and "subscribed (ps_calls s0) (binder_ch b) \<noteq> None"
    and "decode_envelope m = Some e" and "se_type e = streamEnvelopeTypeNameSub"
    and "se_info e \<noteq> []" and "decode_topics (se_info e) = Some td" and "td_topic wd \<in> set (st_topics td)"
    and "OnText ok m (s0, c) = Returns ((s1, c1), None)"
    and "steps_of_others cfg i (s1, conns(i \<mapsto> c1)) (s2, conns2)" and "Shutdown \<notin> set (ps_calls s2)"
    and "map_of vars ''token'' = Some token" and "map_of vars ''envelope'' = None" and "pc_decode cfg token = Some wd"
    and "\<not> has_form_body req" and "\<not> req_body_fail req" and "form_get (ParseForm req) ''validationToken'' = []"
    and "length (req_body req) \<le> maxRequestSize" and "json_parse (req_body req) = Some v"
    and "utf8_valid (td_id wd)" and "utf8_valid (td_topic wd)"
    and "handleWebhookPublish cfg vars req (s2, rw) = (s3, rw3)"
  shows "\<exists>k ev env. 0 < k \<and>
    deliver (ps_calls s3) (binder_ch b) = deliver (ps_calls s2) (binder_ch b) @ replicate k ev \<and>
    decode_envelope ev = Some env \<and> se_type env = streamEnvelopeTypeEvent \<and>
    decode_topics (se_info env) = Some \<lparr>st_ref = td_id wd, st_topics = [td_topic wd]\<rparr> \<and>
    json_parse (se_data env) = Some (html_escape_val v) \<and>
    cn_sent (fst (forward (\<lambda>n. True) (map Some (replicate k ev)) c1)) = cn_sent c1 @ replicate k ev"
proof -
  let ?ch = "binder_ch b" and ?ev = "PrettyJSON (event_json (td_id wd) [td_topic wd] (Some (html_escape_val v)))"
  have ts: "st_topics td \<noteq> []" using assms(10) by auto
  obtain T where T: "subscribed (ps_calls s2) ?ch = Some (T \<union> set (st_topics td))"
    using subscription_lasts [OF assms(2-9) ts assms(11-13)] by blast
  note pub = publish_call [OF assms(14-21,24)]
  obtain k where k: "0 < k" "deliver (ps_calls s3) ?ch = deliver (ps_calls s2) ?ch @ replicate k ?ev"
    using deliver_pub [OF assms(1) T, of "[td_topic wd]" ?ev] assms(10) pub(2) by auto
  have "json_parse (json_indent 1 (html_escape_val v)) = Some (html_escape_val v)"
    by (rule json_parse_indent [OF wf_html_escape_val [OF json_parse_wf [OF assms(21)]]])
  then show ?thesis
    using k decode_event_print [OF pub(1), of "td_id wd" "[td_topic wd]"] decode_topics_print [of "td_id wd" "[td_topic wd]" 1]
      assms(22,23) by (intro exI [of _ k] exI [of _ ?ev]) (simp add: forward_all del: json_indent.simps map_replicate)
qed

text \<open>A broker that delivers at once.\<close>

definition sample_run :: "broker_call list \<Rightarrow> nat \<Rightarrow> string set option \<times> string list" where
  "sample_run calls ch = foldl (\<lambda>(T, out) c. (subscribe c ch T, out @ (case c of
     Pub m ts \<Rightarrow> (case T of None \<Rightarrow> [] | Some T \<Rightarrow> if \<exists>t \<in> set ts. t \<in> T then [m] else [])
   | _ \<Rightarrow> []))) (None, []) calls"

definition sample_deliver :: "broker_call list \<Rightarrow> nat \<Rightarrow> string list" where
  "sample_deliver calls ch = snd (sample_run calls ch)"

lemma sample_run_snoc:
  "sample_run (calls @ [c]) ch = (subscribe c ch (fst (sample_run calls ch)), snd (sample_run calls ch) @ (case c of
     Pub m ts \<Rightarrow> (case fst (sample_run calls ch) of None \<Rightarrow> [] | Some T \<Rightarrow> if \<exists>t \<in> set ts. t \<in> T then [m] else [])
   | _ \<Rightarrow> []))"
  unfolding sample_run_def by (simp add: case_prod_beta)

lemma sample_run_subscribed: "fst (sample_run calls ch) = subscribed calls ch"
  by (induction calls rule: rev_induct) (simp_all add: sample_run_def subscribed_def case_prod_beta)

lemma sample_deliver_ok: "broker_ok sample_deliver"
proof -
  have snoc: "sample_deliver (calls @ [c]) ch = sample_deliver calls ch @ (case c of
      Pub m ts \<Rightarrow> (case subscribed calls ch of None \<Rightarrow> [] | Some T \<Rightarrow> if \<exists>t \<in> set ts. t \<in> T then [m] else [])
    | _ \<Rightarrow> [])" for calls c ch
    by (simp only: sample_deliver_def sample_run_snoc sample_run_subscribed snd_conv)
  show ?thesis
    unfolding broker_ok_def snoc by (intro allI impI) (auto split: broker_call.split)
qed

definition sub_text :: string where
  "sub_text = ''{\"type\":\"sub\",\"info\":{\"topics\":[\"t\"]}}''"

lemma sub_text_decoded:
  "decode_envelope sub_text = Some \<lparr>se_type = ''sub'', se_data = [], se_info = ''{\"topics\":[\"t\"]}'', se_state = []\<rparr>"
  "decode_topics ''{\"topics\":[\"t\"]}'' = Some \<lparr>st_ref = [], st_topics = [''t'']\<rparr>"
  by code_simp+

text \<open>Connection 0 is open and subscribes to a topic; then connection 1 opens.\<close>

lemma sample_streams:
  "\<exists>s0 c bid s2 conns2. stream_reach pubs_sample_cfg (s0, [0 \<mapsto> c]) \<and> ps_calls s0 = [Sub 0 (pc_broadcast pubs_sample_cfg)] \<and>
     cn_bound c = Some \<lparr>binder_id = bid, binder_ch = 0\<rparr> \<and>
     OnText (\<lambda>n. True) sub_text (s0, c) = Returns ((broker (AddSub 0 [''t'']) s0, c), None) \<and>
     steps_of_others pubs_sample_cfg 0 (broker (AddSub 0 [''t'']) s0, [0 \<mapsto> c, 0 \<mapsto> c]) (s2, conns2) \<and>
     ps_calls s2 = ps_calls s0 @ [AddSub 0 [''t''], Sub 2 (pc_broadcast pubs_sample_cfg)]"
proof -
  obtain s0 c e0 bid where o: "OnConnect pubs_sample_cfg (\<lambda>n. True) (empty_state, new_conn) = Returns ((s0, c), e0)"
    and calls0: "ps_calls s0 = [Sub 0 (pc_broadcast pubs_sample_cfg)]" and b: "cn_bound c = Some \<lparr>binder_id = bid, binder_ch = 0\<rparr>"
    using open_connection [of pubs_sample_cfg "\<lambda>n. True" empty_state] by (auto simp: empty_state_def)
  let ?s1 = "broker (AddSub 0 [''t'']) s0" and ?conns = "[0 \<mapsto> c, 0 \<mapsto> c]"
  have "stream_step pubs_sample_cfg (Some 0) (empty_state, Map.empty) (s0, [0 \<mapsto> c])" by (rule opened) (use o in simp_all)
  then have r: "stream_reach pubs_sample_cfg (s0, [0 \<mapsto> c])" by (rule stream_reach_step [OF stream_reach_start])
  have t: "OnText (\<lambda>n. True) sub_text (s0, c) = Returns ((?s1, c), None)"
    using b sub_text_decoded by (simp add: OnText_def onPubSub_def onSub_def with_binder_def stream_types)
  obtain s2 d e1 where p: "OnConnect pubs_sample_cfg (\<lambda>n. True) (?s1, new_conn) = Returns ((s2, d), e1)"
    and calls2: "ps_calls s2 = ps_calls ?s1 @ [Sub 2 (pc_broadcast pubs_sample_cfg)]"
    using open_connection [of pubs_sample_cfg "\<lambda>n. True" ?s1] calls0 by (auto simp: numeral_2_eq_2)
  have "stream_step pubs_sample_cfg (Some 1) (?s1, ?conns) (s2, ?conns(1 \<mapsto> d))" by (rule opened) (use p in simp_all)
  then have "steps_of_others pubs_sample_cfg 0 (?s1, ?conns) (s2, ?conns(1 \<mapsto> d))"
    by (rule steps_of_others.step [OF steps_of_others.refl]) simp
  then show ?thesis using r calls0 b t calls2
    by (intro exI [of _ s0] exI [of _ c] exI [of _ bid] exI [of _ s2] exI [of _ "?conns(1 \<mapsto> d)"]) simp
qed

theorem webhook_reaches_subscriber_witness:
  "\<exists>s2 conns2 k ev. steps_of_others pubs_sample_cfg 0 s2 conns2 \<and> 0 < k \<and>
     sample_deliver (ps_calls (fst (handleWebhookPublish pubs_sample_cfg [(''id'', ''w''), (''token'', ''10wt'')]
       (pubs_request ''POST'' ''/'' ''{\"a\":1}'') (fst conns2, fresh_rw)))) 0 = replicate k ev"
proof -
  let ?req = "pubs_request ''POST'' ''/'' ''{\"a\":1}''" and ?vars = "[(''id'', ''w''), (''token'', ''10wt'')]"
  obtain s0 c bid s2 conns2 where r: "stream_reach pubs_sample_cfg (s0, [0 \<mapsto> c])"
    and calls0: "ps_calls s0 = [Sub 0 (pc_broadcast pubs_sample_cfg)]" and b: "cn_bound c = Some \<lparr>binder_id = bid, binder_ch = 0\<rparr>"
    and t: "OnText (\<lambda>n. True) sub_text (s0, c) = Returns ((broker (AddSub 0 [''t'']) s0, c), None)"
    and others: "steps_of_others pubs_sample_cfg 0 (broker (AddSub 0 [''t'']) s0, [0 \<mapsto> c, 0 \<mapsto> c]) (s2, conns2)"
    and calls2: "ps_calls s2 = ps_calls s0 @ [AddSub 0 [''t''], Sub 2 (pc_broadcast pubs_sample_cfg)]"
    using sample_streams by blast
  have open_ch: "subscribed (ps_calls s0) 0 = Some {pc_broadcast pubs_sample_cfg}"
    by (simp add: calls0 subscribed_def)
  have body: "req_body ?req = ''{\"a\":1}''" "\<not> req_body_fail ?req" by (simp_all add: pubs_request_def)
  have v: "json_parse ''{\"a\":1}'' = Some (JObj [(''a'', JNum ''1'')])" "utf8_valid ''w''" "utf8_valid ''t''"
    "sample_decode ''10wt'' = Some \<lparr>td_id = ''w'', td_topic = ''t''\<rparr>" by code_simp+
  have vt: "form_get (ParseForm ?req) ''validationToken'' = []" by (simp add: form_get_def pubs_request_form)
  have dec: "pc_decode pubs_sample_cfg ''10wt'' = Some \<lparr>td_id = ''w'', td_topic = ''t''\<rparr>" using v(4) by (simp add: pubs_sample_cfg_def)
  obtain s3 rw3 where h: "handleWebhookPublish pubs_sample_cfg ?vars ?req (s2, fresh_rw) = (s3, rw3)" by (metis surj_pair)
  have no_shut: "Shutdown \<notin> set (ps_calls s2)" by (simp add: calls2 calls0)
  have before: "sample_deliver (ps_calls s2) 0 = []" by (simp add: calls2 calls0 sample_deliver_def sample_run_def)
  have mem: "td_topic \<lparr>td_id = ''w'', td_topic = ''t''\<rparr> \<in> set (st_topics \<lparr>st_ref = [], st_topics = [''t'']\<rparr>)" by simp
  have u: "utf8_valid (td_id \<lparr>td_id = ''w'', td_topic = ''t''\<rparr>)" "utf8_valid (td_topic \<lparr>td_id = ''w'', td_topic = ''t''\<rparr>)"
    using v(2,3) by (simp_all only: webhookPubTokenData.select_convs)
  have "\<exists>k ev env. 0 < k \<and> sample_deliver (ps_calls s3) (binder_ch \<lparr>binder_id = bid, binder_ch = 0\<rparr>) =
      sample_deliver (ps_calls s2) (binder_ch \<lparr>binder_id = bid, binder_ch = 0\<rparr>) @ replicate k ev \<and>
    decode_envelope ev = Some env \<and> se_type env = streamEnvelopeTypeEvent \<and>
    decode_topics (se_info env) = Some \<lparr>st_ref = td_id \<lparr>td_id = ''w'', td_topic = ''t''\<rparr>, st_topics = [td_topic \<lparr>td_id = ''w'', td_topic = ''t''\<rparr>]\<rparr> \<and>
    json_parse (se_data env) = Some (html_escape_val (JObj [(''a'', JNum ''1'')])) \<and>
    cn_sent (fst (forward (\<lambda>n. True) (map Some (replicate k ev)) c)) = cn_sent c @ replicate k ev"
    by (rule webhook_reaches_subscriber [OF sample_deliver_ok r _ b _ sub_text_decoded(1) _ _ _ mem t others no_shut _ _ dec _ body(2) vt _ _ u h])
      (simp_all add: open_ch sub_text_decoded(2) stream_types body v(1) pubs_request_form maxRequestSize_def)
  then show ?thesis using others h before
    by (elim exE conjE)
      (intro exI conjI, assumption, assumption, simp)
qed

end
