(* ===== verification/Server_Props.thy ===== *)
theory Server_Props
  imports Server
begin

text \<open>What the sequence of \<open>Serve\<close> does, in closed form.\<close>

fun is_init :: "action \<Rightarrow> bool" where
  "is_init (InitPlugin i ok) = True"
| "is_init _ = False"

fun is_close :: "action \<Rightarrow> bool" where
  "is_close (ClosePlugin i) = True"
| "is_close _ = False"

text \<open>The plugins that start before the first that fails.\<close>

definition started :: "serve_env \<Rightarrow> nat" where
  "started env = length (takeWhile id (env_plugins env))"

definition all_started :: "serve_env \<Rightarrow> bool" where
  "all_started env \<longleftrightarrow> started env = length (env_plugins env)"

lemma init_plugins_eq:
  "init_plugins i oks =
     (let k = length (takeWhile id oks) in
      if k = length oks then (map (\<lambda>j. InitPlugin (i + j) True) [0..<k], None)
      else (map (\<lambda>j. InitPlugin (i + j) True) [0..<k] @ [InitPlugin (i + k) False], Some (i + k)))"
proof (induction i oks rule: init_plugins.induct)
  case (2 i ok oks)
  have shift: "map (\<lambda>j. InitPlugin (i + j) True) [0..<Suc k] = InitPlugin i True # map (\<lambda>j. InitPlugin (Suc i + j) True) [0..<k]" for k
    by (simp add: upt_conv_Cons map_Suc_upt [symmetric] del: upt_Suc)
  show ?case using 2 shift by (cases ok) (simp_all add: Let_def del: upt_Suc)
qed simp

lemma filter_inits [simp]:
  "filter is_init (map (\<lambda>j. InitPlugin (f j) True) xs) = map (\<lambda>j. InitPlugin (f j) True) xs"
  "filter is_close (map (\<lambda>j. InitPlugin (f j) True) xs) = []"
  "filter is_init (map ClosePlugin xs) = []" "filter is_close (map ClosePlugin xs) = map ClosePlugin xs"
  by (induction xs) simp_all

section \<open>Properties\<close>


end
