(* ===== verification/Server_Life.thy ===== *)
theory Server_Life
  imports Server Systems
begin

text \<open>
  The end of the server's life (\<open>src/server/server.go\<close>, \<open>Serve\<close> from the start of the listener on) with
  the goroutines that take part in it: \<open>Serve\<close> itself, the goroutine of the listener, and the
  goroutines of plugins that may report an error. They meet at the channel \<open>errCh\<close>, which holds two
  errors, and at \<open>exitCh\<close>, which the listener's goroutine closes.
\<close>

section \<open>States\<close>

text \<open>\<open>Serve\<close> waits for an error or a signal; shuts the listener down; closes the plugins, the next one
  being given; cancels the context and waits for the listener; has returned.\<close>

datatype main_pc = Waiting | Stopping | ClosingPlugins nat | WaitExit | Over

text \<open>The listener's goroutine accepts connections; has an error to send to \<open>errCh\<close> (\<open>srv.Serve\<close> never
  returns without one); has sent it and is to close \<open>exitCh\<close>; has ended.\<close>

datatype listener_pc = Accepting | Sending | Sent | Exited

text \<open>\<open>lf_err\<close> is the number of errors in the channel, \<open>lf_senders\<close> the number of plugin goroutines that
  may still send an error (each sends at most one), \<open>lf_closed\<close> the plugins that were closed.\<close>

record life =
  lf_main :: main_pc
  lf_listener :: listener_pc
  lf_err :: nat
  lf_senders :: nat
  lf_closed :: "nat list"

definition errCh_size :: nat where
  "errCh_size = 2"

definition life_start :: "nat \<Rightarrow> life" where
  "life_start senders = \<lparr>lf_main = Waiting, lf_listener = Accepting, lf_err = 0, lf_senders = senders, lf_closed = []\<rparr>"

section \<open>Steps\<close>

text \<open>The steps of the program; \<open>n\<close> is the number of plugins. The arrival of signals is separate: the
  first one is handled by \<open>first_signal\<close>, and \<open>second_signal\<close> is what ends the wait for the listener
  by force.\<close>

inductive life_step :: "nat \<Rightarrow> life \<Rightarrow> life \<Rightarrow> bool" for n where
  accept_fails: "lf_listener s = Accepting \<Longrightarrow> life_step n s (s\<lparr>lf_listener := Sending\<rparr>)"
| listener_sends: "lf_listener s = Sending \<Longrightarrow> lf_err s < errCh_size \<Longrightarrow>
    life_step n s (s\<lparr>lf_listener := Sent, lf_err := Suc (lf_err s)\<rparr>)"
| listener_exits: "lf_listener s = Sent \<Longrightarrow> life_step n s (s\<lparr>lf_listener := Exited\<rparr>)"
| plugin_sends: "lf_senders s = Suc k \<Longrightarrow> lf_err s < errCh_size \<Longrightarrow>
    life_step n s (s\<lparr>lf_senders := k, lf_err := Suc (lf_err s)\<rparr>)"
| error_received: "lf_main s = Waiting \<Longrightarrow> lf_err s = Suc k \<Longrightarrow>
    life_step n s (s\<lparr>lf_main := Stopping, lf_err := k\<rparr>)"
| shut_down: "lf_main s = Stopping \<Longrightarrow>
    life_step n s (s\<lparr>lf_main := ClosingPlugins 0,
      lf_listener := (if lf_listener s = Accepting then Sending else lf_listener s)\<rparr>)"
| close_plugin: "lf_main s = ClosingPlugins i \<Longrightarrow> i < n \<Longrightarrow>
    life_step n s (s\<lparr>lf_main := ClosingPlugins (Suc i), lf_closed := lf_closed s @ [i]\<rparr>)"
| cancelled: "lf_main s = ClosingPlugins i \<Longrightarrow> n \<le> i \<Longrightarrow> life_step n s (s\<lparr>lf_main := WaitExit\<rparr>)"
| exit_seen: "lf_main s = WaitExit \<Longrightarrow> lf_listener s = Exited \<Longrightarrow> life_step n s (s\<lparr>lf_main := Over\<rparr>)"

inductive signal_step :: "life \<Rightarrow> life \<Rightarrow> bool" where
  first_signal: "lf_main s = Waiting \<Longrightarrow> signal_step s (s\<lparr>lf_main := Stopping\<rparr>)"
| second_signal: "lf_main s = WaitExit \<Longrightarrow> signal_step s (s\<lparr>lf_main := Over\<rparr>)"

definition life_any :: "nat \<Rightarrow> life \<Rightarrow> life \<Rightarrow> bool" where
  "life_any n s t \<longleftrightarrow> life_step n s t \<or> signal_step s t"

definition life_reach :: "nat \<Rightarrow> nat \<Rightarrow> life \<Rightarrow> bool" where
  "life_reach n senders s \<longleftrightarrow> (life_any n)\<^sup>*\<^sup>* (life_start senders) s"

lemma life_reach_start: "life_reach n senders (life_start senders)"
  by (simp add: life_reach_def)

lemma life_reach_step: "life_reach n senders s \<Longrightarrow> life_step n s t \<Longrightarrow> life_reach n senders t"
  unfolding life_reach_def by (erule rtranclp.rtrancl_into_rtrancl) (simp add: life_any_def)

lemma life_reach_signal: "life_reach n senders s \<Longrightarrow> signal_step s t \<Longrightarrow> life_reach n senders t"
  unfolding life_reach_def by (erule rtranclp.rtrancl_into_rtrancl) (simp add: life_any_def)

inductive_cases life_stepE: "life_step n s s'"
inductive_cases signal_stepE: "signal_step s s'"

text \<open>Nothing but a signal can move the server.\<close>

definition stuck :: "nat \<Rightarrow> life \<Rightarrow> bool" where
  "stuck n s \<longleftrightarrow> (\<nexists>s'. life_step n s s')"

section \<open>Invariants\<close>

text \<open>How many of the errors sent are still in the channel: one was received unless a signal came first;
  the listener's counts once it is sent.\<close>

definition life_inv :: "nat \<Rightarrow> nat \<Rightarrow> life \<Rightarrow> bool" where
  "life_inv n senders s \<longleftrightarrow>
     lf_err s \<le> errCh_size \<and>
     lf_err s + lf_senders s \<le> senders + (if lf_listener s \<in> {Sent, Exited} then 1 else 0) \<and>
     (lf_main s \<notin> {Waiting, Stopping} \<longrightarrow> lf_listener s \<noteq> Accepting) \<and>
     (case lf_main s of
        Waiting \<Rightarrow> lf_closed s = []
      | Stopping \<Rightarrow> lf_closed s = []
      | ClosingPlugins i \<Rightarrow> i \<le> n \<and> lf_closed s = [0..<i]
      | _ \<Rightarrow> lf_closed s = [0..<n])"

lemma life_inv_start: "life_inv n senders (life_start senders)"
  by (simp add: life_inv_def life_start_def)

lemma life_inv_step:
  assumes "life_step n s s'" and "life_inv n senders s"
  shows "life_inv n senders s'"
  using assms by (cases rule: life_step.cases) (auto simp: life_inv_def split: main_pc.splits if_splits)

lemma life_inv_signal:
  assumes "signal_step s s'" and "life_inv n senders s"
  shows "life_inv n senders s'"
  using assms by (cases rule: signal_step.cases) (auto simp: life_inv_def split: if_splits)

text \<open>Every step of the program uses something up.\<close>

definition main_rank :: "nat \<Rightarrow> main_pc \<Rightarrow> nat" where
  "main_rank n pc = (case pc of Waiting \<Rightarrow> n + 4 | Stopping \<Rightarrow> n + 3 | ClosingPlugins i \<Rightarrow> (n - i) + 2
     | WaitExit \<Rightarrow> 1 | Over \<Rightarrow> 0)"

definition listener_rank :: "listener_pc \<Rightarrow> nat" where
  "listener_rank pc = (case pc of Accepting \<Rightarrow> 3 | Sending \<Rightarrow> 2 | Sent \<Rightarrow> 1 | Exited \<Rightarrow> 0)"

definition life_rank :: "nat \<Rightarrow> life \<Rightarrow> nat" where
  "life_rank n s = main_rank n (lf_main s) + listener_rank (lf_listener s) + lf_senders s"

lemma life_step_rank: "life_step n s s' \<Longrightarrow> life_rank n s' < life_rank n s"
  by (erule life_step.cases)
    (auto simp: life_rank_def main_rank_def listener_rank_def split: main_pc.splits listener_pc.splits)

lemma signal_step_rank: "signal_step s s' \<Longrightarrow> life_rank n s' < life_rank n s"
  by (erule signal_step.cases) (simp_all add: life_rank_def main_rank_def)

interpretation life: ranked_system "\<lambda>s. s = life_start senders" "life_any n" "life_inv n senders" "life_rank n"
  for n senders :: nat
  by unfold_locales
    (auto simp: life_any_def intro: life_inv_start life_inv_step life_inv_signal life_step_rank signal_step_rank)

lemma life_reach_inv: "life_reach n senders s \<Longrightarrow> life_inv n senders s"
  unfolding life_reach_def by (rule life.inv_reach [OF refl])

lemma not_stuck:
  assumes "life_inv n senders s" and "senders \<le> 1" and "lf_main s \<notin> {Waiting, Over}"
  shows "\<not> stuck n s"
proof (cases "lf_main s")
  case Stopping
  then show ?thesis unfolding stuck_def by (blast intro: shut_down)
next
  case (ClosingPlugins i)
  then show ?thesis unfolding stuck_def by (cases "i < n") (blast intro: close_plugin, metis cancelled not_less)
next
  case WaitExit
  show ?thesis
  proof (cases "lf_listener s")
    case Accepting
    then show ?thesis unfolding stuck_def by (blast intro: accept_fails)
  next
    case Sending
    then have "lf_err s < errCh_size" using assms by (auto simp: life_inv_def errCh_size_def)
    then show ?thesis using Sending unfolding stuck_def by (blast intro: listener_sends)
  next
    case Sent
    then show ?thesis unfolding stuck_def by (blast intro: listener_exits)
  next
    case Exited
    then show ?thesis using WaitExit unfolding stuck_def by (blast intro: exit_seen)
  qed
qed (use assms in auto)

text \<open>With at most one goroutine that reports an error, a server that has begun to stop always finishes.\<close>

interpretation stopping: finishing_system "\<lambda>s. senders \<le> 1 \<and> life_inv n senders s \<and> lf_main s \<noteq> Waiting" "life_step n"
  "\<lambda>s. senders \<le> 1 \<and> life_inv n senders s \<and> lf_main s \<noteq> Waiting" "life_rank n" "\<lambda>s. lf_main s = Over"
  for n senders :: nat
proof unfold_locales
  fix s t
  assume st: "life_step n s t" and inv: "senders \<le> 1 \<and> life_inv n senders s \<and> lf_main s \<noteq> Waiting"
  then show "senders \<le> 1 \<and> life_inv n senders t \<and> lf_main t \<noteq> Waiting"
    using life_inv_step [OF st] by (auto elim: life_stepE)
  show "life_rank n t < life_rank n s" using st by (rule life_step_rank)
next
  fix s
  assume "senders \<le> 1 \<and> life_inv n senders s \<and> lf_main s \<noteq> Waiting" and "lf_main s \<noteq> Over"
  then show "\<exists>t. life_step n s t" using not_stuck [of n senders s] by (auto simp: stuck_def)
qed

text \<open>Two plugins report errors after a signal, and the listener cannot report its own.\<close>

definition hung :: "nat \<Rightarrow> nat \<Rightarrow> life" where
  "hung n senders = \<lparr>lf_main = WaitExit, lf_listener = Sending, lf_err = 2, lf_senders = senders - 2, lf_closed = [0..<n]\<rparr>"

lemma closing_reach:
  assumes "life_reach n senders (\<lparr>lf_main = ClosingPlugins 0, lf_listener = l, lf_err = e, lf_senders = k, lf_closed = []\<rparr>)"
  shows "i \<le> n \<Longrightarrow> life_reach n senders (\<lparr>lf_main = ClosingPlugins i, lf_listener = l, lf_err = e, lf_senders = k, lf_closed = [0..<i]\<rparr>)"
proof (induction i)
  case (Suc i)
  let ?s = "\<lparr>lf_main = ClosingPlugins i, lf_listener = l, lf_err = e, lf_senders = k, lf_closed = [0..<i]\<rparr>"
  have "life_step n ?s (?s\<lparr>lf_main := ClosingPlugins (Suc i), lf_closed := lf_closed ?s @ [i]\<rparr>)"
    by (rule close_plugin) (use Suc.prems in simp_all)
  from life_reach_step [OF Suc.IH this] Suc.prems show ?case by simp
qed (use assms in simp)

lemma hung_reach:
  assumes "2 \<le> senders"
  shows "life_reach n senders (hung n senders)"
proof -
  obtain k where k: "senders = Suc (Suc k)" using le_Suc_ex [OF assms] by auto
  let ?s = "\<lambda>m l e j c. \<lparr>lf_main = m, lf_listener = l, lf_err = e, lf_senders = j, lf_closed = c\<rparr>"
  have start: "life_reach n senders (?s Waiting Accepting 0 (Suc (Suc k)) [])"
    using life_reach_start [of n senders] k by (simp add: life_start_def)
  have a: "life_reach n senders (?s Stopping Accepting 0 (Suc (Suc k)) [])"
    using life_reach_signal [OF start] first_signal [of "?s Waiting Accepting 0 (Suc (Suc k)) []"] by simp
  have b: "life_reach n senders (?s Stopping Accepting 1 (Suc k) [])"
    using life_reach_step [OF a plugin_sends [of _ "Suc k"]] by (simp add: errCh_size_def)
  have c: "life_reach n senders (?s Stopping Accepting 2 k [])"
    using life_reach_step [OF b plugin_sends [of _ k]] by (simp add: errCh_size_def numeral_2_eq_2)
  have d: "life_reach n senders (?s (ClosingPlugins 0) Sending 2 k [])"
    using life_reach_step [OF c shut_down] by simp
  have e: "life_reach n senders (?s (ClosingPlugins n) Sending 2 k [0..<n])"
    by (rule closing_reach [OF d order.refl])
  have "life_reach n senders (?s WaitExit Sending 2 k [0..<n])"
    using life_reach_step [OF e cancelled [of _ n]] by simp
  then show ?thesis using k by (simp add: hung_def)
qed

lemma hung_stuck: "stuck n (hung n senders)"
  by (auto simp: stuck_def hung_def errCh_size_def elim: life_step.cases)

section \<open>Properties\<close>

text \<open>Whatever the goroutines do, in whatever order, every plugin is closed at most once, in the order
  in which they were started, and all of them before \<open>Serve\<close> returns.\<close>

theorem shutdown_closes_plugins:
  assumes "life_reach n senders s"
  shows "\<exists>k \<le> n. lf_closed s = [0..<k] \<and> (lf_main s = Over \<longrightarrow> k = n)"
  using life_reach_inv [OF assms] by (cases "lf_main s") (auto simp: life_inv_def intro: exI [of _ 0])

theorem shutdown_closes_plugins_witness:
  "\<exists>s. life_reach 3 0 s \<and> lf_main s = Stopping \<and> (\<exists>k \<le> 3. lf_closed s = [0..<k])"
proof -
  let ?s = "(life_start 0)\<lparr>lf_main := Stopping\<rparr>"
  have r: "life_reach 3 0 ?s" by (rule life_reach_signal [OF life_reach_start first_signal]) (simp add: life_start_def)
  show ?thesis using shutdown_closes_plugins [OF r] r by (auto intro!: exI [of _ ?s])
qed

text \<open>With at most one such goroutine a server that stops, whatever it has done before, closes its plugins
  and returns, and every run of its steps that is long enough has done so.\<close>

theorem shutdown_finishes:
  assumes "life_reach n senders s" and "senders \<le> 1" and "lf_main s \<noteq> Waiting"
  shows "\<exists>t. (life_step n)\<^sup>*\<^sup>* s t \<and> lf_main t = Over"
    and "(life_step n ^^ k) s t \<Longrightarrow> life_rank n s \<le> k \<Longrightarrow> lf_main t = Over"
  using stopping.finishes stopping.long_run_final life_reach_inv [OF assms(1)] assms(2,3) by blast+

text \<open>C33: the shutdown can get stuck, waiting for a listener that cannot report its end, exactly when two or
  more plugin goroutines can report an error: the channel holds two errors and nobody reads it any
  more. And the life of a server is bounded: whatever happens, in whatever order, it takes no more steps than
  seven, one for each plugin and one for each such goroutine.\<close>

theorem shutdown_hangs_iff:
  "(\<exists>s. life_reach n senders s \<and> stuck n s \<and> lf_main s \<noteq> Waiting \<and> lf_main s \<noteq> Over) = (2 \<le> senders) \<and>
   \<not> (\<exists>k s. n + senders + 7 < k \<and> (life_any n ^^ k) (life_start senders) s)"
proof (intro conjI iffI)
  assume "\<exists>s. life_reach n senders s \<and> stuck n s \<and> lf_main s \<noteq> Waiting \<and> lf_main s \<noteq> Over"
  then show "2 \<le> senders" using not_stuck life_reach_inv by fastforce
next
  assume "2 \<le> senders"
  then show "\<exists>s. life_reach n senders s \<and> stuck n s \<and> lf_main s \<noteq> Waiting \<and> lf_main s \<noteq> Over"
    using hung_reach [of senders n] hung_stuck [of n senders]
    by (intro exI [of _ "hung n senders"]) (simp add: hung_def)
next
  have "life_rank n (life_start senders) = n + senders + 7"
    by (simp add: life_rank_def life_start_def main_rank_def listener_rank_def)
  then show "\<not> (\<exists>k s. n + senders + 7 < k \<and> (life_any n ^^ k) (life_start senders) s)"
    using life.run_bounded [OF refl] by fastforce
qed

end
