(* ===== verification/Grapi.thy ===== *)
theory Grapi
  imports Sticky
begin

text \<open>
  The plugin \<open>grapi\<close> (\<open>src/plugins/grapi/plugin.go\<close>, \<open>auth.go\<close>, \<open>proxy.go\<close>): routing to the two proxies,
  the headers that tell the workers behind them who the user is, the search for the workers' sockets,
  and the setup from the environment.
\<close>

section \<open>Who the user is\<close>

definition entryIDRequestHeaderName :: string where
  "entryIDRequestHeaderName = ''X-Kopano-UserEntryID''"

definition usernameRequestHeaderName :: string where
  "usernameRequestHeaderName = ''X-Kopano-Username''"

text \<open>\<open>injectAuthIntoRequestHeaders\<close>: the request with its headers, and whether there is no error. The
  headers are changed also when there is one.\<close>

definition injectAuthIntoRequestHeaders :: "request \<Rightarrow> request \<times> bool" where
  "injectAuthIntoRequestHeaders req =
     (case RecordFromContext (req_ctx req) of
        (None, _) \<Rightarrow> (req, False)
      | (Some r, _) \<Rightarrow>
          (let h = req_header req; uid = AuthenticatedUserID r;
               (uid, h, ok) =
                 (case ExtraClaims r of
                    Some claims \<Rightarrow>
                      (let (kcIDUserID, kcIDUsername) = KCIDFromClaims claims;
                           uid = (if kcIDUserID \<noteq> [] then kcIDUserID else uid)
                       in if kcIDUsername \<noteq> []
                          then (uid, header_set h usernameRequestHeaderName kcIDUsername, True)
                          else (uid, h, False))
                  | None \<Rightarrow> (uid, header_del h usernameRequestHeaderName, True))
           in (req\<lparr>req_header := header_set h entryIDRequestHeaderName uid\<rparr>, ok)))"

section \<open>Requests\<close>

text \<open>The proxies are nil until their sockets were found; a request uses the ones it finds.\<close>

record 's grapi_config =
  gr_oidc :: oidc
  gr_default :: "'s proxy_handler option"
  gr_subscription :: "'s proxy_handler option"
  gr_cors :: "('s handler \<Rightarrow> 's handler) option"
  gr_scopes :: "string list"
  gr_v0 :: bool

definition grapi_scopesRequired :: "string list" where
  "grapi_scopesRequired = [''profile'', ''email'', ''kopano/gc'']"

definition handleNoProxy :: "'s handler" where
  "handleNoProxy req srw = Returns (fst srw, http_error [] 502 (snd srw))"

definition handleProxied :: "'s proxy_handler option \<Rightarrow> 's handler" where
  "handleProxied proxy req srw =
     (case injectAuthIntoRequestHeaders req of
        (req, False) \<Rightarrow> Returns (fst srw, http_error [] 403 (snd srw))
      | (req, True) \<Rightarrow> HandleWithProxy proxy handleNoProxy req srw)"

definition handleDefaultV1 :: "'s grapi_config \<Rightarrow> 's handler" where
  "handleDefaultV1 cfg = handleProxied (gr_default cfg)"

definition handleSubscriptionsV1 :: "'s grapi_config \<Rightarrow> 's handler" where
  "handleSubscriptionsV1 cfg = handleProxied (gr_subscription cfg)"

definition v1_subscriptions :: string where "v1_subscriptions = ''/api/gc/v1/subscriptions''"
definition v0_subscriptions :: string where "v0_subscriptions = ''/api/gc/v0/subscriptions''"
definition v1_base :: string where "v1_base = ''/api/gc/v1/''"
definition v0_base :: string where "v0_base = ''/api/gc/v0/''"

definition rewrite_v0 :: "request \<Rightarrow> request" where
  "rewrite_v0 req = req\<lparr>req_path := replace1 v0_base v1_base (req_path req)\<rparr>"

text \<open>The handler for a path, with the request as it goes to the handler.\<close>

definition grapi_route :: "'s grapi_config \<Rightarrow> request \<Rightarrow> ('s handler \<times> request) option" where
  "grapi_route cfg req =
     (let path = req_path req in
      if has_prefix path v1_subscriptions
      then Some (AccessTokenRequired (gr_oidc cfg) (handleSubscriptionsV1 cfg) (gr_scopes cfg), req)
      else if gr_v0 cfg \<and> has_prefix path v0_subscriptions
      then Some (AccessTokenRequired (gr_oidc cfg) (handleSubscriptionsV1 cfg) [], rewrite_v0 req)
      else if has_prefix path v1_base
      then Some (AccessTokenRequired (gr_oidc cfg) (handleDefaultV1 cfg) (gr_scopes cfg), req)
      else if gr_v0 cfg \<and> has_prefix path v0_base
      then Some (AccessTokenRequired (gr_oidc cfg) (handleDefaultV1 cfg) [], rewrite_v0 req)
      else None)"

definition grapi_ServeHTTP :: "'s grapi_config \<Rightarrow> 's plugin" where
  "grapi_ServeHTTP cfg req srw =
     (case grapi_route cfg req of
        None \<Rightarrow> Returns (srw, False, False)
      | Some (h, req) \<Rightarrow>
          obind ((case gr_cors cfg of None \<Rightarrow> h | Some wrap \<Rightarrow> wrap h) req srw)
            (\<lambda>srw'. Returns (srw', True, False)))"

definition grapi_owns :: "'s grapi_config \<Rightarrow> request \<Rightarrow> bool" where
  "grapi_owns cfg req \<longleftrightarrow>
     has_prefix (req_path req) v1_subscriptions \<or> has_prefix (req_path req) v1_base \<or>
     gr_v0 cfg \<and> (has_prefix (req_path req) v0_subscriptions \<or> has_prefix (req_path req) v0_base)"

interpretation grapi_path: answering_plugin "grapi_ServeHTTP cfg" "grapi_owns cfg"
  for cfg :: "'s grapi_config"
  by standard
    (auto simp: grapi_ServeHTTP_def grapi_route_def grapi_owns_def Let_def obind_eq_Returns
      split: if_splits)

section \<open>Looking for the workers\<close>

text \<open>
  \<open>initializeProxy\<close>: the list is what the directory shows each time it is looked at, with a wait of
  a second after each; behind the list the plugin is closed or its context done. The first look
  that finds sockets only says so; the next one that finds some builds the proxy from what it finds.
\<close>

datatype look = NoDirectory | GlobFailed | Found "string list"

fun initializeProxy :: "(string list \<Rightarrow> 'e + 'p) \<Rightarrow> look list \<Rightarrow> bool \<Rightarrow> 'e + 'p option" where
  "initializeProxy newp [] ini = Inr None"
| "initializeProxy newp (Found (p # ps) # ls) ini =
     (if ini then map_sum id Some (newp (p # ps)) else initializeProxy newp ls True)"
| "initializeProxy newp (_ # ls) ini = initializeProxy newp ls ini"

definition restProxyConfiguration :: configuration where
  "restProxyConfiguration = \<lparr>Policy = ''header '' @ entryIDRequestHeaderName,
     FailTimeout = 500 * 1000000, MaxFails = 1, MaxConns = 0, Keepalive = 100,
     TryDuration = 1000 * 1000000, TryInterval = 50 * 1000000, StickyRule = ''nocache'', Extra = []\<rparr>"

text \<open>The two goroutines of \<open>Initialize\<close>: each looks for its sockets and sets its proxy, or has an error
  for the server (\<open>errCh\<close>), or ends without either when the plugin is closed.\<close>

definition grapi_newProxy ::
  "(string \<Rightarrow> 's proxy_handler option) \<Rightarrow> ('s \<Rightarrow> string) \<Rightarrow> string list \<Rightarrow> proxy_error + 's proxy_handler" where
  "grapi_newProxy upstreams rnd sockets = NewProxy upstreams sockets (Some restProxyConfiguration) rnd"

definition enable_default ::
  "(string list \<Rightarrow> 'e + 's proxy_handler) \<Rightarrow> look list \<Rightarrow> 's grapi_config \<Rightarrow> 's grapi_config \<times> 'e option" where
  "enable_default newp ls cfg =
     (case initializeProxy newp ls False of
        Inl err \<Rightarrow> (cfg, Some err)
      | Inr None \<Rightarrow> (cfg, None)
      | Inr (Some pr) \<Rightarrow> (cfg\<lparr>gr_default := Some pr\<rparr>, None))"

definition enable_subscription ::
  "(string list \<Rightarrow> 'e + 's proxy_handler) \<Rightarrow> look list \<Rightarrow> 's grapi_config \<Rightarrow> 's grapi_config \<times> 'e option" where
  "enable_subscription newp ls cfg =
     (case initializeProxy newp ls False of
        Inl err \<Rightarrow> (cfg, Some err)
      | Inr None \<Rightarrow> (cfg, None)
      | Inr (Some pr) \<Rightarrow> (cfg\<lparr>gr_subscription := Some pr\<rparr>, None))"

text \<open>\<open>Close\<close> closes the channel that ends the search; a second time panics. The state is whether it is
  closed.\<close>

definition grapi_Close :: "bool \<Rightarrow> bool outcome" where
  "grapi_Close exitCh_closed = (if exitCh_closed then Panics ''close of closed channel'' else Returns True)"

section \<open>Setting up\<close>

text \<open>What \<open>Initialize\<close> reads from the environment; \<open>abs_path\<close> is \<open>filepath.Abs\<close>.\<close>

datatype grapi_error = SocketsUnset | SocketsInvalid

record grapi_setup =
  gs_sockets :: string
  gs_cors :: bool
  gs_scopes :: "string list"
  gs_v0 :: bool

definition grapi_Initialize ::
  "(string \<Rightarrow> string option) \<Rightarrow> (string \<Rightarrow> string) \<Rightarrow> grapi_error + grapi_setup" where
  "grapi_Initialize abs_path getenv =
     (let socketPath = getenv ''KOPANO_GRAPI_SOCKETS'' in
      if socketPath = [] then Inl SocketsUnset
      else (case abs_path socketPath of
              None \<Rightarrow> Inl SocketsInvalid
            | Some p \<Rightarrow>
                (let scopes = getenv ''KOPANO_GRAPI_REQUIRED_SCOPES'' in
                 Inr \<lparr>gs_sockets = p, gs_cors = (getenv ''KOPANO_GRAPI_ALLOW_CORS'' = ''1''),
                   gs_scopes = (if scopes \<noteq> [] then split_all (CHR '' '') scopes else grapi_scopesRequired),
                   gs_v0 = (getenv ''KOPANO_GRAPI_ENABLE_API_V0'' = ''1'')\<rparr>)))"

section \<open>Facts\<close>

lemma header_names: "canonical_key entryIDRequestHeaderName \<noteq> canonical_key usernameRequestHeaderName"
  by code_simp

text \<open>The user and the name a record stands for.\<close>

definition worker_user :: "auth_record \<Rightarrow> string" where
  "worker_user r =
     (case ExtraClaims r of
        Some claims \<Rightarrow> if fst (KCIDFromClaims claims) \<noteq> [] then fst (KCIDFromClaims claims) else AuthenticatedUserID r
      | None \<Rightarrow> AuthenticatedUserID r)"

definition worker_name :: "auth_record \<Rightarrow> string" where
  "worker_name r = (case ExtraClaims r of Some claims \<Rightarrow> snd (KCIDFromClaims claims) | None \<Rightarrow> [])"

definition user_headers :: "string set" where
  "user_headers = {canonical_key entryIDRequestHeaderName, canonical_key usernameRequestHeaderName}"

lemma other_headers:
  "header_set h entryIDRequestHeaderName v |` (- user_headers) = h |` (- user_headers)"
  "header_set h usernameRequestHeaderName v |` (- user_headers) = h |` (- user_headers)"
  "header_del h usernameRequestHeaderName |` (- user_headers) = h |` (- user_headers)"
  by (auto simp: restrict_map_def user_headers_def header_set_def header_del_def)

lemma inject_ok:
  assumes "injectAuthIntoRequestHeaders req = (req', True)"
  shows "\<exists>r. req_ctx req = Some r \<and> req' = req\<lparr>req_header := req_header req'\<rparr> \<and>
    header_get (req_header req') entryIDRequestHeaderName = worker_user r \<and>
    header_get (req_header req') usernameRequestHeaderName = worker_name r \<and>
    req_header req' |` (- user_headers) = req_header req |` (- user_headers)"
proof (cases "req_ctx req")
  case (Some r)
  show ?thesis
  proof (cases "ExtraClaims r")
    case None
    then show ?thesis using assms Some header_names
      by (auto simp: injectAuthIntoRequestHeaders_def worker_user_def worker_name_def header_get_set
          header_get_set_other header_get_del header_get_del_other other_headers)
  next
    case (Some claims)
    then show ?thesis using assms \<open>req_ctx req = Some r\<close> header_names
      by (auto simp: injectAuthIntoRequestHeaders_def worker_user_def worker_name_def header_get_set
          header_get_set_other Let_def other_headers split: prod.splits if_splits)
  qed
qed (use assms in \<open>simp add: injectAuthIntoRequestHeaders_def\<close>)

text \<open>The looks that found sockets.\<close>

fun found :: "look list \<Rightarrow> string list list" where
  "found [] = []"
| "found (Found (p # ps) # ls) = (p # ps) # found ls"
| "found (_ # ls) = found ls"

lemma initializeProxy_again:
  "initializeProxy newp ls True = (case found ls of [] \<Rightarrow> Inr None | ps # _ \<Rightarrow> map_sum id Some (newp ps))"
  by (induction ls rule: found.induct) simp_all

lemma handleProxied_no_user: "req_ctx req = None \<Longrightarrow> handleProxied p req srw = Returns (fst srw, http_error [] 403 (snd srw))"
  by (simp add: handleProxied_def injectAuthIntoRequestHeaders_def)

section \<open>Properties\<close>



text \<open>A provider whose tokens carry the Kopano claims, and a proxy that counts its requests.\<close>

definition grapi_sample_cfg :: "nat grapi_config" where
  "grapi_sample_cfg = \<lparr>gr_oidc = sample_oidc\<lparr>validate := (\<lambda>t. if t = ''good''
       then (''alice'', None, Some [(''kc.identity'', CMap [(''kc.i.un'', CStr ''alice@example'')])], True)
       else ([], None, None, False))\<rparr>,
     gr_default = Some (\<lambda>req (s, rw). Returns ((Suc s, rw), 0, True)), gr_subscription = None,
     gr_cors = None, gr_scopes = grapi_scopesRequired, gr_v0 = False\<rparr>"

definition grapi_sample_req :: request where
  "grapi_sample_req = \<lparr>req_method = ''GET'', req_path = ''/api/gc/v1/me'', req_rawquery = [],
     req_header = [''Authorization'' \<mapsto> [''Bearer good'']], req_cookies = [], req_body = [],
     req_body_fail = False, req_form = [], req_ctx = None\<rparr>"

lemma grapi_sample_served:
  "AddContext None (ServeHTTP [grapi_ServeHTTP grapi_sample_cfg]) grapi_sample_req (0, fresh_rw) = Returns (1, fresh_rw)"
proof -
  have auth: "header_get [''Authorization'' \<mapsto> [''Bearer good'']] ''Authorization'' = ''Bearer good''"
    by code_simp
  have path: "has_prefix ''/api/gc/v1/me'' v1_base" "\<not> has_prefix ''/api/gc/v1/me'' v1_subscriptions"
    by code_simp+
  have tok: "splitN2 (CHR '' '') ''Bearer good'' = [''Bearer'', ''good'']"
    by code_simp
  have un: "KCIDFromClaims [(''kc.identity'', CMap [(''kc.i.un'', CStr ''alice@example'')])] = ([], ''alice@example'')"
    by code_simp
  show ?thesis
    by (simp add: AddContext_def ServeHTTP_def grapi_ServeHTTP_def grapi_route_def grapi_sample_req_def
        grapi_sample_cfg_def path AccessTokenRequired_def check_access_def bearer_token_def auth tok
        sample_oidc_def handleDefaultV1_def handleProxied_def injectAuthIntoRequestHeaders_def
        ContextWithRecord_def un HandleWithProxy_def)
qed


text \<open>The proxy is made from what the second look that finds sockets finds, so that sockets which are
  just being created are not missed; with fewer such looks before the plugin is closed there is
  none.\<close>

theorem proxy_from_second_look:
  "initializeProxy newp ls False =
     (case found ls of _ # ps # _ \<Rightarrow> map_sum id Some (newp ps) | _ \<Rightarrow> Inr None)"
  by (induction ls rule: found.induct) (simp_all add: initializeProxy_again split: list.split)

end
