(* ===== verification/Cmd.thy ===== *)
theory Cmd
  imports Server
begin

text \<open>
  The program \<open>kapid\<close>: its commands (\<open>src/cmd/kapid/serve.go\<close>, \<open>healthcheck.go\<close>, \<open>log.go\<close>,
  \<open>src/cmd/version.go\<close>), the root command (\<open>src/cmd/root.go\<close>) and \<open>main.go\<close>: what \<open>serve\<close> makes of its
  flags before it runs the server, the HTTP clients, the health check, and the exit status of each.

  The command line library (which command is called, with which flags), the parsing of URLs and of log
  levels, the connections of the HTTP client and the OpenID Connect provider are parameters. The two
  extra listeners (metrics, profiling) are seen as the addresses on which they are started.
\<close>

section \<open>Version\<close>

text \<open>The variables as the source has them; a build fills in others, which is why \<open>kapid_env\<close> has them too.\<close>

definition version_Version :: string where
  "version_Version = ''0.0.0-no-proper-build''"

definition version_BuildDate :: string where
  "version_BuildDate = []"

section \<open>The plugins flag\<close>

text \<open>The loop over the IDs; an ID \<open>none\<close> ends it with a nil list. An ID is compared before the space
  around it is removed.\<close>

fun plugin_ids :: "string list \<Rightarrow> string list \<Rightarrow> string list option" where
  "plugin_ids [] enabled = Some enabled"
| "plugin_ids (i # ids) enabled =
     (if i = ''none'' then None else plugin_ids ids (enabled @ [trim_space i]))"

definition enabled_plugins :: "string \<Rightarrow> string list option" where
  "enabled_plugins flag = (if flag = [] then Some [] else plugin_ids (split_all (CHR '','') flag) [])"

section \<open>The logger\<close>

record 'l logger =
  lg_disableTimestamp :: bool
  lg_level :: 'l

definition newLogger :: "(string \<Rightarrow> 'l option) \<Rightarrow> bool \<Rightarrow> string \<Rightarrow> 'l logger option" where
  "newLogger parse_level disableTimestamp logLevelString =
     map_option (\<lambda>logLevel. \<lparr>lg_disableTimestamp = disableTimestamp, lg_level = logLevel\<rparr>) (parse_level logLevelString)"

section \<open>HTTP clients\<close>

text \<open>What the two commands configure of their clients, in seconds; a zero is the library's default. A
  client is insecure when it does not verify certificates.\<close>

record http_client =
  hc_timeout :: nat
  hc_proxy_from_env :: bool
  hc_dial_timeout :: nat
  hc_dial_keepalive :: nat
  hc_max_idle_conns :: nat
  hc_idle_timeout :: nat
  hc_tls_timeout :: nat
  hc_continue_timeout :: nat
  hc_insecure :: bool

definition serve_client :: "bool \<Rightarrow> http_client" where
  "serve_client tlsInsecureSkipVerify = \<lparr>hc_timeout = 60, hc_proxy_from_env = False, hc_dial_timeout = 30,
     hc_dial_keepalive = 30, hc_max_idle_conns = 100, hc_idle_timeout = 90, hc_tls_timeout = 10,
     hc_continue_timeout = 1, hc_insecure = tlsInsecureSkipVerify\<rparr>"

definition health_client :: "bool \<Rightarrow> http_client" where
  "health_client insecure = \<lparr>hc_timeout = 60, hc_proxy_from_env = True, hc_dial_timeout = 30,
     hc_dial_keepalive = 0, hc_max_idle_conns = 0, hc_idle_timeout = 0, hc_tls_timeout = 0,
     hc_continue_timeout = 0, hc_insecure = insecure\<rparr>"

section \<open>Flags\<close>

record serve_flags =
  fl_listen :: string
  fl_plugins :: string
  fl_iss :: string
  fl_insecure :: bool
  fl_log_timestamp :: bool
  fl_log_level :: string
  fl_with_pprof :: bool
  fl_pprof_listen :: string
  fl_with_metrics :: bool
  fl_metrics_listen :: string

definition defaultListenAddr :: string where
  "defaultListenAddr = ''127.0.0.1:8039''"

definition default_flags :: serve_flags where
  "default_flags = \<lparr>fl_listen = defaultListenAddr, fl_plugins = [], fl_iss = [], fl_insecure = False,
     fl_log_timestamp = True, fl_log_level = ''info'', fl_with_pprof = False,
     fl_pprof_listen = ''127.0.0.1:6060'', fl_with_metrics = False, fl_metrics_listen = ''127.0.0.1:6039''\<rparr>"

record health_flags =
  hf_hostname :: string
  hf_path :: string
  hf_scheme :: string
  hf_insecure :: bool

definition default_health_flags :: health_flags where
  "default_health_flags = \<lparr>hf_hostname = defaultListenAddr, hf_path = ''/health-check'', hf_scheme = ''http'',
     hf_insecure = False\<rparr>"

section \<open>What the program meets\<close>

text \<open>\<open>ke_init\<close> is whether a plugin's \<open>Initialize\<close> succeeds, \<open>ke_oidc\<close>, \<open>ke_listen\<close> and \<open>ke_error\<close> are how
  the rest of the server's life goes (see \<open>Serve\<close>); \<open>ke_url_ok\<close> is whether \<open>http.NewRequest\<close> accepts the
  URL of the health check, \<open>ke_answer\<close> is \<open>client.Do\<close>: status and body, or an error. \<open>ke_runtime\<close> is the
  version of Go, the system and the architecture.\<close>

record ('l, 'u, 'v, 'p) kapid_env =
  ke_parse_level :: "string \<Rightarrow> 'l option"
  ke_parse_url :: "string \<Rightarrow> 'u option"
  ke_new_provider :: "http_client \<Rightarrow> debugLogger option \<Rightarrow> bool \<Rightarrow> 'v option"
  ke_default_client :: http_client
  ke_getenv :: "string \<Rightarrow> string"
  ke_registered :: "(string \<times> 'p) list"
  ke_init :: "'p \<Rightarrow> bool"
  ke_oidc :: bool
  ke_listen :: bool
  ke_error :: bool
  ke_url_ok :: "health_flags \<Rightarrow> bool"
  ke_answer :: "http_client \<Rightarrow> health_flags \<Rightarrow> request \<Rightarrow> (nat \<times> string) option"
  ke_version :: string
  ke_build_date :: string
  ke_runtime :: "string \<times> string \<times> string"
  ke_help :: string

section \<open>serve\<close>

datatype cmd_error = LoggerError | InvalidIssuer | MissingIssuer | ServerError server_error

text \<open>The extra listeners, each with its address.\<close>

datatype listener = Metrics string | Pprof string

text \<open>\<open>serve\<close> up to the call of \<open>Serve\<close>: the listeners it has started, and the server or an error. The
  listener of metrics is started before the server is made, the one of profiling after it.\<close>

definition serve ::
  "('l, 'u, 'v, 'p) kapid_env \<Rightarrow> serve_flags \<Rightarrow> listener list \<times> (cmd_error + (http_client, 'u, 'v, 'p) server)" where
  "serve env fl =
     (case newLogger (ke_parse_level env) (\<not> fl_log_timestamp fl) (fl_log_level fl) of
        None \<Rightarrow> ([], Inl LoggerError)
      | Some logger \<Rightarrow>
          (let enabledPlugins = enabled_plugins (fl_plugins fl) in
           if fl_iss fl = [] then ([], Inl MissingIssuer)
           else
             (case ke_parse_url env (fl_iss fl) of
                None \<Rightarrow> ([], Inl InvalidIssuer)
              | Some iss \<Rightarrow>
                  (let client = serve_client (fl_insecure fl);
                       metrics = (if fl_with_metrics fl \<and> fl_metrics_listen fl \<noteq> []
                                  then [Metrics (fl_metrics_listen fl)] else []);
                       pprof = (if fl_with_pprof fl \<and> fl_pprof_listen fl \<noteq> []
                                then [Pprof (fl_pprof_listen fl)] else [])
                   in case NewServer (ke_new_provider env) (ke_default_client env) (ke_getenv env) (ke_registered env)
                             (fl_listen fl) [] iss enabledPlugins True (Some client) of
                        Inl err \<Rightarrow> (metrics, Inl (ServerError err))
                      | Inr srv \<Rightarrow> (metrics @ pprof, Inr srv)))))"

section \<open>healthcheck\<close>

text \<open>The request: a POST without a body.\<close>

definition health_request :: "string \<Rightarrow> health_flags \<Rightarrow> request" where
  "health_request version fl = \<lparr>req_method = ''POST'', req_path = hf_path fl, req_rawquery = [],
     req_header = header_set (header_set Map.empty ''Connection'' ''close'') ''User-Agent'' (''Kopano-Kwmserver/'' @ version),
     req_cookies = [], req_body = [], req_body_fail = False, req_form = [], req_ctx = None\<rparr>"

datatype health_error = RequestInvalid | RequestFailed | BadStatus nat

text \<open>The result, with what is written to the standard output and error.\<close>

definition healthcheck ::
  "('l, 'u, 'v, 'p) kapid_env \<Rightarrow> health_flags \<Rightarrow> (health_error + unit) \<times> string \<times> string" where
  "healthcheck env fl =
     (if \<not> ke_url_ok env fl then (Inl RequestInvalid, [], [])
      else (case ke_answer env (health_client (hf_insecure fl)) fl (health_request (ke_version env) fl) of
              None \<Rightarrow> (Inl RequestFailed, [], [])
            | Some (status, body) \<Rightarrow>
                if status \<noteq> 200 then (Inl (BadStatus status), [], body)
                else (Inr (), ''healthcheck successful'' @ [CHR 0x0A], [])))"

section \<open>The program\<close>

text \<open>How a command ends: its exit status, what it wrote, and the error that it reported, if any, behind
  what it wrote to the standard error.\<close>

datatype kapid_error = ServeFailed cmd_error | ServerEnded serve_result | HealthFailed health_error | CommandLine

record finished =
  fin_code :: nat
  fin_stdout :: string
  fin_stderr :: string
  fin_error :: "kapid_error option"

definition with_error :: "string \<Rightarrow> string \<Rightarrow> kapid_error option \<Rightarrow> finished" where
  "with_error out err e = \<lparr>fin_code = (if e = None then 0 else 1), fin_stdout = out, fin_stderr = err, fin_error = e\<rparr>"

text \<open>The error of \<open>Serve\<close> is none when the wait was ended by a signal.\<close>

definition commandServe :: "('l, 'u, 'v, 'p) kapid_env \<Rightarrow> serve_flags \<Rightarrow> finished" where
  "commandServe env fl =
     (case serve env fl of
        (_, Inl err) \<Rightarrow> with_error [] [] (Some (ServeFailed err))
      | (_, Inr srv) \<Rightarrow>
          (let result = snd (Serve \<lparr>env_plugins = map (ke_init env) (srv_plugins srv), env_oidc = ke_oidc env,
                 env_listen = ke_listen env, env_error = ke_error env\<rparr>)
           in with_error [] [] (if result = Ended False then None else Some (ServerEnded result))))"

definition commandHealthcheck :: "('l, 'u, 'v, 'p) kapid_env \<Rightarrow> health_flags \<Rightarrow> finished" where
  "commandHealthcheck env fl =
     (case healthcheck env fl of
        (Inl err, out, errout) \<Rightarrow> with_error out errout (Some (HealthFailed err))
      | (Inr _, out, errout) \<Rightarrow> with_error out errout None)"

definition CommandVersion :: "('l, 'u, 'v, 'p) kapid_env \<Rightarrow> finished" where
  "CommandVersion env =
     (let (go, os, arch) = ke_runtime env in
      with_error (''Version    : '' @ ke_version env @ CHR 0x0A # ''Build date : '' @ ke_build_date env
        @ CHR 0x0A # ''Built with : '' @ go @ '' '' @ os @ ''/'' @ arch @ [CHR 0x0A]) [] None)"

definition RootCmd :: "('l, 'u, 'v, 'p) kapid_env \<Rightarrow> finished" where
  "RootCmd env = \<lparr>fin_code = 2, fin_stdout = ke_help env, fin_stderr = [], fin_error = None\<rparr>"

text \<open>The commands that are added to the root command, and the choice of one: \<open>execute\<close> is the command
  line library, with no command when it has an error.\<close>

datatype command = Root | ServeCmd serve_flags | HealthcheckCmd health_flags | VersionCmd

definition kapid_main ::
  "('l, 'u, 'v, 'p) kapid_env \<Rightarrow> (string list \<Rightarrow> command option) \<Rightarrow> string list \<Rightarrow> finished" where
  "kapid_main env execute args =
     (case execute args of
        None \<Rightarrow> with_error [] [] (Some CommandLine)
      | Some Root \<Rightarrow> RootCmd env
      | Some (ServeCmd fl) \<Rightarrow> commandServe env fl
      | Some (HealthcheckCmd fl) \<Rightarrow> commandHealthcheck env fl
      | Some VersionCmd \<Rightarrow> CommandVersion env)"

section \<open>Facts\<close>

lemma plugin_ids_eq:
  "plugin_ids ids acc = (if ''none'' \<in> set ids then None else Some (acc @ map trim_space ids))"
  by (induction ids arbitrary: acc) auto

lemma enabled_plugins_eq:
  "enabled_plugins flag =
     (if flag = [] then Some []
      else if ''none'' \<in> set (split_all (CHR '','') flag) then None
      else Some (map trim_space (split_all (CHR '','') flag)))"
  by (simp add: enabled_plugins_def plugin_ids_eq)

lemma map_filter_cong: "(\<And>x. x \<in> set xs \<Longrightarrow> f x = g x) \<Longrightarrow> List.map_filter f xs = List.map_filter g xs"
  by (induction xs) (auto simp: map_filter_simps split: option.split)

lemma map_of_filter_in: "x \<in> A \<Longrightarrow> map_of (filter (\<lambda>p. fst p \<in> A) m) x = map_of m x"
  by (induction m) auto

lemma loadPlugins_some:
  assumes "ids \<noteq> []"
  shows "loadPlugins registered ids = List.map_filter (map_of registered) ids"
  using assms by (auto simp: loadPlugins_def map_of_filter_in intro!: map_filter_cong)

lemma map_filter_all:
  assumes "distinct (map fst registered)"
  shows "List.map_filter (map_of registered) (map fst registered) = map snd registered"
proof -
  have "List.map_filter (map_of registered) (map fst ps) = map snd ps" if "set ps \<subseteq> set registered" for ps
    using that assms by (induction ps) (auto simp: map_filter_simps)
  then show ?thesis by simp
qed

lemma loadPlugins_all:
  "distinct (map fst registered) \<Longrightarrow> loadPlugins registered [] = map snd registered"
  by (simp add: loadPlugins_def map_filter_all)

lemma selected_plugins:
  assumes "distinct (map fst registered)"
  shows "NewServer_plugins registered (enabled_plugins flag) =
    (if flag = [] then map snd registered
     else if ''none'' \<in> set (split_all (CHR '','') flag) then []
     else List.map_filter (map_of registered) (map trim_space (split_all (CHR '','') flag)))"
  using loadPlugins_all [OF assms] loadPlugins_some [of "map trim_space (split_all (CHR '','') flag)" registered]
  by (simp add: NewServer_plugins_def enabled_plugins_eq)

lemma serve_Inr:
  "snd (serve env fl) = Inr srv \<longleftrightarrow>
     (\<exists>iss provider. ke_parse_level env (fl_log_level fl) \<noteq> None \<and> fl_iss fl \<noteq> [] \<and>
        ke_parse_url env (fl_iss fl) = Some iss \<and>
        ke_new_provider env (serve_client (fl_insecure fl))
          (if ke_getenv env ''KCOIDC_DEBUG'' = ''1'' then Some \<lparr>dl_prefix = ''kcoidc debug ''\<rparr> else None)
          (ke_getenv env ''KCOIDC_DEBUG'' = ''1'') = Some provider \<and>
        srv = \<lparr>srv_listenAddr = fl_listen fl, srv_pluginsPath = [], srv_client = serve_client (fl_insecure fl),
          srv_plugins = NewServer_plugins (ke_registered env) (enabled_plugins (fl_plugins fl)), srv_iss = iss,
          srv_provider = provider,
          srv_requestLog = (ke_getenv env ''KOPANO_DEBUG_SERVER_REQUEST_LOG'' = ''1'')\<rparr>)"
  by (auto simp: serve_def newLogger_def NewServer_def Let_def split: option.splits if_splits)

lemma with_error_simps [simp]:
  "fin_code (with_error out err e) = (if e = None then 0 else 1)" "fin_error (with_error out err e) = e"
  "fin_stdout (with_error out err e) = out" "fin_stderr (with_error out err e) = err"
  by (simp_all add: with_error_def)

text \<open>The one way in which \<open>Serve\<close> ends without an error.\<close>

lemma init_plugins_ok: "snd (init_plugins i oks) = None \<longleftrightarrow> list_all id oks"
  by (induction i oks rule: init_plugins.induct) auto

lemma Serve_result_ended:
  "snd (Serve env) = Ended False \<longleftrightarrow> list_all id (env_plugins env) \<and> env_oidc env \<and> env_listen env \<and> \<not> env_error env"
  using init_plugins_ok [of 0 "env_plugins env"]
  by (auto simp: Serve_def split: prod.split option.split if_splits)

lemma serve_starts:
  "(\<exists>srv. snd (serve env fl) = Inr srv \<and> P (srv_plugins srv)) \<longleftrightarrow>
     ke_parse_level env (fl_log_level fl) \<noteq> None \<and> fl_iss fl \<noteq> [] \<and> ke_parse_url env (fl_iss fl) \<noteq> None \<and>
     ke_new_provider env (serve_client (fl_insecure fl))
       (if ke_getenv env ''KCOIDC_DEBUG'' = ''1'' then Some \<lparr>dl_prefix = ''kcoidc debug ''\<rparr> else None)
       (ke_getenv env ''KCOIDC_DEBUG'' = ''1'') \<noteq> None \<and>
     P (NewServer_plugins (ke_registered env) (enabled_plugins (fl_plugins fl)))"
  unfolding serve_Inr by auto

lemma commandServe_code:
  "fin_code (commandServe env fl) =
     (if (\<exists>srv. snd (serve env fl) = Inr srv \<and> list_all (ke_init env) (srv_plugins srv)) \<and>
         ke_oidc env \<and> ke_listen env \<and> \<not> ke_error env then 0 else 1)"
  "fin_error (commandServe env fl) = None \<longleftrightarrow> fin_code (commandServe env fl) = 0"
  by (auto simp: commandServe_def Serve_result_ended list_all_iff split: prod.split sum.split)

lemma commandHealthcheck_code:
  "fin_code (commandHealthcheck env fl) =
     (if ke_url_ok env fl \<and> (\<exists>body. ke_answer env (health_client (hf_insecure fl)) fl
           (health_request (ke_version env) fl) = Some (200, body)) then 0 else 1)"
  "fin_error (commandHealthcheck env fl) = None \<longleftrightarrow> fin_code (commandHealthcheck env fl) = 0"
  by (auto simp: commandHealthcheck_def healthcheck_def split: option.split prod.split)

section \<open>Properties\<close>

text \<open>Which plugins run is what the plugins flag says: without it all registered ones; none when one of
  its IDs is \<open>none\<close>; otherwise those of the IDs, without surrounding space, that are registered, in the
  order of the flag and as often as they are named.\<close>

theorem plugins_selected:
  assumes "distinct (map fst (ke_registered env))" and "snd (serve env fl) = Inr srv"
  shows "srv_plugins srv =
    (if fl_plugins fl = [] then map snd (ke_registered env)
     else if ''none'' \<in> set (split_all (CHR '','') (fl_plugins fl)) then []
     else List.map_filter (map_of (ke_registered env)) (map trim_space (split_all (CHR '','') (fl_plugins fl))))"
  using assms selected_plugins [OF assms(1), of "fl_plugins fl"] unfolding serve_Inr by auto

text \<open>Two registered plugins, the second of which does not start; everything else goes well.\<close>

definition sample_env :: "(unit, string, unit, nat) kapid_env" where
  "sample_env = \<lparr>ke_parse_level = (\<lambda>l. Some ()), ke_parse_url = Some, ke_new_provider = (\<lambda>c l d. Some ()),
     ke_default_client = health_client False, ke_getenv = (\<lambda>n. []), ke_registered = [(''kvs'', 1), (''pubs'', 2)],
     ke_init = (\<lambda>p. p = 1), ke_oidc = True, ke_listen = True, ke_error = False, ke_url_ok = (\<lambda>f. True),
     ke_answer = (\<lambda>c f r. None), ke_version = version_Version, ke_build_date = version_BuildDate, ke_runtime = ([], [], []), ke_help = []\<rparr>"

theorem plugins_selected_witness:
  "\<exists>srv. snd (serve sample_env (default_flags\<lparr>fl_iss := ''https://iss'', fl_plugins := ''pubs, kvs,pubs,x''\<rparr>)) = Inr srv \<and>
     srv_plugins srv = [2, 1, 2]"
proof -
  let ?fl = "default_flags\<lparr>fl_iss := ''https://iss'', fl_plugins := ''pubs, kvs,pubs,x''\<rparr>"
  obtain srv where s: "snd (serve sample_env ?fl) = Inr srv"
    by (simp add: serve_Inr sample_env_def)
  have d: "distinct (map fst (ke_registered sample_env))" by (simp add: sample_env_def)
  have "map trim_space (split_all (CHR '','') ''pubs, kvs,pubs,x'') = [''pubs'', ''kvs'', ''pubs'', ''x'']"
    "''none'' \<notin> set (split_all (CHR '','') ''pubs, kvs,pubs,x'')"
    by code_simp+
  then show ?thesis using plugins_selected [OF d s] s by (simp add: map_filter_simps sample_env_def)
qed


text \<open>The health check of a running server succeeds, whatever its plugins are and do.\<close>

lemma healthcheck_of_server:
  assumes "ke_url_ok env default_health_flags"
    and "\<And>c req. ke_answer env c default_health_flags req =
      (case ServeHTTP plugins req (s, fresh_rw) of
         Returns (s', rw) \<Rightarrow> map_option (\<lambda>st. (st, rw_body rw)) (rw_status rw) | Panics m \<Rightarrow> None)"
  shows "fin_code (commandHealthcheck env default_health_flags) = 0"
  using assms
  by (simp add: commandHealthcheck_def healthcheck_def health_request_def default_health_flags_def ServeHTTP_def
      HealthCheckHandler_def rw_status_simps)

end
