(* ===== verification/Kapi.thy ===== *)
theory Kapi
  imports KVS_Facts Grapi Pubs_Keys Cmd
begin

text \<open>
  The server with its three plugins (\<open>src/cmd/kapid/plugins.go\<close>): each plugin works on its own part of
  the state, and each owns its own part of the paths.
\<close>

section \<open>A plugin as part of a larger state\<close>

definition lift_plugin :: "('t \<Rightarrow> 's) \<Rightarrow> ('s \<Rightarrow> 't \<Rightarrow> 't) \<Rightarrow> 's plugin \<Rightarrow> 't plugin" where
  "lift_plugin get put p req srw =
     obind (p req (get (fst srw), snd srw)) (\<lambda>((s, rw), handled, err). Returns ((put s (fst srw), rw), handled, err))"

text \<open>The state of the server with its three plugins.\<close>

record 'g kapi_state =
  k_kvs :: kvs_state
  k_grapi :: 'g
  k_pubs :: pubs_state

text \<open>A plugin with a part of a larger state is as good there as it is on its own.\<close>

locale plugin_part = answering_plugin serve owns for serve :: "'s plugin" and owns +
  fixes get :: "'t \<Rightarrow> 's" and put :: "'s \<Rightarrow> 't \<Rightarrow> 't"
  assumes put_get: "put (get t) t = t"
begin

lemma lifted_serve:
  assumes "owns req"
  shows "try_plugins (lift_plugin get put serve # ps) req (s, rw) =
    obind (serve req (get s, rw)) (\<lambda>((x, rw'), handled, err). Returns (put x s, rw'))"
  by (cases "serve req (get s, rw)") (auto simp: lift_plugin_def split: prod.splits dest!: answers [OF assms])

end

sublocale plugin_part \<subseteq> lifted: answering_plugin "lift_plugin get put serve" owns
proof unfold_locales
  fix req srw
  assume "\<not> owns req"
  then show "lift_plugin get put serve req srw = Returns (srw, False, False)"
    using passes put_get by (simp add: lift_plugin_def)
next
  fix req srw srw' handled err
  assume "owns req" "lift_plugin get put serve req srw = Returns (srw', handled, err)"
  then show "handled \<and> \<not> err" using answers by (fastforce simp: lift_plugin_def obind_eq_Returns)
qed

interpretation grapi_part: plugin_part "grapi_ServeHTTP cfg" "grapi_owns cfg" k_grapi "\<lambda>g t. t\<lparr>k_grapi := g\<rparr>"
  for cfg :: "'g grapi_config"
  by unfold_locales simp

interpretation kvs_part: plugin_part "kvs_ServeHTTP cfg" "\<lambda>req. has_prefix (req_path req) kvs_base" k_kvs "\<lambda>k t. t\<lparr>k_kvs := k\<rparr>"
  for cfg :: kvs_config
  by unfold_locales simp

interpretation pubs_part: plugin_part "pubs_ServeHTTP cfg" "\<lambda>req. has_prefix (req_path req) pubs_base" k_pubs "\<lambda>p t. t\<lparr>k_pubs := p\<rparr>"
  for cfg :: pubs_config
  by unfold_locales simp

section \<open>The order of plugins\<close>

lemma try_plugins_none:
  assumes "\<forall>p \<in> set ps. path_plugin (fst p) (snd p)" and "filter (\<lambda>p. snd p req) ps = []"
  shows "try_plugins (map fst ps) req srw = Returns (fst srw, not_found (snd srw))"
  using assms
proof (induction ps)
  case (Cons p ps)
  then show ?case using path_plugin.skipped [of "fst p" "snd p" req] by (simp split: if_splits)
qed simp

lemma try_plugins_order:
  assumes "\<forall>p \<in> set ps. path_plugin (fst p) (snd p)" and "mset ps = mset qs"
    and "length (filter (\<lambda>p. snd p req) ps) \<le> 1"
  shows "try_plugins (map fst ps) req srw = try_plugins (map fst qs) req srw"
proof -
  have qs: "\<forall>p \<in> set qs. path_plugin (fst p) (snd p)" using assms(1,2) mset_eq_setD by metis
  have f: "mset (filter (\<lambda>p. snd p req) ps) = mset (filter (\<lambda>p. snd p req) qs)" using assms(2) by simp
  show ?thesis
  proof (cases "filter (\<lambda>p. snd p req) ps")
    case Nil
    then have "filter (\<lambda>p. snd p req) qs = []" using f by (metis mset_zero_iff mset.simps(1))
    then show ?thesis using try_plugins_none [OF assms(1) Nil] try_plugins_none [OF qs] by simp
  next
    case (Cons q rest)
    then have q: "filter (\<lambda>p. snd p req) ps = [q]" using assms(3) by simp
    then have "mset (filter (\<lambda>p. snd p req) qs) = {#q#}" using f by simp
    then have "filter (\<lambda>p. snd p req) qs = [q]" by (cases "filter (\<lambda>p. snd p req) qs") simp_all
    then show ?thesis using try_plugins_owner [OF assms(1) q] try_plugins_owner [OF qs] by simp
  qed
qed

section \<open>The three plugins\<close>

definition kapi_plugins ::
  "kvs_config \<Rightarrow> 'g grapi_config \<Rightarrow> pubs_config \<Rightarrow> (string \<times> 'g kapi_state plugin) list" where
  "kapi_plugins kc gc pc =
     [(''grapi'', lift_plugin k_grapi (\<lambda>g t. t\<lparr>k_grapi := g\<rparr>) (grapi_ServeHTTP gc)),
      (''kvs'', lift_plugin k_kvs (\<lambda>k t. t\<lparr>k_kvs := k\<rparr>) (kvs_ServeHTTP kc)),
      (''pubs'', lift_plugin k_pubs (\<lambda>p t. t\<lparr>k_pubs := p\<rparr>) (pubs_ServeHTTP pc))]"

definition kapi_owns :: "'g grapi_config \<Rightarrow> string \<Rightarrow> request \<Rightarrow> bool" where
  "kapi_owns gc name req \<longleftrightarrow>
     name = ''grapi'' \<and> grapi_owns gc req \<or>
     name = ''kvs'' \<and> has_prefix (req_path req) kvs_base \<or>
     name = ''pubs'' \<and> has_prefix (req_path req) pubs_base"

lemma bases_apart:
  "\<not> (has_prefix path kvs_base \<and> has_prefix path pubs_base)"
  "\<not> (has_prefix path kvs_base \<and> (has_prefix path v1_subscriptions \<or> has_prefix path v1_base \<or> has_prefix path v0_subscriptions \<or> has_prefix path v0_base))"
  "\<not> (has_prefix path pubs_base \<and> (has_prefix path v1_subscriptions \<or> has_prefix path v1_base \<or> has_prefix path v0_subscriptions \<or> has_prefix path v0_base))"
proof -
  have "\<forall>q \<in> {pubs_base, v1_subscriptions, v1_base, v0_subscriptions, v0_base}. \<not> has_prefix kvs_base q \<and> \<not> has_prefix q kvs_base"
    "\<forall>q \<in> {v1_subscriptions, v1_base, v0_subscriptions, v0_base}. \<not> has_prefix pubs_base q \<and> \<not> has_prefix q pubs_base"
    by code_simp+
  then show "\<not> (has_prefix path kvs_base \<and> has_prefix path pubs_base)"
    "\<not> (has_prefix path kvs_base \<and> (has_prefix path v1_subscriptions \<or> has_prefix path v1_base \<or> has_prefix path v0_subscriptions \<or> has_prefix path v0_base))"
    "\<not> (has_prefix path pubs_base \<and> (has_prefix path v1_subscriptions \<or> has_prefix path v1_base \<or> has_prefix path v0_subscriptions \<or> has_prefix path v0_base))"
    by (auto dest: not_both_prefixes)
qed

lemma kapi_path_plugins:
  "\<forall>p \<in> set (map (\<lambda>np. (snd np, kapi_owns gc (fst np))) (kapi_plugins kc gc pc)). path_plugin (fst p) (snd p)"
proof -
  note part = grapi_part.lifted.path_plugin_axioms [of gc] kvs_part.lifted.path_plugin_axioms [of kc]
    pubs_part.lifted.path_plugin_axioms [of pc]
  have "kapi_owns gc ''grapi'' = grapi_owns gc" "kapi_owns gc ''kvs'' = (\<lambda>req. has_prefix (req_path req) kvs_base)"
    "kapi_owns gc ''pubs'' = (\<lambda>req. has_prefix (req_path req) pubs_base)"
    by (auto simp: kapi_owns_def fun_eq_iff)
  then show ?thesis using part by (simp add: kapi_plugins_def)
qed

lemma kapi_one_owner:
  "length (filter (\<lambda>p. snd p req) (map (\<lambda>np. (snd np, kapi_owns gc (fst np))) (kapi_plugins kc gc pc))) \<le> 1"
  using bases_apart [of "req_path req"] by (auto simp: kapi_plugins_def kapi_owns_def grapi_owns_def)

text \<open>The plugins in any order: whatever list of named plugins has these three as its elements.\<close>

lemma kapi_any_order:
  assumes "mset ps = mset (kapi_plugins kc gc pc)"
  shows "try_plugins (map snd ps) req srw = try_plugins (map snd (kapi_plugins kc gc pc)) req srw"
proof -
  let ?f = "\<lambda>np. (snd np, kapi_owns gc (fst np))"
  have "mset (map ?f (kapi_plugins kc gc pc)) = mset (map ?f ps)" using assms by simp
  from try_plugins_order [OF kapi_path_plugins this kapi_one_owner, of req srw]
  show ?thesis by (simp add: comp_def)
qed

section \<open>Who serves a request\<close>

text \<open>The plugin that a path belongs to.\<close>

definition request_owner :: "'g grapi_config \<Rightarrow> request \<Rightarrow> string option" where
  "request_owner gc req =
     (if has_prefix (req_path req) kvs_base then Some ''kvs''
      else if grapi_owns gc req then Some ''grapi''
      else if has_prefix (req_path req) pubs_base then Some ''pubs''
      else None)"

lemma kapi_owns_owner: "kapi_owns gc name req \<longleftrightarrow> request_owner gc req = Some name"
  using bases_apart [of "req_path req"] by (auto simp: kapi_owns_def request_owner_def grapi_owns_def)

lemma only_element: "x \<in> set xs \<Longrightarrow> length xs \<le> 1 \<Longrightarrow> xs = [x]"
  by (cases xs) auto

text \<open>Some of the plugins, in any order and as often as one likes: a request goes to its owner, if it is
  one of them.\<close>

lemma try_selected:
  assumes "set ps \<subseteq> set (kapi_plugins kc gc pc)"
  shows "try_plugins (map snd ps) req srw =
    (if request_owner gc req \<in> Some ` fst ` set ps then try_plugins (map snd (kapi_plugins kc gc pc)) req srw
     else Returns (fst srw, not_found (snd srw)))"
proof -
  let ?own = "\<lambda>np. (snd np, kapi_owns gc (fst np))"
  note paths = kapi_path_plugins [of gc kc pc]
  have pp: "path_plugin (snd p) (kapi_owns gc (fst p))" if "p \<in> set (kapi_plugins kc gc pc)" for p
    using paths that by auto
  have all: "try_plugins (map snd (kapi_plugins kc gc pc)) req srw = try_plugins [snd p] req srw"
    if p: "p \<in> set (kapi_plugins kc gc pc)" "kapi_owns gc (fst p) req" for p
  proof -
    have "?own p \<in> set (filter (\<lambda>q. snd q req) (map ?own (kapi_plugins kc gc pc)))" using p by simp
    from only_element [OF this kapi_one_owner]
    have "filter (\<lambda>q. snd q req) (map ?own (kapi_plugins kc gc pc)) = [?own p]" .
    from try_plugins_owner [OF paths this] show ?thesis by (simp add: comp_def)
  qed
  show ?thesis using assms
  proof (induction ps)
    case (Cons p ps)
    then have p: "p \<in> set (kapi_plugins kc gc pc)" by simp
    show ?case
    proof (cases "kapi_owns gc (fst p) req")
      case True
      then show ?thesis using path_plugin.taken [OF pp [OF p] True] all [OF p True]
        by (simp add: kapi_owns_owner del: try_plugins.simps(2))
    next
      case False
      then show ?thesis using path_plugin.skipped [OF pp [OF p] False] Cons
        by (simp add: kapi_owns_owner del: try_plugins.simps(2))
    qed
  qed simp
qed

lemma health_path:
  "\<not> has_prefix ''/health-check'' kvs_base" "\<not> has_prefix ''/health-check'' pubs_base"
  "\<not> has_prefix ''/health-check'' v1_base" "\<not> has_prefix ''/health-check'' v0_base"
  "\<not> has_prefix ''/health-check'' v1_subscriptions" "\<not> has_prefix ''/health-check'' v0_subscriptions"
  by code_simp+

text \<open>The whole server, request by request.\<close>

lemma kapi_serve:
  "ServeHTTP (map snd (kapi_plugins kc gc pc)) req (s, rw) =
     (if req_path req = ''/health-check'' then Returns (s, write_header 200 rw)
      else if has_prefix (req_path req) kvs_base
      then obind (kvs_ServeHTTP kc req (k_kvs s, rw)) (\<lambda>((x, rw'), handled, err). Returns (s\<lparr>k_kvs := x\<rparr>, rw'))
      else if grapi_owns gc req
      then obind (grapi_ServeHTTP gc req (k_grapi s, rw)) (\<lambda>((x, rw'), handled, err). Returns (s\<lparr>k_grapi := x\<rparr>, rw'))
      else if has_prefix (req_path req) pubs_base
      then obind (pubs_ServeHTTP pc req (k_pubs s, rw)) (\<lambda>((x, rw'), handled, err). Returns (s\<lparr>k_pubs := x\<rparr>, rw'))
      else Returns (s, not_found rw))"
proof -
  note skip = grapi_part.lifted.skipped kvs_part.lifted.skipped pubs_part.lifted.skipped
  note here = grapi_part.lifted_serve kvs_part.lifted_serve pubs_part.lifted_serve
  have "\<not> (has_prefix (req_path req) kvs_base \<and> grapi_owns gc req)" using bases_apart [of "req_path req"]
    by (auto simp: grapi_owns_def)
  then show ?thesis
    by (auto simp: ServeHTTP_def HealthCheckHandler_def kapi_plugins_def skip here simp del: try_plugins.simps(2))
qed

end
