(* ===== verification/Example.thy ===== *)
theory Example
  imports Server
begin

text \<open>
  The example plugin (\<open>src/plugins/example-plugin\<close>), which keeps no state: three paths, one of them
  behind the access check and one that fails.
\<close>

text \<open>The plugin keeps what it is given; neither starting nor closing it can fail. \<open>'c\<close> and \<open>'v\<close> are contexts and
  servers.\<close>

record ('c, 'v) example_plugin =
  ep_ctx :: "'c option"
  ep_srv :: "'v option"

definition example_Initialize :: "'c \<Rightarrow> 'v \<Rightarrow> ('c, 'v) example_plugin \<Rightarrow> unit + ('c, 'v) example_plugin" where
  "example_Initialize c v p = Inr (p\<lparr>ep_ctx := Some c, ep_srv := Some v\<rparr>)"

definition example_Close :: "('c, 'v) example_plugin \<Rightarrow> unit + ('c, 'v) example_plugin" where
  "example_Close p = Inr p"

definition testHandler :: "'s handler" where
  "testHandler req srw = Returns (fst srw, write_header 418 (snd srw))"

definition example_paths :: "string list" where
  "example_paths = [''/example-plugin/test'', ''/example-plugin/auth-required/test'', ''/example-plugin/fake-error'']"

definition example_ServeHTTP :: "oidc \<Rightarrow> 's plugin" where
  "example_ServeHTTP prov req srw =
     (if req_path req = ''/example-plugin/test''
      then obind (testHandler req srw) (\<lambda>srw'. Returns (srw', True, False))
      else if req_path req = ''/example-plugin/auth-required/test''
      then obind (AccessTokenRequired prov testHandler [] req srw) (\<lambda>srw'. Returns (srw', True, False))
      else if req_path req = ''/example-plugin/fake-error'' then Returns (srw, False, True)
      else Returns (srw, False, False))"

interpretation example_path: path_plugin "example_ServeHTTP prov" "\<lambda>req. req_path req \<in> set example_paths"
  for prov :: oidc
  by standard (auto simp: example_ServeHTTP_def example_paths_def obind_eq_Returns)

text \<open>The plugin never changes anything.\<close>

lemma example_stateless: "example_ServeHTTP prov req (s, rw) = Returns ((s', rw'), h, e) \<Longrightarrow> s' = s"
  by (auto simp: example_ServeHTTP_def testHandler_def obind_eq_Returns split: if_splits
      elim!: guard.keeps [where P = "\<lambda>t. t = s"])

end
