(* ===== verification/Startup.thy ===== *)
theory Startup
  imports Kapi Example
begin

text \<open>
  How the program comes up: what each plugin tells and registers before \<open>main\<close> runs (\<open>Info\<close>, \<open>Register\<close>
  and \<open>init\<close> of \<open>src/plugins/*/plugin.go\<close>), and what \<open>Initialize\<close> of the three plugins makes of the
  environment: the configuration under which their requests are served, and their first states.
\<close>

section \<open>Registration\<close>

text \<open>What \<open>Register\<close> makes: a plugin whose fields are not set but for the channel that \<open>Close\<close> closes;
  the argument is whether it is closed.\<close>

datatype plugin_value =
    KVSPlugin bool
  | KopanoGroupwareCorePlugin bool
  | PubsPlugin
  | ExamplePlugin

definition kvs_Register :: plugin_value where "kvs_Register = KVSPlugin False"
definition grapi_Register :: plugin_value where "grapi_Register = KopanoGroupwareCorePlugin False"
definition pubs_Register :: plugin_value where "pubs_Register = PubsPlugin"
definition example_Register :: plugin_value where "example_Register = ExamplePlugin"

definition kvs_init :: "(string \<rightharpoonup> plugin_value) \<Rightarrow> (string \<rightharpoonup> plugin_value)" where
  "kvs_init = RegisterV1 ''kvs'' kvs_Register"

definition grapi_init :: "(string \<rightharpoonup> plugin_value) \<Rightarrow> (string \<rightharpoonup> plugin_value)" where
  "grapi_init = RegisterV1 ''grapi'' grapi_Register"

definition pubs_init :: "(string \<rightharpoonup> plugin_value) \<Rightarrow> (string \<rightharpoonup> plugin_value)" where
  "pubs_init = RegisterV1 ''pubs'' pubs_Register"

definition example_init :: "(string \<rightharpoonup> plugin_value) \<Rightarrow> (string \<rightharpoonup> plugin_value)" where
  "example_init = RegisterV1 ''example-plugin'' example_Register"

text \<open>The registry of \<open>kapid\<close>, which imports three of the plugins.\<close>

definition kapid_registry :: "string \<rightharpoonup> plugin_value" where
  "kapid_registry = pubs_init (kvs_init (grapi_init registry_init))"

definition kvs_Info :: "string \<Rightarrow> string \<Rightarrow> InfoV1" where
  "kvs_Info version date = \<lparr>ID = ''kvs'', Version = version, BuildDate = date\<rparr>"

definition grapi_Info :: "string \<Rightarrow> string \<Rightarrow> InfoV1" where
  "grapi_Info version date = \<lparr>ID = ''grapi'', Version = version, BuildDate = date\<rparr>"

definition pubs_Info :: "string \<Rightarrow> string \<Rightarrow> InfoV1" where
  "pubs_Info version date = \<lparr>ID = ''pubs'', Version = version, BuildDate = date\<rparr>"

definition example_Info :: "string \<Rightarrow> string \<Rightarrow> InfoV1" where
  "example_Info version date = \<lparr>ID = ''example-plugin'', Version = version, BuildDate = date\<rparr>"

fun Info :: "string \<Rightarrow> string \<Rightarrow> plugin_value \<Rightarrow> InfoV1" where
  "Info version date (KVSPlugin c) = kvs_Info version date"
| "Info version date (KopanoGroupwareCorePlugin c) = grapi_Info version date"
| "Info version date PubsPlugin = pubs_Info version date"
| "Info version date ExamplePlugin = example_Info version date"

lemmas Info_defs = kvs_Info_def grapi_Info_def pubs_Info_def example_Info_def
lemmas Register_defs = kvs_Register_def grapi_Register_def pubs_Register_def example_Register_def
lemmas init_defs = kvs_init_def grapi_init_def pubs_init_def RegisterV1_def registry_init_def

text \<open>A plugin is registered under the ID that it tells.\<close>

lemma registered_under_ID:
  assumes "kapid_registry name = Some p"
  shows "ID (Info version date p) = name"
  using assms by (auto simp: kapid_registry_def init_defs Register_defs Info_defs split: if_splits)

section \<open>Initialisation\<close>

text \<open>What the libraries give to the plugins.\<close>

record 'g libraries =
  lib_engine :: engine
  lib_wait :: wait
  lib_oidc :: oidc
  lib_mux :: mux
  lib_reads_past :: bool
  lib_kvs_cors :: "kvs_state handler \<Rightarrow> kvs_state handler"
  lib_grapi_cors :: "'g handler \<Rightarrow> 'g handler"
  lib_pubs_cors :: "pubs_state handler \<Rightarrow> pubs_state handler"
  lib_abs_path :: "string \<Rightarrow> string option"
  lib_rnd64 :: string
  lib_rnd :: "nat \<Rightarrow> nat \<Rightarrow> string"
  lib_encode :: "string \<Rightarrow> nat \<Rightarrow> webhookPubTokenData \<Rightarrow> string option"
  lib_decode :: "string \<Rightarrow> string \<Rightarrow> webhookPubTokenData option"
  lib_url :: "string \<Rightarrow> (string \<times> string) list \<Rightarrow> string option"
  lib_upgrade :: "request \<Rightarrow> rwriter \<Rightarrow> upgrade \<times> rwriter"
  lib_connection :: bool

definition kvs_configure :: "'g libraries \<Rightarrow> kvs_setup \<Rightarrow> kvs_config" where
  "kvs_configure lib su = \<lparr>cfg_engine = lib_engine lib, cfg_wait = lib_wait lib, cfg_oidc = lib_oidc lib,
     cfg_mux = lib_mux lib, cfg_cors = (if su_cors su then Some (lib_kvs_cors lib) else None),
     cfg_scopes = su_route_scopes su, cfg_reads_past = lib_reads_past lib\<rparr>"

text \<open>The proxies are set when their sockets are found (\<open>enable_default\<close>, \<open>enable_subscription\<close>).\<close>

definition grapi_configure :: "'g libraries \<Rightarrow> grapi_setup \<Rightarrow> 'g grapi_config" where
  "grapi_configure lib gs = \<lparr>gr_oidc = lib_oidc lib, gr_default = None, gr_subscription = None,
     gr_cors = (if gs_cors gs then Some (lib_grapi_cors lib) else None), gr_scopes = gs_scopes gs, gr_v0 = gs_v0 gs\<rparr>"

text \<open>The broadcast topic is the first random string that is drawn.\<close>

definition pubs_configure :: "'g libraries \<Rightarrow> pubs_setup \<Rightarrow> pubs_config" where
  "pubs_configure lib pu = \<lparr>pc_oidc = lib_oidc lib, pc_mux = lib_mux lib,
     pc_cors = (if pu_cors pu then Some (lib_pubs_cors lib) else None), pc_scopes = pu_route_scopes pu,
     pc_rnd = (\<lambda>n. lib_rnd lib (Suc n)), pc_encode = lib_encode lib (pu_hashKey pu),
     pc_decode = lib_decode lib (pu_hashKey pu), pc_url = lib_url lib, pc_upgrade = lib_upgrade lib,
     pc_connection = lib_connection lib, pc_broadcast = pu_broadcast pu\<rparr>"

datatype startup_error = KvsFailed kv_error | GrapiFailed grapi_error | PubsFailed pubs_error

record ('g) kapi_instance =
  in_kvs :: kvs_config
  in_grapi :: "'g grapi_config"
  in_pubs :: pubs_config
  in_state :: "'g kapi_state"

text \<open>The three plugins, initialised one after the other as the server does it. They share nothing: each
  package has its own variables.\<close>

definition kapi_Initialize ::
  "'g libraries \<Rightarrow> (string \<Rightarrow> string) \<Rightarrow> db \<Rightarrow> 'g \<Rightarrow> int \<Rightarrow> startup_error + 'g kapi_instance" where
  "kapi_Initialize lib getenv db workers now =
     (case grapi_Initialize (lib_abs_path lib) getenv of
        Inl err \<Rightarrow> Inl (GrapiFailed err)
      | Inr gs \<Rightarrow>
          (case kvs_Initialize kvs_scopesRequired getenv of
             Inl err \<Rightarrow> Inl (KvsFailed err)
           | Inr su \<Rightarrow>
               (case pubs_Initialize pubs_scopesRequired (lib_rnd64 lib) (lib_rnd lib 0 32) getenv of
                  Inl err \<Rightarrow> Inl (PubsFailed err)
                | Inr pu \<Rightarrow>
                    Inr \<lparr>in_kvs = kvs_configure lib su, in_grapi = grapi_configure lib gs, in_pubs = pubs_configure lib pu,
                      in_state = \<lparr>k_kvs = \<lparr>ks_kv = su_store su, ks_db = db\<rparr>, k_grapi = workers, k_pubs = pubs_start now\<rparr>\<rparr>)))"

section \<open>The plugins of a server\<close>

text \<open>What a registered plugin does with requests, on its part of the state.\<close>

fun plugin_handler ::
  "kvs_config \<Rightarrow> 'g grapi_config \<Rightarrow> pubs_config \<Rightarrow> oidc \<Rightarrow> plugin_value \<Rightarrow> 'g kapi_state plugin" where
  "plugin_handler kc gc pc prov (KVSPlugin c) = lift_plugin k_kvs (\<lambda>k t. t\<lparr>k_kvs := k\<rparr>) (kvs_ServeHTTP kc)"
| "plugin_handler kc gc pc prov (KopanoGroupwareCorePlugin c) = lift_plugin k_grapi (\<lambda>g t. t\<lparr>k_grapi := g\<rparr>) (grapi_ServeHTTP gc)"
| "plugin_handler kc gc pc prov PubsPlugin = lift_plugin k_pubs (\<lambda>p t. t\<lparr>k_pubs := p\<rparr>) (pubs_ServeHTTP pc)"
| "plugin_handler kc gc pc prov ExamplePlugin = example_ServeHTTP prov"

lemma kapid_registry_Some:
  "kapid_registry name = Some p \<longleftrightarrow>
     (name = ''kvs'' \<and> p = kvs_Register) \<or> (name = ''grapi'' \<and> p = grapi_Register) \<or> (name = ''pubs'' \<and> p = pubs_Register)"
  by (auto simp: kapid_registry_def init_defs Register_defs)

text \<open>A registered plugin is the plugin of that name.\<close>

lemma registered_handler:
  assumes "kapid_registry name = Some p"
  shows "(name, plugin_handler kc gc pc prov p) \<in> set (kapi_plugins kc gc pc)"
  using assms unfolding kapid_registry_Some by (auto simp: Register_defs kapi_plugins_def)

lemma map_filter_Some_map:
  "List.map_filter (\<lambda>x. map_option f (m x)) xs = map f (List.map_filter m xs)"
  by (induction xs) (auto simp: map_filter_simps split: option.split)

text \<open>Looking up names gives some of the plugins.\<close>

lemma handlers_selected:
  "\<exists>ps. map (plugin_handler kc gc pc prov) (List.map_filter kapid_registry ns) = map snd ps \<and>
    set ps \<subseteq> set (kapi_plugins kc gc pc) \<and> fst ` set ps = set ns \<inter> dom kapid_registry"
proof (induction ns)
  case (Cons n ns)
  then obtain ps where ps: "map (plugin_handler kc gc pc prov) (List.map_filter kapid_registry ns) = map snd ps"
    "set ps \<subseteq> set (kapi_plugins kc gc pc)" "fst ` set ps = set ns \<inter> dom kapid_registry" by (elim exE conjE)
  show ?case
  proof (cases "kapid_registry n")
    case None
    then have "n \<notin> dom kapid_registry" by auto
    then show ?thesis using ps None by (intro exI [of _ ps]) (auto simp: map_filter_simps)
  next
    case (Some p)
    then have "n \<in> dom kapid_registry" by auto
    then show ?thesis using ps Some registered_handler [OF Some, of kc gc pc prov]
      by (intro exI [of _ "(n, plugin_handler kc gc pc prov p) # ps"]) (auto simp: map_filter_simps)
  qed
qed (simp add: map_filter_simps)

section \<open>Secret keys\<close>

lemma hex_decode_iff:
  "hex_decode s \<noteq> None \<longleftrightarrow> even (length s) \<and> list_all (\<lambda>c. hex_val c \<noteq> None) s"
  by (induction s rule: hex_decode.induct) (auto split: option.splits)

lemma hex_decode_length: "hex_decode s = Some k \<Longrightarrow> length s = 2 * length k"
  by (induction s arbitrary: k rule: hex_decode.induct) (auto split: option.splits)

lemma pubs_Initialize_iff:
  "(\<exists>pu. pubs_Initialize ds rnd64 rnd32 getenv = Inr pu) \<longleftrightarrow>
     (let key = getenv ''KOPANO_PUBS_SECRET_KEY'' in
      if key = [] then 32 \<le> length rnd64
      else 64 \<le> length key \<and> even (length key) \<and> list_all (\<lambda>c. hex_val c \<noteq> None) key)"
  using hex_decode_iff [of "getenv ''KOPANO_PUBS_SECRET_KEY''"] hex_decode_length [of "getenv ''KOPANO_PUBS_SECRET_KEY''"]
  by (cases "hex_decode (getenv ''KOPANO_PUBS_SECRET_KEY'')") (auto simp: pubs_Initialize_def Let_def)

section \<open>Settings for scopes\<close>

definition with_scopes :: "string \<Rightarrow> string \<Rightarrow> (string \<Rightarrow> string) \<Rightarrow> (string \<Rightarrow> string)" where
  "with_scopes x y getenv = getenv(''KOPANO_KVS_REQUIRED_SCOPES'' := x, ''KOPANO_PUBS_REQUIRED_SCOPES'' := y)"

lemma with_scopes_other:
  "n \<noteq> ''KOPANO_KVS_REQUIRED_SCOPES'' \<Longrightarrow> n \<noteq> ''KOPANO_PUBS_REQUIRED_SCOPES'' \<Longrightarrow> with_scopes x y getenv n = getenv n"
  by (simp add: with_scopes_def)

lemma with_scopes_set:
  "with_scopes x y getenv ''KOPANO_KVS_REQUIRED_SCOPES'' = x" "with_scopes x y getenv ''KOPANO_PUBS_REQUIRED_SCOPES'' = y"
  by (simp_all add: with_scopes_def)

lemma grapi_Initialize_scopes: "grapi_Initialize f (with_scopes x y getenv) = grapi_Initialize f getenv"
  by (simp add: grapi_Initialize_def with_scopes_other Let_def split: option.split)

lemma kvs_Initialize_scopes:
  "kvs_Initialize ds (with_scopes x y getenv) =
     map_sum id (su_scopesRequired_update (\<lambda>_. if x \<noteq> [] then split_all (CHR '' '') x else ds)) (kvs_Initialize ds getenv)"
  by (simp add: kvs_Initialize_def with_scopes_other with_scopes_set Let_def split: sum.split)

lemma pubs_Initialize_scopes:
  "pubs_Initialize ds a b (with_scopes x y getenv) =
     map_sum id (pu_scopesRequired_update (\<lambda>_. if y \<noteq> [] then split_all (CHR '' '') y else ds)) (pubs_Initialize ds a b getenv)"
  by (simp add: pubs_Initialize_def with_scopes_other with_scopes_set Let_def split: option.split)

lemma configure_scopes:
  "kvs_configure lib (su_scopesRequired_update f su) = kvs_configure lib su"
  "pubs_configure lib (pu_scopesRequired_update f pu) = pubs_configure lib pu"
  by (simp_all add: kvs_configure_def pubs_configure_def)

lemma route_scopes:
  "kvs_Initialize ds getenv = Inr su \<Longrightarrow> cfg_scopes (kvs_configure lib su) = ds"
  "pubs_Initialize ds a b getenv = Inr pu \<Longrightarrow> pc_scopes (pubs_configure lib pu) = ds"
  "grapi_Initialize f getenv = Inr gs \<Longrightarrow> gr_scopes (grapi_configure lib gs) =
    (let v = getenv ''KOPANO_GRAPI_REQUIRED_SCOPES'' in if v = [] then grapi_scopesRequired else split_all (CHR '' '') v)"
  by (auto simp: kvs_Initialize_def pubs_Initialize_def grapi_Initialize_def Let_def kvs_configure_def pubs_configure_def
      grapi_configure_def split: sum.splits option.splits if_splits)

section \<open>Properties\<close>

text \<open>C39: what the environment must hold for the three plugins to start: the path of the sockets, which can be
  made absolute; the data source of the store; and either no secret key or one of at least 64 hexadecimal
  digits, an even number of them. No other setting can keep them from starting.\<close>

theorem startup_succeeds_iff:
  "(\<exists>inst. kapi_Initialize lib getenv db workers now = Inr inst) \<longleftrightarrow>
     getenv ''KOPANO_GRAPI_SOCKETS'' \<noteq> [] \<and> lib_abs_path lib (getenv ''KOPANO_GRAPI_SOCKETS'') \<noteq> None \<and>
     getenv ''KOPANO_KVS_DB_DATASOURCE'' \<noteq> [] \<and>
     (let key = getenv ''KOPANO_PUBS_SECRET_KEY'' in
      if key = [] then 32 \<le> length (lib_rnd64 lib)
      else 64 \<le> length key \<and> even (length key) \<and> list_all (\<lambda>c. hex_val c \<noteq> None) key)"
proof -
  have g: "(\<exists>gs. grapi_Initialize (lib_abs_path lib) getenv = Inr gs) \<longleftrightarrow>
      getenv ''KOPANO_GRAPI_SOCKETS'' \<noteq> [] \<and> lib_abs_path lib (getenv ''KOPANO_GRAPI_SOCKETS'') \<noteq> None"
    by (auto simp: grapi_Initialize_def Let_def split: option.split)
  have k: "(\<exists>su. kvs_Initialize kvs_scopesRequired getenv = Inr su) \<longleftrightarrow> getenv ''KOPANO_KVS_DB_DATASOURCE'' \<noteq> []"
    by (auto simp: kvs_Initialize_def New_def Let_def)
  have "(\<exists>inst. kapi_Initialize lib getenv db workers now = Inr inst) \<longleftrightarrow>
      (\<exists>gs. grapi_Initialize (lib_abs_path lib) getenv = Inr gs) \<and> (\<exists>su. kvs_Initialize kvs_scopesRequired getenv = Inr su) \<and>
      (\<exists>pu. pubs_Initialize pubs_scopesRequired (lib_rnd64 lib) (lib_rnd lib 0 32) getenv = Inr pu)"
    by (auto simp: kapi_Initialize_def split: sum.split)
  then show ?thesis unfolding g k pubs_Initialize_iff by simp
qed

text \<open>C40: of the three settings for the required scopes only that of the groupware plugin works. The settings
  for the store and for publish/subscribe change nothing at all in the running server, because their routes
  are made before they are read: these plugins ask for \<open>kopano/kvs\<close> and \<open>kopano/pubs\<close> whatever is set.\<close>

theorem scope_settings_ignored:
  "kapi_Initialize lib (with_scopes x y getenv) db workers now = kapi_Initialize lib getenv db workers now \<and>
   (case kapi_Initialize lib getenv db workers now of
      Inl err \<Rightarrow> True
    | Inr inst \<Rightarrow> cfg_scopes (in_kvs inst) = [''kopano/kvs''] \<and> pc_scopes (in_pubs inst) = [''kopano/pubs''] \<and>
        gr_scopes (in_grapi inst) = (let v = getenv ''KOPANO_GRAPI_REQUIRED_SCOPES'' in
          if v = [] then [''profile'', ''email'', ''kopano/gc''] else split_all (CHR '' '') v))"
proof (rule conjI)
  show "kapi_Initialize lib (with_scopes x y getenv) db workers now = kapi_Initialize lib getenv db workers now"
    unfolding kapi_Initialize_def grapi_Initialize_scopes kvs_Initialize_scopes pubs_Initialize_scopes
    by (simp add: configure_scopes kvs_Initialize_def split: sum.split)
qed (auto simp: kapi_Initialize_def Let_def kvs_scopesRequired_def pubs_scopesRequired_def grapi_scopesRequired_def
    dest!: route_scopes [where lib = lib] split: sum.split)

end
