(* ===== verification/Replies.thy ===== *)
theory Replies
  imports Kapi KVS_Props Pubs_Props
begin

text \<open>
  A type discipline for replies: \<open>replies S h\<close> says that the handler \<open>h\<close>, whenever it returns, has begun
  a reply whose status is in \<open>S\<close>. There is one rule for each way in which the program composes handlers
  (access check, prefix, router, proxy, CORS wrapper, dispatch to plugins), and a type for each handler
  of the plugins (\<open>src/server/handlers.go\<close>, \<open>src/plugins/*/handlers.go\<close>, \<open>http.go\<close>).
\<close>

section \<open>Types of handlers\<close>

definition reply_in :: "nat set \<Rightarrow> ('s \<times> rwriter) outcome \<Rightarrow> bool" where
  "reply_in S x \<longleftrightarrow> (case x of Returns (s, rw) \<Rightarrow> \<exists>c \<in> S. rw_status rw = Some c | Panics m \<Rightarrow> True)"

definition replies :: "nat set \<Rightarrow> 's handler \<Rightarrow> bool" where
  "replies S h \<longleftrightarrow> (\<forall>req s rw. rw_reply rw = None \<longrightarrow> reply_in S (h req (s, rw)))"

named_theorems reply_type \<open>the types of handlers\<close>

lemma reply_in_simps [simp]:
  "reply_in S (Returns (s, rw)) \<longleftrightarrow> (\<exists>c \<in> S. rw_status rw = Some c)"
  "reply_in S (Panics m)"
  "reply_in S (obind x f) \<longleftrightarrow> (\<forall>a. x = Returns a \<longrightarrow> reply_in S (f a))"
  "reply_in S (with_audience user g) \<longleftrightarrow> (\<forall>c. StandardClaims user = Some c \<longrightarrow> reply_in S (g (Audience c)))"
  by (cases x; auto simp: reply_in_def with_audience_def split: option.split)+

lemma repliesI: "(\<And>req s rw. rw_reply rw = None \<Longrightarrow> reply_in S (h req (s, rw))) \<Longrightarrow> replies S h"
  unfolding replies_def by blast

lemma repliesD: "replies S h \<Longrightarrow> rw_reply rw = None \<Longrightarrow> reply_in S (h req (s, rw))"
  unfolding replies_def by blast

lemma reply_in_mono:
  assumes "reply_in S x" and "S \<subseteq> T"
  shows "reply_in T x"
proof (cases x)
  case (Returns a)
  then obtain s rw c where "a = (s, rw)" "c \<in> S" "rw_status rw = Some c" using assms(1) by (cases a) auto
  then show ?thesis using Returns subsetD [OF assms(2), of c] by simp
qed simp

lemma replies_mono: "replies S h \<Longrightarrow> S \<subseteq> T \<Longrightarrow> replies T h"
  unfolding replies_def using reply_in_mono by blast

section \<open>Composition\<close>

lemma replies_access [reply_type]:
  assumes "replies S h"
  shows "replies (insert 403 S) (AccessTokenRequired prov h scopes)"
proof (rule repliesI)
  fix req s and rw :: rwriter
  assume n: "rw_reply rw = None"
  show "reply_in (insert 403 S) (AccessTokenRequired prov h scopes req (s, rw))"
    using guard.refused [of prov scopes req h "(s, rw)"] guard.passed [of prov scopes req _ h "(s, rw)"] n
      reply_in_mono [OF repliesD [OF assms n] subset_insertI]
    by (cases "granted_ctx prov scopes req") (auto simp: rw_status_simps)
qed

lemma replies_StripPrefix [reply_type]: "replies S h \<Longrightarrow> replies (insert 404 S) (StripPrefix p h)"
  by (rule repliesI) (auto simp: StripPrefix_def rw_status_simps intro: reply_in_mono dest: repliesD)

lemma replies_serve_mux:
  assumes "mux_ok mux" and "\<And>r vars. r \<in> set routes \<Longrightarrow> replies S (snd r vars)"
  shows "replies ({301, 404, 405} \<union> S) (serve_mux mux routes)"
proof (rule repliesI)
  fix req s and rw :: rwriter
  assume n: "rw_reply rw = None"
  show "reply_in ({301, 404, 405} \<union> S) (serve_mux mux routes req (s, rw))"
  proof (cases "mux (map fst routes) req")
    case (Matched i vars)
    have "i < length routes" using mux_okD(1) [OF assms(1) Matched] by simp
    then have "replies S (snd (routes ! i) vars)" using assms(2) nth_mem by blast
    then have "reply_in ({301, 404, 405} \<union> S) (snd (routes ! i) vars req (s, rw))"
      by (rule reply_in_mono [OF repliesD [OF _ n] Un_upper2])
    then show ?thesis using Matched by (simp add: serve_mux_def)
  qed (use n in \<open>auto simp: serve_mux_def rw_status_simps\<close>)
qed

text \<open>What the documentation of the CORS wrapper says of its replies: it adds headers, and answers
  preflight requests itself.\<close>

definition cors_ok :: "('s handler \<Rightarrow> 's handler) option \<Rightarrow> bool" where
  "cors_ok wrap \<longleftrightarrow> (\<forall>w S h. wrap = Some w \<longrightarrow> replies S h \<longrightarrow> replies ({200, 204} \<union> S) (w h))"

lemma replies_cors:
  assumes "cors_ok wrap" and "replies S h"
  shows "replies ({200, 204} \<union> S) (case wrap of None \<Rightarrow> h | Some w \<Rightarrow> w h)"
  using assms replies_mono [OF assms(2), of "{200, 204} \<union> S"] by (auto simp: cors_ok_def split: option.split)

text \<open>What the documentation of a proxy handler says: without an error it has replied; with one it has not
  and gives the status, of three digits, with which the caller is to reply.\<close>

definition proxy_ok :: "nat set \<Rightarrow> 's proxy_handler option \<Rightarrow> bool" where
  "proxy_ok S proxy \<longleftrightarrow> (\<forall>p req s rw s' rw' status ok. proxy = Some p \<longrightarrow> rw_reply rw = None \<longrightarrow>
     p req (s, rw) = Returns ((s', rw'), status, ok) \<longrightarrow>
     (if ok then \<exists>c \<in> S. rw_status rw' = Some c else rw_reply rw' = None \<and> status \<in> S \<and> 100 \<le> status \<and> status \<le> 999))"

lemma proxy_okD:
  assumes "proxy_ok S (Some p)" and "rw_reply rw = None" and "p req (s, rw) = Returns ((s', rw'), status, ok)"
  shows "if ok then \<exists>c \<in> S. rw_status rw' = Some c else rw_reply rw' = None \<and> status \<in> S \<and> 100 \<le> status \<and> status \<le> 999"
  using assms unfolding proxy_ok_def by blast

lemma replies_proxy:
  assumes "proxy_ok S proxy" and "replies T h"
  shows "replies (S \<union> T) (HandleWithProxy proxy h)"
proof (rule repliesI)
  fix req s and rw :: rwriter
  assume n: "rw_reply rw = None"
  show "reply_in (S \<union> T) (HandleWithProxy proxy h req (s, rw))"
  proof (cases proxy)
    case None
    then show ?thesis using reply_in_mono [OF repliesD [OF assms(2) n]] by (simp add: HandleWithProxy_def)
  next
    case (Some p)
    then show ?thesis using proxy_okD [OF assms(1) [unfolded Some] n, of req s]
      by (fastforce simp: HandleWithProxy_def http_error_checked_def rw_status_simps split: if_splits)
  qed
qed

text \<open>A sticky proxy is as good as the proxy behind it.\<close>

lemma sticky_reply:
  assumes "sticky_Handler sph rnd p req (s, rw) = x"
  shows "\<exists>req' rw'. p req' (s, rw') = x \<and> rw_reply rw' = rw_reply rw"
proof -
  have "rw_reply (set_cookie n v pt w) = rw_reply w" for n v pt w by (simp add: set_cookie_def Let_def)
  then show ?thesis using assms unfolding sticky_Handler_def Let_def
    by (auto split: prod.splits if_splits intro!: exI)
qed

lemma proxy_ok_sticky:
  assumes "proxy_ok S (Some p)"
  shows "proxy_ok S (Some (sticky_Handler sph rnd p))"
  unfolding proxy_ok_def
proof (intro allI impI, clarify)
  fix req s rw s' rw' status ok
  assume n: "rw_reply rw = None" and h: "sticky_Handler sph rnd p req (s, rw) = Returns ((s', rw'), status, ok)"
  obtain req' w where "p req' (s, w) = Returns ((s', rw'), status, ok)" "rw_reply w = None"
    using sticky_reply [OF h] n by auto
  then show "if ok then \<exists>c \<in> S. rw_status rw' = Some c else rw_reply rw' = None \<and> status \<in> S \<and> 100 \<le> status \<and> status \<le> 999"
    using proxy_okD [OF assms] by blast
qed

section \<open>The handlers of the store\<close>

lemma WriteJSON_status: "rw_reply rw = None \<Longrightarrow> rw_status (WriteJSON code v ct rw) = Some code"
  by (simp add: WriteJSON_def rw_status_def)

lemma write_entries_status: "rw_status rw = Some c \<Longrightarrow> rw_status (write_entries rs first rw) = Some c"
  by (induction rs first rw rule: write_entries.induct) (auto simp: rw_status_write split: sum.split)

lemma reply_array_status: "rw_reply rw = None \<Longrightarrow> rw_status (reply_array key rs rw) = Some 200"
  unfolding reply_array_def Let_def
  by (intro rw_status_write write_entries_status) (simp_all add: rw_status_simps)

lemma reply_entry_status: "rw_reply rw = None \<Longrightarrow> rw_status (reply_entry raw r rw) \<in> {Some 200, Some 500}"
  by (auto simp: reply_entry_def rw_status_simps rw_status_write split: sum.split)

lemma read_all_max_rw: "read_all_max n req rw = (x, rw') \<Longrightarrow> rw_reply rw' = rw_reply rw"
  using read_all_max_reply [of n req rw] by simp

lemma decode_batch_rw: "decode_batch b req rw = (x, rw') \<Longrightarrow> rw_reply rw' = rw_reply rw"
  by (auto simp: decode_batch_def Let_def split: if_splits)

lemma handleGet_type: "replies {200, 404, 500} (handleGet cfg realm key user)"
proof (rule repliesI)
  fix req s and rw :: rwriter
  assume n: "rw_reply rw = None"
  then show "reply_in {200, 404, 500} (handleGet cfg realm key user req (s, rw))"
    using reply_array_status [OF n] reply_entry_status [OF n]
    by (auto simp: handleGet_def Let_def rw_status_simps split: prod.split sum.split)
qed

lemma handleCreateOrUpdate_type: "replies {200, 400, 500} (handleCreateOrUpdate cfg realm key user)"
  by (rule repliesI)
    (auto simp: handleCreateOrUpdate_def Let_def rw_status_simps dest!: read_all_max_rw split: prod.split sum.split)

lemma handleBatch_type: "replies {200, 400, 500} (handleBatchCreateOrUpdate cfg realm key user)"
  by (rule repliesI)
    (auto simp: handleBatchCreateOrUpdate_def Let_def rw_status_simps dest!: decode_batch_rw
      split: prod.split sum.split option.split list.split)

lemma handleDelete_type: "replies {200, 404, 500} (handleDelete cfg realm key user)"
  by (rule repliesI) (auto simp: handleDelete_def Let_def rw_status_simps split: prod.split sum.split)

lemma handleUserKV_type [reply_type]: "replies {200, 400, 403, 404, 500, 501} (handleUserKV cfg)"
proof (rule repliesI)
  fix req s and rw :: rwriter
  assume n: "rw_reply rw = None"
  note t = repliesD [OF handleGet_type n] repliesD [OF handleCreateOrUpdate_type n]
    repliesD [OF handleBatch_type n] repliesD [OF handleDelete_type n]
  show "reply_in {200, 400, 403, 404, 500, 501} (handleUserKV cfg req (s, rw))"
    using n unfolding handleUserKV_def Let_def
    by (auto simp: rw_status_simps split: prod.split option.split intro!: reply_in_mono [OF t(1)] reply_in_mono [OF t(2)]
        reply_in_mono [OF t(3)] reply_in_mono [OF t(4)])
qed

definition kvs_statuses :: "nat set" where
  "kvs_statuses = {200, 301, 400, 403, 404, 405, 500, 501}"

lemma kvs_http_type:
  assumes "mux_ok (cfg_mux cfg)"
  shows "replies kvs_statuses (kvs_http cfg)"
proof -
  have "replies (insert 404 (insert 403 {200, 400, 403, 404, 500, 501})) (snd r vars)" if "r \<in> set (kvs_routes cfg)" for r vars
    using that by (simp add: kvs_routes_def reply_type)
  from replies_serve_mux [OF assms this] show ?thesis
    unfolding kvs_http_def by (rule replies_mono) (auto simp: kvs_statuses_def)
qed

section \<open>The handlers of the groupware plugin\<close>

lemma handleProxied_type:
  assumes "proxy_ok S proxy"
  shows "replies ({403, 502} \<union> S) (handleProxied proxy)"
proof (rule repliesI)
  fix req s and rw :: rwriter
  assume n: "rw_reply rw = None"
  have "replies {502} (handleNoProxy :: 'a handler)"
    by (rule repliesI) (simp add: handleNoProxy_def rw_status_simps)
  then have p: "replies (S \<union> {502}) (HandleWithProxy proxy handleNoProxy)" by (rule replies_proxy [OF assms])
  obtain q ok where "injectAuthIntoRequestHeaders req = (q, ok)" by fastforce
  then show "reply_in ({403, 502} \<union> S) (handleProxied proxy req (s, rw))"
    using n reply_in_mono [OF repliesD [OF p n], of "{403, 502} \<union> S" q s]
    by (cases ok) (auto simp: handleProxied_def rw_status_simps)
qed

lemma grapi_route_type:
  assumes "proxy_ok S (gr_default cfg)" and "proxy_ok S (gr_subscription cfg)" and "grapi_route cfg req = Some (h, q)"
  shows "replies ({403, 502} \<union> S) h"
proof -
  have "insert 403 ({403, 502} \<union> S) = {403, 502} \<union> S" by auto
  then have "replies ({403, 502} \<union> S) (AccessTokenRequired (gr_oidc cfg) (handleDefaultV1 cfg) sc)"
    "replies ({403, 502} \<union> S) (AccessTokenRequired (gr_oidc cfg) (handleSubscriptionsV1 cfg) sc)" for sc
    using replies_access [OF handleProxied_type [OF assms(1)]] replies_access [OF handleProxied_type [OF assms(2)]]
    unfolding handleDefaultV1_def handleSubscriptionsV1_def by simp_all
  then show ?thesis using assms(3) by (auto simp: grapi_route_def Let_def split: if_splits)
qed

section \<open>The handlers of publish/subscribe\<close>

lemma register_type [reply_type]: "replies {200, 500} (MakeHTTPWebhookRegisterHandler cfg)"
  by (rule repliesI)
    (auto simp: MakeHTTPWebhookRegisterHandler_def handleWebhookRegister_def Let_def WriteJSON_status rw_status_simps
      split: option.splits prod.splits)

lemma publish_type [reply_type]: "replies {200, 204, 400, 404, 422} (MakeHTTPWebhookPublishHandler cfg vars)"
  by (rule repliesI)
    (auto simp: MakeHTTPWebhookPublishHandler_def handleWebhookPublish_def Let_def rw_status_simps rw_status_write
      split: option.split)

lemma connect_type [reply_type]: "replies {200, 500} (MakeHTTPWebsocketConnectHandler cfg)"
  by (rule repliesI)
    (auto simp: MakeHTTPWebsocketConnectHandler_def WriteJSON_status rw_status_simps split: option.split prod.split)

text \<open>What the documentation of the websocket library says of \<open>Upgrade\<close>: it switches protocols, answers a
  handshake that fails, or fails before it has replied.\<close>

definition upgrade_ok :: "(request \<Rightarrow> rwriter \<Rightarrow> upgrade \<times> rwriter) \<Rightarrow> bool" where
  "upgrade_ok up \<longleftrightarrow> (\<forall>req rw. rw_reply rw = None \<longrightarrow>
     (case up req rw of
        (Upgraded, rw') \<Rightarrow> rw_status rw' = Some 101
      | (HandshakeFailed, rw') \<Rightarrow> \<exists>c \<in> {400, 403, 405, 426, 500}. rw_status rw' = Some c
      | (UpgradeFailed, rw') \<Rightarrow> rw_reply rw' = None))"

lemma http_error_status: "rw_status rw = Some c \<Longrightarrow> rw_status (http_error m code rw) = Some c"
  by (auto simp: rw_status_def http_error_def)

lemma websocket_type:
  assumes "upgrade_ok (pc_upgrade cfg)"
  shows "replies {101, 400, 403, 404, 405, 426, 500} (HTTPWebsocketHandler cfg vars)"
proof (rule repliesI)
  fix req s and rw :: rwriter
  assume n: "rw_reply rw = None"
  obtain u w where u: "pc_upgrade cfg req rw = (u, w)" by fastforce
  have "case pc_upgrade cfg req rw of (Upgraded, rw') \<Rightarrow> rw_status rw' = Some 101
      | (HandshakeFailed, rw') \<Rightarrow> \<exists>c \<in> {400, 403, 405, 426, 500}. rw_status rw' = Some c
      | (UpgradeFailed, rw') \<Rightarrow> rw_reply rw' = None"
    using assms [unfolded upgrade_ok_def, rule_format, OF n] .
  then show "reply_in {101, 400, 403, 404, 405, 426, 500} (HTTPWebsocketHandler cfg vars req (s, rw))"
    using n u
    by (cases u) (auto simp: HTTPWebsocketHandler_def handleWebsocketConnection_def Let_def rw_status_simps http_error_status
        split: option.split)
qed

definition pubs_statuses :: "nat set" where
  "pubs_statuses = {101, 200, 204, 301, 400, 403, 404, 405, 422, 426, 500}"

lemma pubs_http_type:
  assumes "mux_ok (pc_mux cfg)" and "upgrade_ok (pc_upgrade cfg)"
  shows "replies pubs_statuses (pubs_http cfg)"
proof -
  have "replies pubs_statuses (snd r vars)" if "r \<in> set (pubs_routes cfg)" for r vars
  proof -
    have "replies pubs_statuses (MakeHTTPWebhookPublishHandler cfg vars)"
      "replies pubs_statuses (AccessTokenRequired (pc_oidc cfg) (MakeHTTPWebhookRegisterHandler cfg) (pc_scopes cfg))"
      "replies pubs_statuses (AccessTokenRequired (pc_oidc cfg) (MakeHTTPWebsocketConnectHandler cfg) (pc_scopes cfg))"
      "replies pubs_statuses (HTTPWebsocketHandler cfg vars)"
      by (rule replies_mono, rule reply_type websocket_type [OF assms(2)] replies_access [OF register_type]
            replies_access [OF connect_type], simp add: pubs_statuses_def)+
    then show ?thesis using that unfolding pubs_routes_def by auto
  qed
  from replies_serve_mux [OF assms(1) this] show ?thesis
    unfolding pubs_http_def by (rule replies_mono) (auto simp: pubs_statuses_def)
qed

section \<open>The whole server\<close>

definition cors_statuses :: "('s handler \<Rightarrow> 's handler) option \<Rightarrow> nat set" where
  "cors_statuses wrap = (case wrap of None \<Rightarrow> {} | Some w \<Rightarrow> {200, 204})"

lemma replies_wrapped:
  assumes "cors_ok wrap" and "replies S h"
  shows "replies (cors_statuses wrap \<union> S) (case wrap of None \<Rightarrow> h | Some w \<Rightarrow> w h)"
  using assms by (auto simp: cors_ok_def cors_statuses_def split: option.split)

text \<open>The statuses with which a request may be answered, by its path; \<open>S\<close> are those of the workers.\<close>

definition reply_statuses ::
  "kvs_config \<Rightarrow> 'g grapi_config \<Rightarrow> pubs_config \<Rightarrow> nat set \<Rightarrow> request \<Rightarrow> nat set" where
  "reply_statuses kc gc pc S req =
     (if req_path req = ''/health-check'' then {200}
      else if has_prefix (req_path req) kvs_base
      then cors_statuses (cfg_cors kc) \<union> {200, 301, 400, 403, 404, 405, 500, 501}
      else if grapi_owns gc req then cors_statuses (gr_cors gc) \<union> {403, 502} \<union> S
      else if has_prefix (req_path req) pubs_base
      then cors_statuses (pc_cors pc) \<union> {101, 200, 204, 301, 400, 403, 404, 405, 422, 426, 500}
      else {404})"

lemma reply_in_plugin:
  assumes "reply_in S x"
  shows "reply_in S (obind (obind x (\<lambda>srw. Returns (srw, True, False))) (\<lambda>((x, rw'), handled, err). Returns (put x, rw')))"
  using assms by (cases x) auto

lemma kapi_reply_in:
  assumes "mux_ok (cfg_mux kc)" and "mux_ok (pc_mux pc)" and "cors_ok (cfg_cors kc)" and "cors_ok (gr_cors gc)"
    and "cors_ok (pc_cors pc)" and "proxy_ok S (gr_default gc)" and "proxy_ok S (gr_subscription gc)"
    and "upgrade_ok (pc_upgrade pc)" and n: "rw_reply rw = None"
  shows "reply_in (reply_statuses kc gc pc S req) (ServeHTTP (map snd (kapi_plugins kc gc pc)) req (s, rw))"
proof -
  have k: "has_prefix (req_path req) kvs_base \<Longrightarrow>
      reply_in (cors_statuses (cfg_cors kc) \<union> {200, 301, 400, 403, 404, 405, 500, 501})
        (obind (kvs_ServeHTTP kc req (k_kvs s, rw)) (\<lambda>((x, rw'), handled, err). Returns (s\<lparr>k_kvs := x\<rparr>, rw')))"
    using replies_wrapped [OF assms(3) kvs_http_type [OF assms(1)]]
    unfolding kvs_statuses_def by (simp only: kvs_ServeHTTP_def if_True) (rule reply_in_plugin, erule repliesD [OF _ n])
  have p: "has_prefix (req_path req) pubs_base \<Longrightarrow>
      reply_in (cors_statuses (pc_cors pc) \<union> {101, 200, 204, 301, 400, 403, 404, 405, 422, 426, 500})
        (obind (pubs_ServeHTTP pc req (k_pubs s, rw)) (\<lambda>((x, rw'), handled, err). Returns (s\<lparr>k_pubs := x\<rparr>, rw')))"
    using replies_wrapped [OF assms(5) pubs_http_type [OF assms(2) assms(8)]]
    unfolding pubs_statuses_def by (simp only: pubs_ServeHTTP_def if_True) (rule reply_in_plugin, erule repliesD [OF _ n])
  have g: "reply_in (cors_statuses (gr_cors gc) \<union> ({403, 502} \<union> S))
      (obind (grapi_ServeHTTP gc req (k_grapi s, rw)) (\<lambda>((x, rw'), handled, err). Returns (s\<lparr>k_grapi := x\<rparr>, rw')))"
    if "grapi_owns gc req"
  proof -
    have "grapi_route gc req \<noteq> None" using that by (auto simp: grapi_owns_def grapi_route_def Let_def)
    then obtain h q where r: "grapi_route gc req = Some (h, q)" by auto
    from replies_wrapped [OF assms(4) grapi_route_type [OF assms(6,7) r]]
    have "reply_in (cors_statuses (gr_cors gc) \<union> ({403, 502} \<union> S))
        ((case gr_cors gc of None \<Rightarrow> h | Some wrap \<Rightarrow> wrap h) q (k_grapi s, rw))"
      by (rule repliesD [OF _ n])
    from reply_in_plugin [OF this] show ?thesis by (simp only: grapi_ServeHTTP_def r option.case prod.case)
  qed
  show ?thesis
    using k p g n by (simp add: kapi_serve reply_statuses_def rw_status_simps Un_assoc)
qed

section \<open>Properties\<close>


text \<open>A worker that answers, and a websocket library that refuses.\<close>

definition answering_cfg :: "nat grapi_config" where
  "answering_cfg = grapi_sample_cfg\<lparr>gr_default := Some (\<lambda>req (s, rw). Returns ((Suc s, write_header 200 rw), 0, True))\<rparr>"

definition refusing_cfg :: pubs_config where
  "refusing_cfg = pubs_sample_cfg\<lparr>pc_upgrade := (\<lambda>req rw. (HandshakeFailed, http_error [] 400 rw))\<rparr>"

lemma answering_served:
  "AddContext None (ServeHTTP (map snd (kapi_plugins kc answering_cfg pc))) grapi_sample_req
     (\<lparr>k_kvs = k, k_grapi = 0, k_pubs = p\<rparr>, fresh_rw) = Returns (\<lparr>k_kvs = k, k_grapi = 1, k_pubs = p\<rparr>, write_header 200 fresh_rw)"
proof -
  have auth: "header_get [''Authorization'' \<mapsto> [''Bearer good'']] ''Authorization'' = ''Bearer good''"
    by code_simp
  have path: "has_prefix ''/api/gc/v1/me'' v1_base" "\<not> has_prefix ''/api/gc/v1/me'' v1_subscriptions" "\<not> has_prefix ''/api/gc/v1/me'' kvs_base"
    by code_simp+
  have tok: "splitN2 (CHR '' '') ''Bearer good'' = [''Bearer'', ''good'']"
    by code_simp
  have un: "KCIDFromClaims [(''kc.identity'', CMap [(''kc.i.un'', CStr ''alice@example'')])] = ([], ''alice@example'')"
    by code_simp
  show ?thesis
    by (simp add: AddContext_def kapi_serve grapi_owns_def grapi_ServeHTTP_def grapi_route_def grapi_sample_req_def
        answering_cfg_def grapi_sample_cfg_def path AccessTokenRequired_def check_access_def bearer_token_def auth tok
        sample_oidc_def handleDefaultV1_def handleProxied_def injectAuthIntoRequestHeaders_def
        ContextWithRecord_def un HandleWithProxy_def)
qed


end
