(* ===== verification/Documents.thy ===== *)
theory Documents
  imports Kapi KVS_Props Pubs_Props
begin

text \<open>
  A document on its way through the whole server: from the request that stores it, past the requests of
  others, to the request that reads it. Everything between the network and the table takes part: the
  dispatch (\<open>src/server/server.go\<close>), the router and prefix (\<open>src/plugins/kvs/http.go\<close>), the access check
  (\<open>src/server/handlers.go\<close>), the handlers and the store (\<open>src/plugins/kvs\<close>).
\<close>

section \<open>A request of the store\<close>

text \<open>A request with access for a user reaches the handler with the rest of its path as the key.\<close>

lemma kapi_document_request:
  assumes "mux_ok (cfg_mux kc)" and "cfg_cors kc = None"
    and "req_path req = kvs_user_prefix @ key" and "clean_path (req_path req) = req_path req"
    and "check_access (cfg_oidc kc) (cfg_scopes kc) req = Inr (uid, std, claims)" and "uid \<noteq> []"
  shows "AddContext None (ServeHTTP (map snd (kapi_plugins kc gc pc))) req (s, rw) =
    obind (handleUserKV kc (req\<lparr>req_path := key, req_ctx := Some
        \<lparr>AuthenticatedUserID = uid, StandardClaims = std, ExtraClaims = Some claims\<rparr>\<rparr>) (k_kvs s, rw))
      (\<lambda>(x, rw'). Returns (s\<lparr>k_kvs := x\<rparr>, rw'))"
proof -
  let ?req = "req\<lparr>req_ctx := None\<rparr>"
  have p: "has_prefix (req_path req) kvs_base" "has_prefix (req_path req) kvs_user_prefix"
    using assms(3) has_prefix_append [of kvs_base "''kv/user/'' @ key"] has_prefix_append [of kvs_user_prefix key]
    by (simp_all add: kvs_user_prefix_def)
  have ne: "req_path req \<noteq> ''/health-check''" using p(1) health_path(1) by metis
  have "check_access (cfg_oidc kc) (cfg_scopes kc) (?req\<lparr>req_path := key\<rparr>) = check_access (cfg_oidc kc) (cfg_scopes kc) req"
    by (rule check_access_same) simp
  then have a: "AccessTokenRequired (cfg_oidc kc) (handleUserKV kc) (cfg_scopes kc) (?req\<lparr>req_path := key\<rparr>) x =
      handleUserKV kc (req\<lparr>req_path := key, req_ctx := Some
        \<lparr>AuthenticatedUserID = uid, StandardClaims = std, ExtraClaims = Some claims\<rparr>\<rparr>) x" for x
    using assms(5,6) by (simp add: AccessTokenRequired_def ContextWithRecord_def)
  have "cfg_mux kc [\<lparr>route_path = Prefix kvs_user_prefix, route_methods = []\<rparr>] ?req = Matched 0 []"
    by (rule mux_first [OF assms(1)]) (use assms(4) p(2) in \<open>simp_all add: match_route_def match_path_def\<close>)
  then have "kvs_http kc ?req x = AccessTokenRequired (cfg_oidc kc) (handleUserKV kc) (cfg_scopes kc) (?req\<lparr>req_path := key\<rparr>) x" for x
    using p(2) assms(3) kvs_user_prefix_nonempty
    by (simp add: kvs_http_def serve_mux_def kvs_routes_def StripPrefix_def)
  then have "kvs_ServeHTTP kc ?req x = obind (handleUserKV kc (req\<lparr>req_path := key, req_ctx := Some
        \<lparr>AuthenticatedUserID = uid, StandardClaims = std, ExtraClaims = Some claims\<rparr>\<rparr>) x) (\<lambda>srw'. Returns (srw', True, False))" for x
    using p(1) a assms(2) by (simp add: kvs_ServeHTTP_def)
  then show ?thesis using p(1) ne
    by (simp add: AddContext_def kapi_serve obind_assoc case_prod_unfold)
qed

text \<open>The form of a request does not depend on its path and context.\<close>

lemma form_of_routed:
  "has_form_body (req\<lparr>req_path := p, req_ctx := c\<rparr>) = has_form_body req"
  "form_get (ParseForm (req\<lparr>req_path := p, req_ctx := c\<rparr>)) k = form_get (ParseForm req) k"
proof -
  show h: "has_form_body (req\<lparr>req_path := p, req_ctx := c\<rparr>) = has_form_body req" by (simp add: has_form_body_def)
  show "form_get (ParseForm (req\<lparr>req_path := p, req_ctx := c\<rparr>)) k = form_get (ParseForm req) k"
    by (simp add: form_get_def ParseForm_def Let_def h)
qed

section \<open>Requests of others\<close>

lemma find_in_filter: "(\<And>x. P x \<Longrightarrow> Q x) \<Longrightarrow> List.find P (filter Q xs) = List.find P xs"
  by (induction xs) auto

text \<open>A row is found by its index among the rows that another user does not own.\<close>

lemma table_get_others:
  assumes "others e v t' = others e v t" and "eng_norm e v \<noteq> eng_norm e (OwnerID r)"
  shows "table_get e t' (record_index e realm r) = table_get e t (record_index e realm r)"
proof -
  have "table_get e x (record_index e realm r) = table_get e (others e v x) (record_index e realm r)" for x
    unfolding table_get_def others_def
    by (rule find_in_filter [symmetric])
      (use assms(2) in \<open>auto simp: row_index_def record_index_def owned_def split: sqlval.splits\<close>)
  then show ?thesis using assms(1) by metis
qed

text \<open>A request that does not come from the user: it belongs to another plugin, has no access, or comes
  from someone whom the database does not take for the user.\<close>

definition not_from :: "kvs_config \<Rightarrow> string \<Rightarrow> request \<Rightarrow> bool" where
  "not_from kc uid req \<longleftrightarrow> \<not> has_prefix (req_path req) kvs_base \<or>
     (case check_access (cfg_oidc kc) (cfg_scopes kc) req of
        Inl err \<Rightarrow> True
      | Inr (v, std, claims) \<Rightarrow> eng_norm (cfg_engine kc) v \<noteq> eng_norm (cfg_engine kc) uid)"

lemma other_request_keeps_document:
  assumes "mux_ok (cfg_mux kc)" and "cfg_cors kc = None"
    and "store_working kc (k_kvs s)" and "document_stored kc (k_kvs s) preq uid aud" and "not_from kc uid req"
    and r: "AddContext None (ServeHTTP (map snd (kapi_plugins kc gc pc))) req (s, rw) = Returns (s', rw')"
  shows "store_working kc (k_kvs s') \<and> document_stored kc (k_kvs s') preq uid aud"
proof (cases "k_kvs s' = k_kvs s")
  case False
  let ?req = "req\<lparr>req_ctx := None\<rparr>"
  have p: "has_prefix (req_path req) kvs_base"
    using r False by (auto simp: AddContext_def kapi_serve obind_eq_Returns split: if_splits)
  then have h: "kvs_http kc ?req (k_kvs s, rw) = Returns (k_kvs s', rw')"
    using r assms(2) False
    by (auto simp: AddContext_def kapi_serve kvs_ServeHTTP_def obind_eq_Returns split: if_splits)
  show ?thesis
  proof (rule kvs_http_changes [OF assms(1) _ h False])
    fix path v std claims
    assume c: "check_access (cfg_oidc kc) (cfg_scopes kc) ?req = Inr (v, std, claims)"
      and u: "handleUserKV kc (?req\<lparr>req_path := path, req_ctx := Some \<lparr>AuthenticatedUserID = v, StandardClaims = std,
        ExtraClaims = Some claims\<rparr>\<rparr>) (k_kvs s, rw) = Returns (k_kvs s', rw')"
    have "check_access (cfg_oidc kc) (cfg_scopes kc) ?req = check_access (cfg_oidc kc) (cfg_scopes kc) req"
      by (rule check_access_same) simp
    then have v: "eng_norm (cfg_engine kc) v \<noteq> eng_norm (cfg_engine kc) (OwnerID (put_record preq uid aud))"
      using c [symmetric] assms(5) p by (auto simp: not_from_def split: sum.splits)
    have ctx: "RecordFromContext (req_ctx (?req\<lparr>req_path := path, req_ctx := Some \<lparr>AuthenticatedUserID = v,
        StandardClaims = std, ExtraClaims = Some claims\<rparr>\<rparr>)) = (Some \<lparr>AuthenticatedUserID = v,
        StandardClaims = std, ExtraClaims = Some claims\<rparr>, True)" by simp
    have w: "store_working kc (k_kvs s')" by (rule handler_keeps_working [OF assms(3) ctx u])
    have "handle_ok (ks_kv (k_kvs s))" by (rule store_working_handle_ok [OF assms(3)])
    from handler_others [OF this ctx u]
    have "others (cfg_engine kc) v (db_rows (ks_db (k_kvs s'))) = others (cfg_engine kc) v (db_rows (ks_db (k_kvs s)))" by simp
    from table_get_others [OF this v] show ?thesis using w assms(4) by (simp add: document_stored_def)
  qed simp
qed (use assms(3,4) in simp)

section \<open>Runs of requests\<close>

text \<open>One request after the other, none of which panics.\<close>

fun serve_all :: "'s handler \<Rightarrow> request list \<Rightarrow> 's \<Rightarrow> 's outcome" where
  "serve_all h [] s = Returns s"
| "serve_all h (req # reqs) s = obind (h req (s, fresh_rw)) (\<lambda>(s', rw). serve_all h reqs s')"

lemma others_keep_document:
  assumes "mux_ok (cfg_mux kc)" and "cfg_cors kc = None"
    and "store_working kc (k_kvs s)" and "document_stored kc (k_kvs s) preq uid aud" and "\<forall>req \<in> set reqs. not_from kc uid req"
    and "serve_all (AddContext None (ServeHTTP (map snd (kapi_plugins kc gc pc)))) reqs s = Returns s'"
  shows "store_working kc (k_kvs s') \<and> document_stored kc (k_kvs s') preq uid aud"
  using assms(3-6)
proof (induction reqs arbitrary: s)
  case (Cons req reqs)
  obtain t rw where t: "AddContext None (ServeHTTP (map snd (kapi_plugins kc gc pc))) req (s, fresh_rw) = Returns (t, rw)"
    and rest: "serve_all (AddContext None (ServeHTTP (map snd (kapi_plugins kc gc pc)))) reqs t = Returns s'"
    using Cons.prems(4) by (auto simp: obind_eq_Returns)
  have "not_from kc uid req" using Cons.prems(3) by simp
  from other_request_keeps_document [OF assms(1,2) Cons.prems(1,2) this t]
  show ?case using Cons.IH [OF _ _ _ rest] Cons.prems(3) by simp
qed simp

section \<open>Properties\<close>

text \<open>C5: a document comes back from the server as it was sent. A user stores it with a PUT through the whole
  server, with a token that grants access; then come any number of requests to the groupware and
  publish/subscribe plugins, of other users of the store, or without access; then a GET of the same path
  with \<open>raw=1\<close> and the same token answers 200 with the same bytes and the same content type
  (\<open>application/octet-stream\<close> when none was given).\<close>

theorem document_survives:
  assumes "mux_ok (cfg_mux kc)" and "cfg_cors kc = None" and "store_working kc (k_kvs s)"
    and "check_access (cfg_oidc kc) (cfg_scopes kc) preq = Inr (uid, Some std, claims)" and "uid \<noteq> []"
    and "req_path preq = kvs_user_prefix @ key" and "clean_path (req_path preq) = req_path preq" and "document_put preq"
    and "serve_all (AddContext None (ServeHTTP (map snd (kapi_plugins kc gc pc)))) (preq # reqs) s = Returns s'"
    and "\<forall>req \<in> set reqs. not_from kc uid req"
    and "header_get (req_header greq) ''Authorization'' = header_get (req_header preq) ''Authorization''"
    and "req_path greq = req_path preq" and "document_get greq" and "form_get (ParseForm greq) ''raw'' = ''1''"
  shows "\<exists>s'' rw. AddContext None (ServeHTTP (map snd (kapi_plugins kc gc pc))) greq (s', fresh_rw) = Returns (s'', rw) \<and>
    rw_status rw = Some 200 \<and> rw_body rw = req_body preq \<and>
    header_get (rw_header rw) ''Content-Type'' =
      (let ct = header_get (req_header preq) ''Content-Type'' in if ct = [] then octet_stream else ct)"
proof -
  let ?S = "AddContext None (ServeHTTP (map snd (kapi_plugins kc gc pc)))"
  let ?user = "\<lparr>AuthenticatedUserID = uid, StandardClaims = Some std, ExtraClaims = Some claims\<rparr>"
  let ?p = "preq\<lparr>req_path := key, req_ctx := Some ?user\<rparr>" and ?g = "greq\<lparr>req_path := key, req_ctx := Some ?user\<rparr>"
  have dp: "document_put ?p" using assms(8)
    by (simp add: document_put_def form_of_routed)
  have dg: "document_get ?g" "form_get (ParseForm ?g) ''raw'' = ''1''" using assms(13,14)
    by (simp_all add: document_get_def form_of_routed)
  have cg: "check_access (cfg_oidc kc) (cfg_scopes kc) greq = Inr (uid, Some std, claims)"
    using check_access_same [OF assms(11)] assms(4) by metis
  note put = kapi_document_request [OF assms(1,2,6,7,4,5), of gc pc]
  obtain t where t: "?S preq (s, fresh_rw) = Returns t" "serve_all ?S reqs (fst t) = Returns s'"
    using assms(9) by (auto simp: obind_eq_Returns)
  then obtain x w where x: "handleUserKV kc ?p (k_kvs s, fresh_rw) = Returns (x, w)" "k_kvs (fst t) = x"
    using put [of s fresh_rw] by (auto simp: obind_eq_Returns)
  note d = document_put_stores [OF assms(3) _ _ dp x(1), of ?user True std]
  from others_keep_document [OF assms(1,2) _ _ assms(10) t(2), of ?p "Audience std"] d x(2)
  have w: "store_working kc (k_kvs s')" and st: "document_stored kc (k_kvs s') ?p uid (Audience std)" by simp_all
  have "handleUserKV kc ?g (k_kvs s', fresh_rw) = Returns ((k_kvs s')\<lparr>ks_db := db_tick (ks_db (k_kvs s'))\<rparr>,
      reply_entry True (empty_record\<lparr>Key := key, Value := Some (req_body preq),
        ContentType := header_get (req_header preq) ''Content-Type''\<rparr>) fresh_rw)"
    using document_get_stored [OF w, of ?g ?user True std ?p fresh_rw] dp st dg by simp
  then show ?thesis
    using kapi_document_request [OF assms(1,2) _ _ cg assms(5), of key gc pc s' fresh_rw] assms(6,7,12)
    by (simp add: reply_entry_def rw_status_def header_get_set Let_def)
qed

text \<open>Two users, and their requests for the same path.\<close>

definition two_users :: oidc where
  "two_users = sample_oidc\<lparr>validate := (\<lambda>t.
     if t = ''good'' then (''alice'', Some \<lparr>Audience = ''web''\<rparr>, Some [], True)
     else if t = ''other'' then (''bob'', Some \<lparr>Audience = ''web''\<rparr>, Some [], True)
     else ([], None, None, False))\<rparr>"

definition docs_cfg :: kvs_config where
  "docs_cfg = sample_cfg\<lparr>cfg_oidc := two_users\<rparr>"

definition net_req :: "string \<Rightarrow> string \<Rightarrow> string \<Rightarrow> string \<Rightarrow> request" where
  "net_req meth query body token = \<lparr>req_method = meth, req_path = ''/api/kvs/v1/kv/user/notes/a'', req_rawquery = query,
     req_header = [''Content-Type'' \<mapsto> [''text/plain''], ''Authorization'' \<mapsto> [''Bearer '' @ token]], req_cookies = [],
     req_body = body, req_body_fail = False, req_form = [], req_ctx = None\<rparr>"

lemma net_req_simps [simp]:
  "req_method (net_req m q b t) = m" "req_path (net_req m q b t) = ''/api/kvs/v1/kv/user/notes/a''"
  "req_body (net_req m q b t) = b" "req_body_fail (net_req m q b t) = False" "req_rawquery (net_req m q b t) = q"
  "req_header (net_req m q b t) = [''Content-Type'' \<mapsto> [''text/plain''], ''Authorization'' \<mapsto> [''Bearer '' @ t]]"
  by (simp_all add: net_req_def)

lemma net_req_headers:
  "header_get [''Content-Type'' \<mapsto> [''text/plain''], ''Authorization'' \<mapsto> [''Bearer '' @ t]] ''Authorization'' = ''Bearer '' @ t"
  "header_get [''Content-Type'' \<mapsto> [''text/plain''], ''Authorization'' \<mapsto> [''Bearer '' @ t]] ''Content-Type'' = ''text/plain''"
proof -
  have "canonical_key ''Authorization'' = ''Authorization''" "canonical_key ''Content-Type'' = ''Content-Type''"
    by code_simp+
  then show "header_get [''Content-Type'' \<mapsto> [''text/plain''], ''Authorization'' \<mapsto> [''Bearer '' @ t]] ''Authorization'' = ''Bearer '' @ t"
    "header_get [''Content-Type'' \<mapsto> [''text/plain''], ''Authorization'' \<mapsto> [''Bearer '' @ t]] ''Content-Type'' = ''text/plain''"
    by (simp_all add: header_get_def)
qed

lemma net_req_access:
  "check_access two_users sc (net_req m q b ''good'') = Inr (''alice'', Some \<lparr>Audience = ''web''\<rparr>, [])"
  "check_access two_users sc (net_req m q b ''other'') = Inr (''bob'', Some \<lparr>Audience = ''web''\<rparr>, [])"
proof -
  have "bearer_token (net_req m q b t) = Inr t" for t unfolding bearer_token_Inr using net_req_headers(1) by simp
  then show "check_access two_users sc (net_req m q b ''good'') = Inr (''alice'', Some \<lparr>Audience = ''web''\<rparr>, [])"
    "check_access two_users sc (net_req m q b ''other'') = Inr (''bob'', Some \<lparr>Audience = ''web''\<rparr>, [])"
    by (simp_all add: check_access_def two_users_def sample_oidc_def)
qed

lemma net_req_form: "\<not> has_form_body (net_req m q b t)"
  "form_get (ParseForm (net_req m q b t)) k = (case map_of (parse_query q) k of None \<Rightarrow> [] | Some v \<Rightarrow> v)"
proof -
  have "media_type ''text/plain'' \<noteq> form_media_type" by code_simp
  then show f: "\<not> has_form_body (net_req m q b t)" using net_req_headers(2) by (simp add: has_form_body_def)
  show "form_get (ParseForm (net_req m q b t)) k = (case map_of (parse_query q) k of None \<Rightarrow> [] | Some v \<Rightarrow> v)"
    using f by (simp add: form_get_def ParseForm_def Let_def)
qed

lemma net_req_put: "b \<noteq> [] \<Longrightarrow> length b \<le> valueSizeLimit \<Longrightarrow> document_put (net_req ''PUT'' [] b t)"
  by (simp add: document_put_def net_req_form)

lemma net_req_path:
  "''/api/kvs/v1/kv/user/notes/a'' = kvs_user_prefix @ ''notes/a''"
  "clean_path ''/api/kvs/v1/kv/user/notes/a'' = ''/api/kvs/v1/kv/user/notes/a''"
  by code_simp+

lemma docs_cfg_simps [simp]:
  "cfg_mux docs_cfg = plain_mux" "cfg_cors docs_cfg = None" "cfg_oidc docs_cfg = two_users" "cfg_engine docs_cfg = sqlite_engine"
  by (simp_all add: docs_cfg_def)

text \<open>A PUT of one of them is served.\<close>

lemma net_put_served:
  assumes "store_working docs_cfg (k_kvs s)" and "b \<noteq> []" and "length b \<le> valueSizeLimit"
    and "check_access two_users (cfg_scopes docs_cfg) (net_req ''PUT'' [] b t) = Inr (uid, Some std, claims)" and "uid \<noteq> []"
  shows "\<exists>s' rw. AddContext None (ServeHTTP (map snd (kapi_plugins docs_cfg gc pc))) (net_req ''PUT'' [] b t) (s, fresh_rw) =
    Returns (s', rw) \<and> store_working docs_cfg (k_kvs s')"
proof -
  let ?q = "(net_req ''PUT'' [] b t)\<lparr>req_path := ''notes/a'', req_ctx := Some
    \<lparr>AuthenticatedUserID = uid, StandardClaims = Some std, ExtraClaims = Some claims\<rparr>\<rparr>"
  have dp: "document_put ?q" using net_req_put [OF assms(2,3)] by (simp add: document_put_def form_of_routed)
  from document_put_reply [OF assms(1) _ _ dp, of _ True std fresh_rw]
  obtain x w where x: "handleUserKV docs_cfg ?q (k_kvs s, fresh_rw) = Returns (x, w)" by simp
  from document_put_stores(2) [OF assms(1) _ _ dp x, of _ True std] have w: "store_working docs_cfg x" by simp
  have "AddContext None (ServeHTTP (map snd (kapi_plugins docs_cfg gc pc))) (net_req ''PUT'' [] b t) (s, fresh_rw) =
      obind (handleUserKV docs_cfg ?q (k_kvs s, fresh_rw)) (\<lambda>(x, rw'). Returns (s\<lparr>k_kvs := x\<rparr>, rw'))"
    by (rule kapi_document_request) (use assms(4,5) net_req_path in \<open>simp_all add: plain_mux_ok\<close>)
  then show ?thesis using x w by simp
qed

theorem document_survives_witness:
  "\<exists>s' s'' rw. serve_all (AddContext None (ServeHTTP (map snd (kapi_plugins docs_cfg grapi_sample_cfg pubs_sample_cfg))))
      [net_req ''PUT'' [] ''hello'' ''good'', net_req ''PUT'' [] ''bye'' ''other'']
      \<lparr>k_kvs = sample_state, k_grapi = 0, k_pubs = pubs_sample_state\<rparr> = Returns s' \<and>
    AddContext None (ServeHTTP (map snd (kapi_plugins docs_cfg grapi_sample_cfg pubs_sample_cfg))) (net_req ''GET'' ''raw=1'' [] ''good'')
      (s', fresh_rw) = Returns (s'', rw) \<and> rw_body rw = ''hello''"
proof -
  let ?S = "AddContext None (ServeHTTP (map snd (kapi_plugins docs_cfg grapi_sample_cfg pubs_sample_cfg)))"
  let ?s = "\<lparr>k_kvs = sample_state, k_grapi = 0, k_pubs = pubs_sample_state\<rparr>"
  let ?g = "net_req ''GET'' ''raw=1'' [] ''good''"
  have w: "store_working docs_cfg (k_kvs ?s)" using sample_working by (simp add: docs_cfg_def store_working_def)
  have "\<exists>t rw. ?S (net_req ''PUT'' [] ''hello'' ''good'') (?s, fresh_rw) = Returns (t, rw) \<and> store_working docs_cfg (k_kvs t)"
    by (rule net_put_served [OF w _ _ net_req_access(1)]) (simp_all add: valueSizeLimit_def)
  then obtain t rw where t: "?S (net_req ''PUT'' [] ''hello'' ''good'') (?s, fresh_rw) = Returns (t, rw)"
    and wt: "store_working docs_cfg (k_kvs t)" by (elim exE conjE)
  have "\<exists>u rw'. ?S (net_req ''PUT'' [] ''bye'' ''other'') (t, fresh_rw) = Returns (u, rw') \<and> store_working docs_cfg (k_kvs u)"
    by (rule net_put_served [OF wt _ _ net_req_access(2)]) (simp_all add: valueSizeLimit_def)
  then obtain u rw' where u: "?S (net_req ''PUT'' [] ''bye'' ''other'') (t, fresh_rw) = Returns (u, rw')" by (elim exE conjE)
  have run: "serve_all ?S (net_req ''PUT'' [] ''hello'' ''good'' # [net_req ''PUT'' [] ''bye'' ''other'']) ?s = Returns u"
    using t u by simp
  have "\<exists>s'' rw. ?S ?g (u, fresh_rw) = Returns (s'', rw) \<and> rw_status rw = Some 200 \<and> rw_body rw = req_body (net_req ''PUT'' [] ''hello'' ''good'') \<and>
    header_get (rw_header rw) ''Content-Type'' = (let ct = header_get (req_header (net_req ''PUT'' [] ''hello'' ''good'')) ''Content-Type''
      in if ct = [] then octet_stream else ct)"
    by (rule document_survives [OF _ _ w _ _ _ _ _ run, of "''alice''" "\<lparr>Audience = ''web''\<rparr>" "[]" "''notes/a''"])
      (use net_req_path in \<open>simp_all add: plain_mux_ok net_req_access net_req_put valueSizeLimit_def not_from_def net_req_headers
        net_req_form document_get_def\<close>)
  then show ?thesis using run by auto
qed

end
